(* ===== verification/Logal_Prelude.thy ===== *)
theory Logal_Prelude
  imports Main "HOL-Library.Word" "HOL-Library.Multiset" "HOL-Library.Char_ord"
    "HOL-Library.List_Lexorder"
begin

text \<open>
  Shared vocabulary of the development: Go errors as values, results as sums, the signed
  64-bit wrap-around, the collections of facts that the component proofs pass to the
  simplifier, and the generic list lemmas that several components need.
\<close>

named_theorems op_defs \<open>definitions of the operations of a component\<close>
named_theorems frame_simps \<open>which fields an operation leaves unchanged\<close>
named_theorems inv_intros \<open>preservation of a component's invariant\<close>

section \<open>Go errors and results\<close>

text \<open>
  The result codes of the SQLite driver that the code distinguishes; every other code is
  \<open>OtherCode\<close>.
\<close>

datatype sqlite_code = ErrIoErr | ErrFull | ErrCorrupt | ErrNotADB | ErrReadonly | ErrCantOpen
  | ErrBusy | ErrConstraint | OtherCode nat

text \<open>The gRPC status codes the exporters return.\<close>

datatype grpc_code = InvalidArgument | Unavailable | CanceledCode | DeadlineExceededCode

text \<open>
  An \<open>error\<close> value: \<open>Msg\<close> is \<open>errors.New\<close> (or \<open>fmt.Errorf\<close> without
  \<open>%w\<close>), \<open>WrapErr pre e post\<close> is \<open>fmt.Errorf\<close> with one \<open>%w\<close>,
  \<open>JoinErr\<close> is \<open>errors.Join\<close>; the rest are the sentinels and foreign error
  types that the code inspects with \<open>errors.Is\<close> and \<open>errors.As\<close>.
\<close>

datatype go_error =
    Msg string
  | WrapErr string go_error string
  | JoinErr "go_error list"
  | SqliteError sqlite_code string
  | Canceled
  | DeadlineExceeded
  | SpanConflict
  | DatabaseMismatch
  | NotExist string
  | OsError string
  | StatusError grpc_code string

type_synonym 'a result = "go_error + 'a"

text \<open>\<open>strings.Join\<close>, the names of the status codes, and \<open>err.Error()\<close>.\<close>

fun join :: "string \<Rightarrow> string list \<Rightarrow> string" where
  "join sep [] = []"
| "join sep [x] = x"
| "join sep (x # y # ys) = x @ sep @ join sep (y # ys)"

fun grpc_name :: "grpc_code \<Rightarrow> string" where
  "grpc_name InvalidArgument = ''InvalidArgument''"
| "grpc_name Unavailable = ''Unavailable''"
| "grpc_name CanceledCode = ''Canceled''"
| "grpc_name DeadlineExceededCode = ''DeadlineExceeded''"

fun err_text :: "go_error \<Rightarrow> string" where
  "err_text (Msg m) = m"
| "err_text (WrapErr pre e post) = pre @ err_text e @ post"
| "err_text (JoinErr es) = join [CHR 0x0A] (map err_text es)"
| "err_text (SqliteError c m) = m"
| "err_text Canceled = ''context canceled''"
| "err_text DeadlineExceeded = ''context deadline exceeded''"
| "err_text SpanConflict = ''span identity conflicts with committed content''"
| "err_text DatabaseMismatch = ''database path does not match this collector''"
| "err_text (NotExist m) = m"
| "err_text (OsError m) = m"
| "err_text (StatusError c m) =
     ''rpc error: code = '' @ grpc_name c @ '' desc = '' @ m"

text \<open>\<open>errors.Is(err, target)\<close> for the sentinels the code compares with.\<close>

fun errors_is :: "go_error \<Rightarrow> go_error \<Rightarrow> bool" where
  "errors_is (WrapErr pre e post) t = (WrapErr pre e post = t \<or> errors_is e t)"
| "errors_is (JoinErr es) t = (JoinErr es = t \<or> (\<exists>e\<in>set es. errors_is e t))"
| "errors_is e t = (e = t)"

text \<open>\<open>errors.As(err, &sqliteErr)\<close>: the first SQLite error of the chain.\<close>

fun errors_as_sqlite :: "go_error \<Rightarrow> sqlite_code option" where
  "errors_as_sqlite (SqliteError c m) = Some c"
| "errors_as_sqlite (WrapErr pre e post) = errors_as_sqlite e"
| "errors_as_sqlite (JoinErr es) =
     foldr (\<lambda>e r. case errors_as_sqlite e of Some c \<Rightarrow> Some c | None \<Rightarrow> r) es None"
| "errors_as_sqlite _ = None"

definition is_ok :: "'a result \<Rightarrow> bool" where
  "is_ok r = (case r of Inl _ \<Rightarrow> False | Inr _ \<Rightarrow> True)"

lemma is_ok_simps [simp]: "\<not> is_ok (Inl e)" "is_ok (Inr x)"
  by (simp_all add: is_ok_def)

section \<open>Quoted strings in messages\<close>

text \<open>
  \<open>strconv.Quote\<close>, the \<open>%q\<close> verb: quotes, backslashes and ASCII control
  characters are escaped. Bytes from 128 up are printed as they are, which is what Go does
  with printable UTF-8 text.
\<close>

definition hex_digit :: "nat \<Rightarrow> char" where
  "hex_digit n = (if n < 10 then char_of (48 + n) else char_of (87 + n))"

definition quote_byte :: "char \<Rightarrow> string" where
  "quote_byte c =
     (let n = of_char c :: nat in
      if c = CHR 0x22 then [CHR 0x5C, CHR 0x22]
      else if c = CHR 0x5C then [CHR 0x5C, CHR 0x5C]
      else if 7 \<le> n \<and> n \<le> 13 then [CHR 0x5C, ''abtnvfr'' ! (n - 7)]
      else if n < 32 \<or> n = 127
      then [CHR 0x5C, CHR 0x78, hex_digit (n div 16), hex_digit (n mod 16)]
      else [c])"

definition go_quote :: "string \<Rightarrow> string" where
  "go_quote s = [CHR 0x22] @ concat (map quote_byte s) @ [CHR 0x22]"

section \<open>Machine integers\<close>

text \<open>
  Signed 64-bit arithmetic is \<open>int\<close> with the wrap-around written out; unsigned 64-bit
  counters are words.
\<close>

type_synonym u64 = "64 word"

definition wrap64 :: "int \<Rightarrow> int" where
  "wrap64 x = (x + 2 ^ 63) mod 2 ^ 64 - 2 ^ 63"

definition in_int64 :: "int \<Rightarrow> bool" where
  "in_int64 x \<longleftrightarrow> - (2 ^ 63) \<le> x \<and> x < 2 ^ 63"

lemma wrap64_id: "in_int64 x \<Longrightarrow> wrap64 x = x"
  by (simp add: wrap64_def in_int64_def)

lemma wrap64_range: "in_int64 (wrap64 x)"
  by (simp add: wrap64_def in_int64_def)

section \<open>Lists\<close>

lemma length_filter_remove:
  assumes "distinct (map f xs)" "set ks \<subseteq> set (map f xs)" "distinct ks"
  shows "length (filter (\<lambda>x. f x \<notin> set ks) xs) + length ks = length xs"
proof -
  have "length (filter (\<lambda>x. f x \<in> set ks) xs) = card (set (filter (\<lambda>x. f x \<in> set ks) xs))"
    using assms(1) by (simp add: distinct_map distinct_card [symmetric])
  also have "\<dots> = card (f ` set (filter (\<lambda>x. f x \<in> set ks) xs))"
    using assms(1) by (intro card_image [symmetric]) (auto simp: distinct_map inj_on_def)
  also have "f ` set (filter (\<lambda>x. f x \<in> set ks) xs) = set ks"
    using assms(2) by auto
  finally have "length (filter (\<lambda>x. f x \<in> set ks) xs) = length ks"
    using assms(3) by (simp add: distinct_card)
  then show ?thesis
    using sum_length_filter_compl [of "\<lambda>x. f x \<in> set ks" xs] by simp
qed

lemma distinct_map_filterI: "distinct (map f xs) \<Longrightarrow> distinct (map f (filter P xs))"
  by (simp add: distinct_map inj_on_def)

lemma le_foldr_max: "x \<in> set xs \<Longrightarrow> x \<le> foldr max xs (0::int)"
  by (induction xs) auto

lemma foldr_max_nonneg: "0 \<le> foldr max xs (0::int)"
  by (induction xs) auto

lemma map_eq_map_iff: "map f xs = map f ys \<longleftrightarrow> list_all2 (\<lambda>x y. f x = f y) xs ys"
proof (induction xs arbitrary: ys)
  case (Cons x xs)
  then show ?case by (cases ys) auto
qed simp

lemma list_all2_congL:
  "(\<And>x y. x \<in> set xs \<Longrightarrow> P x y \<longleftrightarrow> Q x y) \<Longrightarrow> list_all2 P xs ys \<longleftrightarrow> list_all2 Q xs ys"
proof (induction xs arbitrary: ys)
  case (Cons x xs)
  then show ?case by (cases ys) auto
qed simp

end
