(* ===== verification/Tables.thy ===== *)
theory Tables
  imports Logal_Prelude
begin

text \<open>
  The telemetry database: the records the exporters hand to the store, the rows of the three
  STRICT tables, and the effect of the INSERT, SELECT and DELETE statements of
  \<^verbatim>\<open>internal/store\<close> on them. A table is the list of its rows in rowid order. A statement
  that SQLite refuses (a CHECK constraint) is an error value. \<open>json_valid\<close> of SQLite is a
  parameter; reals are stored as they are bound, and SQLite's NULL for a NaN does not arise,
  since the exporter hands over finite numbers only; what a statement does when SQLite itself fails is in the callers, which ask
  their environment before each call.
\<close>

section \<open>Records and rows\<close>

text \<open>A float64 is its bit pattern.\<close>

type_synonym float64 = "64 word"

record LogRecord =
  l_Fingerprint :: string
  l_ReceivedAt :: int
  l_Time :: int
  l_ServiceName :: string
  l_SeverityNumber :: int
  l_SeverityText :: string
  l_TraceID :: string
  l_SpanID :: string
  l_RequestID :: string
  l_ProductID :: string
  l_Component :: string
  l_Op :: string
  l_BodyJSON :: string
  l_PayloadJSON :: string

record SpanRecord =
  s_Fingerprint :: string
  s_ReceivedAt :: int
  s_TraceID :: string
  s_SpanID :: string
  s_ParentSpanID :: string
  s_ServiceName :: string
  s_Name :: string
  s_StartTime :: int
  s_EndTime :: int
  s_RequestID :: string
  s_ProductID :: string
  s_PayloadJSON :: string

record MetricPointRecord =
  m_Fingerprint :: string
  m_ReceivedAt :: int
  m_ServiceName :: string
  m_MetricName :: string
  m_MetricType :: string
  m_StartTime :: int
  m_Time :: int
  m_NumberKind :: string
  m_NumberInt :: "int option"
  m_NumberDouble :: "float64 option"
  m_AggregateCount :: string
  m_AggregateSum :: "float64 option"
  m_AggregateMin :: "float64 option"
  m_AggregateMax :: "float64 option"
  m_PayloadJSON :: string

text \<open>\<open>nullable\<close> and \<open>nullableBytes\<close>: empty values are stored as NULL.\<close>

definition nullable :: "string \<Rightarrow> string option" where
  "nullable v = (if v = [] then None else Some v)"

definition nullableBytes :: "string \<Rightarrow> string option" where
  "nullableBytes v = (if length v = 0 then None else Some v)"

record log_row =
  lr_id :: int
  lr_fingerprint :: string
  lr_received :: int
  lr_time :: int
  lr_service :: string
  lr_severity_number :: int
  lr_severity_text :: string
  lr_trace_id :: "string option"
  lr_span_id :: "string option"
  lr_request_id :: "string option"
  lr_product_id :: "string option"
  lr_component :: "string option"
  lr_op :: "string option"
  lr_body :: string
  lr_payload :: string

record span_row =
  sr_id :: int
  sr_fingerprint :: string
  sr_received :: int
  sr_trace_id :: string
  sr_span_id :: string
  sr_parent :: "string option"
  sr_service :: string
  sr_name :: string
  sr_start :: int
  sr_end :: int
  sr_request_id :: "string option"
  sr_product_id :: "string option"
  sr_payload :: string

record metric_row =
  mr_id :: int
  mr_fingerprint :: string
  mr_received :: int
  mr_service :: string
  mr_name :: string
  mr_type :: string
  mr_start :: int
  mr_time :: int
  mr_number_kind :: "string option"
  mr_number_int :: "int option"
  mr_number_double :: "float64 option"
  mr_agg_count :: "string option"
  mr_agg_sum :: "float64 option"
  mr_agg_min :: "float64 option"
  mr_agg_max :: "float64 option"
  mr_payload :: string

record database =
  otel_logs :: "log_row list"
  otel_spans :: "span_row list"
  otel_metric_points :: "metric_row list"

section \<open>Row construction\<close>

text \<open>The column lists of the three INSERT statements.\<close>

definition log_row_of :: "int \<Rightarrow> LogRecord \<Rightarrow> log_row" where
  "log_row_of i r = \<lparr>lr_id = i, lr_fingerprint = l_Fingerprint r, lr_received = l_ReceivedAt r,
     lr_time = l_Time r, lr_service = l_ServiceName r,
     lr_severity_number = l_SeverityNumber r, lr_severity_text = l_SeverityText r,
     lr_trace_id = nullableBytes (l_TraceID r), lr_span_id = nullableBytes (l_SpanID r),
     lr_request_id = nullable (l_RequestID r), lr_product_id = nullable (l_ProductID r),
     lr_component = nullable (l_Component r), lr_op = nullable (l_Op r),
     lr_body = l_BodyJSON r, lr_payload = l_PayloadJSON r\<rparr>"

definition span_row_of :: "int \<Rightarrow> SpanRecord \<Rightarrow> span_row" where
  "span_row_of i r = \<lparr>sr_id = i, sr_fingerprint = s_Fingerprint r, sr_received = s_ReceivedAt r,
     sr_trace_id = s_TraceID r, sr_span_id = s_SpanID r,
     sr_parent = nullableBytes (s_ParentSpanID r), sr_service = s_ServiceName r,
     sr_name = s_Name r, sr_start = s_StartTime r, sr_end = s_EndTime r,
     sr_request_id = nullable (s_RequestID r), sr_product_id = nullable (s_ProductID r),
     sr_payload = s_PayloadJSON r\<rparr>"

definition metric_row_of :: "int \<Rightarrow> MetricPointRecord \<Rightarrow> metric_row" where
  "metric_row_of i r = \<lparr>mr_id = i, mr_fingerprint = m_Fingerprint r,
     mr_received = m_ReceivedAt r, mr_service = m_ServiceName r, mr_name = m_MetricName r,
     mr_type = m_MetricType r, mr_start = m_StartTime r, mr_time = m_Time r,
     mr_number_kind = nullable (m_NumberKind r), mr_number_int = m_NumberInt r,
     mr_number_double = m_NumberDouble r, mr_agg_count = nullable (m_AggregateCount r),
     mr_agg_sum = m_AggregateSum r, mr_agg_min = m_AggregateMin r,
     mr_agg_max = m_AggregateMax r, mr_payload = m_PayloadJSON r\<rparr>"

text \<open>SQLite's rowid for a new row: one more than the largest, 1 in an empty table.\<close>

definition next_rowid :: "int list \<Rightarrow> int" where
  "next_rowid ids = foldr max ids 0 + 1"

section \<open>CHECK constraints of the schema\<close>

definition log_checks :: "(string \<Rightarrow> bool) \<Rightarrow> LogRecord \<Rightarrow> bool" where
  "log_checks jv r \<longleftrightarrow>
     length (l_Fingerprint r) = 32 \<and> jv (l_BodyJSON r) \<and> jv (l_PayloadJSON r)"

definition span_checks :: "(string \<Rightarrow> bool) \<Rightarrow> SpanRecord \<Rightarrow> bool" where
  "span_checks jv r \<longleftrightarrow>
     length (s_Fingerprint r) = 32 \<and> length (s_TraceID r) = 16 \<and> length (s_SpanID r) = 8 \<and>
     jv (s_PayloadJSON r)"

definition metric_types :: "string list" where
  "metric_types =
     [''gauge'', ''sum'', ''histogram'', ''exponential_histogram'', ''summary'']"

definition metric_checks :: "(string \<Rightarrow> bool) \<Rightarrow> MetricPointRecord \<Rightarrow> bool" where
  "metric_checks jv r \<longleftrightarrow>
     length (m_Fingerprint r) = 32 \<and> m_MetricType r \<in> set metric_types \<and>
     (m_NumberKind r = [] \<or> m_NumberKind r \<in> {''int'', ''double''}) \<and>
     jv (m_PayloadJSON r)"

section \<open>INSERT\<close>

text \<open>
  One execution of each prepared INSERT: the CHECK constraints come before the uniqueness
  constraint, whose conflict is ignored (\<open>ON CONFLICT ... DO NOTHING\<close>). The result
  is the table and the number of rows affected.
\<close>

definition constraint_error :: go_error where
  "constraint_error = SqliteError ErrConstraint ''CHECK constraint failed''"

definition log_insert ::
    "(string \<Rightarrow> bool) \<Rightarrow> LogRecord \<Rightarrow> log_row list \<Rightarrow> (log_row list \<times> u64) result" where
  "log_insert jv r t =
     (if \<not> log_checks jv r then Inl constraint_error
      else if l_Fingerprint r \<in> set (map lr_fingerprint t) then Inr (t, 0)
      else Inr (t @ [log_row_of (next_rowid (map lr_id t)) r], 1))"

definition span_insert ::
    "(string \<Rightarrow> bool) \<Rightarrow> SpanRecord \<Rightarrow> span_row list \<Rightarrow> (span_row list \<times> u64) result" where
  "span_insert jv r t =
     (if \<not> span_checks jv r then Inl constraint_error
      else if (s_TraceID r, s_SpanID r) \<in> set (map (\<lambda>w. (sr_trace_id w, sr_span_id w)) t)
      then Inr (t, 0)
      else Inr (t @ [span_row_of (next_rowid (map sr_id t)) r], 1))"

definition metric_insert ::
    "(string \<Rightarrow> bool) \<Rightarrow> MetricPointRecord \<Rightarrow> metric_row list \<Rightarrow> (metric_row list \<times> u64) result"
    where
  "metric_insert jv r t =
     (if \<not> metric_checks jv r then Inl constraint_error
      else if m_Fingerprint r \<in> set (map mr_fingerprint t) then Inr (t, 0)
      else Inr (t @ [metric_row_of (next_rowid (map mr_id t)) r], 1))"

text \<open>\<open>SELECT fingerprint FROM otel_spans WHERE trace_id=? AND span_id=?\<close>\<close>

definition span_fingerprint :: "string \<Rightarrow> string \<Rightarrow> span_row list \<Rightarrow> string option" where
  "span_fingerprint tid sid t =
     map_option sr_fingerprint (find (\<lambda>w. sr_trace_id w = tid \<and> sr_span_id w = sid) t)"

section \<open>DELETE\<close>

text \<open>
  \<open>DELETE ... WHERE id IN (SELECT id ... WHERE received < ? ORDER BY received LIMIT
  5000)\<close>, and \<open>DELETE ... WHERE id=?\<close> for each of a list of ids. Rows received at the
  same time are taken in rowid order, as the index on the receipt time yields them.
\<close>

definition expired_ids :: "('t \<Rightarrow> int) \<Rightarrow> ('t \<Rightarrow> int) \<Rightarrow> int \<Rightarrow> 't list \<Rightarrow> int list" where
  "expired_ids rid recv cutoff t =
     map rid (take 5000 (sort_key recv (filter (\<lambda>r. recv r < cutoff) t)))"

definition delete_ids :: "('t \<Rightarrow> int) \<Rightarrow> int list \<Rightarrow> 't list \<Rightarrow> 't list" where
  "delete_ids rid ids t = filter (\<lambda>r. rid r \<notin> set ids) t"

section \<open>Well-formed tables\<close>

text \<open>Row ids are positive and distinct, and the unique key of the table is unique.\<close>

definition table_ok :: "('t \<Rightarrow> int) \<Rightarrow> ('t \<Rightarrow> 'k) \<Rightarrow> 't list \<Rightarrow> bool" where
  "table_ok rid key t \<longleftrightarrow>
     distinct (map rid t) \<and> distinct (map key t) \<and> (\<forall>r\<in>set t. 0 < rid r)"

abbreviation span_key :: "span_row \<Rightarrow> string \<times> string" where
  "span_key w \<equiv> (sr_trace_id w, sr_span_id w)"

definition database_ok :: "database \<Rightarrow> bool" where
  "database_ok d \<longleftrightarrow> table_ok lr_id lr_fingerprint (otel_logs d) \<and>
     table_ok sr_id span_key (otel_spans d) \<and>
     table_ok mr_id mr_fingerprint (otel_metric_points d)"

definition empty_database :: database where
  "empty_database = \<lparr>otel_logs = [], otel_spans = [], otel_metric_points = []\<rparr>"

lemma empty_database_ok: "database_ok empty_database"
  by (simp add: database_ok_def table_ok_def empty_database_def)

definition live_rows :: "database \<Rightarrow> nat" where
  "live_rows d = length (otel_logs d) + length (otel_spans d) + length (otel_metric_points d)"

lemma table_ok_filter [inv_intros]: "table_ok rid key t \<Longrightarrow> table_ok rid key (filter P t)"
  by (auto simp: table_ok_def distinct_map_filterI)

lemma table_ok_delete [inv_intros]: "table_ok rid key t \<Longrightarrow> table_ok rid key (delete_ids rid ids t)"
  by (simp add: delete_ids_def table_ok_filter)

lemma length_delete_le: "length (delete_ids rid ids t) \<le> length t"
  by (simp add: delete_ids_def)

lemma table_ok_Nil [simp, intro]: "table_ok rid key []"
  by (simp add: table_ok_def)

lemma next_rowid_fresh: "next_rowid ids \<notin> set ids"
  using le_foldr_max [of "next_rowid ids" ids] by (auto simp: next_rowid_def)

lemma next_rowid_pos: "0 < next_rowid ids"
  using foldr_max_nonneg [of ids] by (simp add: next_rowid_def)

lemma expired_ids_subset: "set (expired_ids rid recv cutoff t) \<subseteq> set (map rid t)"
  by (auto simp: expired_ids_def dest!: in_set_takeD)

lemma length_expired_ids:
  "length (expired_ids rid recv cutoff t) = min 5000 (length (filter (\<lambda>r. recv r < cutoff) t))"
  by (simp add: expired_ids_def min.commute)

lemma distinct_expired_ids:
  assumes "distinct (map rid t)"
  shows "distinct (expired_ids rid recv cutoff t)"
proof -
  let ?f = "filter (\<lambda>r. recv r < cutoff) t"
  have "mset (map rid (sort_key recv ?f)) = mset (map rid ?f)" by simp
  then have "distinct (map rid (sort_key recv ?f))"
    using assms by (metis distinct_map_filterI mset_eq_imp_distinct_iff)
  then show ?thesis
    by (simp add: expired_ids_def take_map [symmetric])
qed

lemma length_delete_expired:
  assumes "distinct (map rid t)"
  shows "length (delete_ids rid (expired_ids rid recv cutoff t) t)
           + length (expired_ids rid recv cutoff t) = length t"
  unfolding delete_ids_def
  by (rule length_filter_remove) (simp_all only: assms expired_ids_subset distinct_expired_ids)

section \<open>One signal's table\<close>

text \<open>
  What the batch loops rely on: a row constructor whose id and key are the ones given. The
  three tables of the schema provide it.
\<close>

locale signal_table =
  fixes mk :: "int \<Rightarrow> 'r \<Rightarrow> 't"
    and rid :: "'t \<Rightarrow> int"
    and key :: "'t \<Rightarrow> 'k"
    and rkey :: "'r \<Rightarrow> 'k"
  assumes rid_mk [simp]: "rid (mk i r) = i"
    and key_mk [simp]: "key (mk i r) = rkey r"
begin

lemma append_ok:
  assumes "table_ok rid key t" "rkey r \<notin> set (map key t)"
  shows "table_ok rid key (t @ [mk (next_rowid (map rid t)) r])"
  using assms next_rowid_fresh [of "map rid t"] next_rowid_pos [of "map rid t"]
  by (auto simp: table_ok_def)

lemma append_keys: "set (map key (t @ [mk i r])) = insert (rkey r) (set (map key t))"
  by simp

end

interpretation log_table: signal_table log_row_of lr_id lr_fingerprint l_Fingerprint
  by unfold_locales (simp_all add: log_row_of_def)

interpretation span_table: signal_table span_row_of sr_id span_key
  "\<lambda>r. (s_TraceID r, s_SpanID r)"
  by unfold_locales (simp_all add: span_row_of_def)

interpretation metric_table: signal_table metric_row_of mr_id mr_fingerprint m_Fingerprint
  by unfold_locales (simp_all add: metric_row_of_def)

end
