(* ===== verification/StoreCore.thy ===== *)
theory StoreCore
  imports Tables
begin

text \<open>
  The state of \<open>store.Store\<close>, its configuration check, the disk measurements, the
  admission test, the operational snapshot and the error bookkeeping
  (\<^verbatim>\<open>internal/store/store.go\<close>, \<^verbatim>\<open>internal/store/maintenance.go\<close>).
\<close>

section \<open>State\<close>

record Config =
  Path :: string
  RetentionHours :: int

text \<open>
  \<open>db\<close> is the open connection with the committed contents (a nil pointer is
  \<open>None\<close>); \<open>stopped\<close> says that the \<open>stop\<close> channel is closed (the
  \<open>sync.Once\<close> of Shutdown has run) and \<open>lockHeld\<close> that \<open>lockFile\<close> is not
  nil.
\<close>

record Store =
  cfg :: Config
  db :: "database option"
  ready :: bool
  closing :: bool
  stopped :: bool
  maintenanceRun :: bool
  lockHeld :: bool
  lastError :: "string option"
  committedLogs :: u64
  committedSpans :: u64
  committedMetrics :: u64
  deletedLogs :: u64
  deletedSpans :: u64
  deletedMetrics :: u64

text \<open>\<open>NewFactory\<close>: the default configuration and a fresh store.\<close>

definition default_config :: Config where
  "default_config = \<lparr>Path = [], RetentionHours = 48\<rparr>"

definition new_store :: "Config \<Rightarrow> Store" where
  "new_store c = \<lparr>cfg = c, db = None, ready = False, closing = False, stopped = False,
     maintenanceRun = False, lockHeld = False, lastError = None,
     committedLogs = 0, committedSpans = 0, committedMetrics = 0,
     deletedLogs = 0, deletedSpans = 0, deletedMetrics = 0\<rparr>"

text \<open>\<open>int((1<<63-1)/int64(time.Hour))\<close>, with time.Hour in nanoseconds.\<close>

definition hour_ns :: int where
  "hour_ns = 3600000000000"

definition max_retention_hours :: int where
  "max_retention_hours = (2 ^ 63 - 1) div hour_ns"

definition config_validate :: "Config \<Rightarrow> go_error option" where
  "config_validate c =
     (if Path c = [] then Some (Msg ''logal store path is required'')
      else if RetentionHours c \<le> 0 \<or> RetentionHours c > max_retention_hours
      then Some (Msg ''retention_hours must be positive and fit in a time.Duration'')
      else None)"

section \<open>Disk state\<close>

definition mainHighWater :: int where "mainHighWater = 2 * 2 ^ 30"
definition activeHardLimit :: int where "activeHardLimit = 3 * 2 ^ 30"
definition requestReserve :: int where "requestReserve = 64 * 2 ^ 20"
definition freeDiskFloor :: u64 where "freeDiskFloor = 5 * 2 ^ 30"
definition walNotReady :: int where "walNotReady = 256 * 2 ^ 20"

lemmas capacity_defs = mainHighWater_def activeHardLimit_def requestReserve_def
  freeDiskFloor_def walNotReady_def

text \<open>
  What \<open>os.Stat\<close> and \<open>syscall.Statfs\<close> report: the size of a file that can be
  examined, and the available blocks with their size.
\<close>

record filesystem =
  stat_size :: "string \<Rightarrow> int option"
  statfs_dir :: "string \<Rightarrow> (u64 \<times> u64) option"

record disk =
  databaseBytes :: int
  activeBytes :: int
  freeBytes :: u64
  walBytes :: int

definition size_or_zero :: "filesystem \<Rightarrow> string \<Rightarrow> int" where
  "size_or_zero fs p = (case stat_size fs p of None \<Rightarrow> 0 | Some n \<Rightarrow> n)"

text \<open>
  \<open>diskState\<close>; \<open>statfs_dir\<close> is \<open>Statfs(filepath.Dir(path))\<close>.
\<close>

definition diskState :: "filesystem \<Rightarrow> string \<Rightarrow> disk" where
  "diskState fs p =
     \<lparr>databaseBytes = size_or_zero fs p,
      activeBytes = foldl (\<lambda>acc c. wrap64 (acc + size_or_zero fs c)) 0
        [p, p @ ''-wal'', p @ ''-shm''],
      freeBytes = (case statfs_dir fs p of None \<Rightarrow> 0 | Some (bavail, bsize) \<Rightarrow> bavail * bsize),
      walBytes = size_or_zero fs (p @ ''-wal'')\<rparr>"

section \<open>Admission and readiness\<close>

definition free_floor :: u64 where
  "free_floor = freeDiskFloor + word_of_int requestReserve"

definition admissionErrorLocked :: "disk \<Rightarrow> Store \<Rightarrow> go_error option" where
  "admissionErrorLocked d s =
     (if db s = None \<or> \<not> ready s \<or> closing s then Some (Msg ''store is not ready'')
      else if wrap64 (activeBytes d + requestReserve) \<ge> activeHardLimit
      then Some (Msg ''active footprint has no request reserve'')
      else if freeBytes d < free_floor
      then Some (Msg ''free disk is below ingestion floor'')
      else if walBytes d \<ge> walNotReady then Some (Msg ''WAL is above readiness limit'')
      else None)"

record Snapshot =
  SnapshotError :: string
  OldestMetric :: int
  CommittedMetrics :: u64
  DeletedMetrics :: u64
  Ready :: bool
  DatabaseBytes :: int
  WALBytes :: int
  OldestLog :: int
  OldestSpan :: int
  CommittedLogs :: u64
  CommittedSpans :: u64
  DeletedLogs :: u64
  DeletedSpans :: u64
  ActiveBytes :: int
  FreeBytes :: u64
  LastError :: string

definition OperationalSnapshot :: "disk \<Rightarrow> Store \<Rightarrow> Snapshot" where
  "OperationalSnapshot d s =
     \<lparr>SnapshotError = [], OldestMetric = 0,
      CommittedMetrics = committedMetrics s, DeletedMetrics = deletedMetrics s,
      Ready = (ready s \<and> \<not> closing s \<and>
        wrap64 (activeBytes d + requestReserve) < activeHardLimit \<and>
        walBytes d < walNotReady \<and> freeBytes d \<ge> free_floor),
      DatabaseBytes = databaseBytes d, WALBytes = walBytes d,
      OldestLog = 0, OldestSpan = 0,
      CommittedLogs = committedLogs s, CommittedSpans = committedSpans s,
      DeletedLogs = deletedLogs s, DeletedSpans = deletedSpans s,
      ActiveBytes = activeBytes d, FreeBytes = freeBytes d,
      LastError = (case lastError s of None \<Rightarrow> [] | Some m \<Rightarrow> m)\<rparr>"

text \<open>
  \<open>COALESCE(MIN(received_at_unix_nano),0)\<close>, and \<open>Snapshot\<close>: the lock result,
  the disk at the two operational snapshots and the outcome of each of the three queries
  come from the environment.
\<close>

definition oldest :: "int list \<Rightarrow> int" where
  "oldest ts = (case ts of [] \<Rightarrow> 0 | t # ts' \<Rightarrow> foldr min ts' t)"

record snapshot_env =
  sn_lock :: "go_error option"
  sn_disk1 :: disk
  sn_disk2 :: disk
  sn_query :: "nat \<Rightarrow> go_error option"

definition StoreSnapshot :: "snapshot_env \<Rightarrow> Store \<Rightarrow> Snapshot" where
  "StoreSnapshot env s =
     (case sn_lock env of
        Some e \<Rightarrow> (OperationalSnapshot (sn_disk1 env) s)\<lparr>SnapshotError := err_text e\<rparr>
      | None \<Rightarrow>
          let snap = OperationalSnapshot (sn_disk2 env) s in
          (case db s of
             None \<Rightarrow> snap
           | Some d \<Rightarrow>
               (case sn_query env 0 of
                  Some e \<Rightarrow> snap\<lparr>SnapshotError := err_text e\<rparr>
                | None \<Rightarrow>
                    let snap = snap\<lparr>OldestMetric := oldest (map mr_received (otel_metric_points d))\<rparr> in
                    (case sn_query env 1 of
                       Some e \<Rightarrow> snap\<lparr>SnapshotError := err_text e\<rparr>
                     | None \<Rightarrow>
                         let snap = snap\<lparr>OldestLog := oldest (map lr_received (otel_logs d))\<rparr> in
                         (case sn_query env 2 of
                            Some e \<Rightarrow> snap\<lparr>SnapshotError := err_text e\<rparr>
                          | None \<Rightarrow>
                              snap\<lparr>OldestSpan := oldest (map sr_received (otel_spans d))\<rparr>)))))"

section \<open>Error bookkeeping\<close>

definition setOperationalError :: "go_error \<Rightarrow> Store \<Rightarrow> Store" where
  "setOperationalError e s = s\<lparr>lastError := Some (err_text e), ready := False\<rparr>"

definition storage_failure :: "sqlite_code \<Rightarrow> bool" where
  "storage_failure c \<longleftrightarrow>
     c \<in> {ErrIoErr, ErrFull, ErrCorrupt, ErrNotADB, ErrReadonly, ErrCantOpen}"

definition recordWriteError :: "go_error option \<Rightarrow> Store \<Rightarrow> Store" where
  "recordWriteError r s =
     (case r of
        None \<Rightarrow> s
      | Some e \<Rightarrow>
          (case errors_as_sqlite e of
             None \<Rightarrow> s
           | Some c \<Rightarrow> if storage_failure c then setOperationalError e s else s))"

definition err_of :: "'a result \<Rightarrow> go_error option" where
  "err_of r = (case r of Inl e \<Rightarrow> Some e | Inr _ \<Rightarrow> None)"

lemma err_of_simps [simp]: "err_of (Inl e) = Some e" "err_of (Inr x) = None"
  by (simp_all add: err_of_def)

section \<open>Frame facts and readiness\<close>

lemma setOperationalError_frame [frame_simps]:
  "cfg (setOperationalError e s) = cfg s"
  "db (setOperationalError e s) = db s"
  "closing (setOperationalError e s) = closing s"
  "stopped (setOperationalError e s) = stopped s"
  "maintenanceRun (setOperationalError e s) = maintenanceRun s"
  "lockHeld (setOperationalError e s) = lockHeld s"
  "committedLogs (setOperationalError e s) = committedLogs s"
  "committedSpans (setOperationalError e s) = committedSpans s"
  "committedMetrics (setOperationalError e s) = committedMetrics s"
  "deletedLogs (setOperationalError e s) = deletedLogs s"
  "deletedSpans (setOperationalError e s) = deletedSpans s"
  "deletedMetrics (setOperationalError e s) = deletedMetrics s"
  by (simp_all add: setOperationalError_def)

lemma recordWriteError_None [simp]: "recordWriteError None s = s"
  by (simp add: recordWriteError_def)

lemma recordWriteError_cases:
  "recordWriteError r s = s \<or> (\<exists>e. r = Some e \<and> recordWriteError r s = setOperationalError e s)"
  by (auto simp: recordWriteError_def split: option.splits)

lemma recordWriteError_frame [frame_simps]:
  "cfg (recordWriteError r s) = cfg s"
  "db (recordWriteError r s) = db s"
  "closing (recordWriteError r s) = closing s"
  "stopped (recordWriteError r s) = stopped s"
  "maintenanceRun (recordWriteError r s) = maintenanceRun s"
  "lockHeld (recordWriteError r s) = lockHeld s"
  "committedLogs (recordWriteError r s) = committedLogs s"
  "committedSpans (recordWriteError r s) = committedSpans s"
  "committedMetrics (recordWriteError r s) = committedMetrics s"
  "deletedLogs (recordWriteError r s) = deletedLogs s"
  "deletedSpans (recordWriteError r s) = deletedSpans s"
  "deletedMetrics (recordWriteError r s) = deletedMetrics s"
  using recordWriteError_cases [of r s] by (auto simp: frame_simps)

lemma recordWriteError_ready: "ready (recordWriteError r s) \<Longrightarrow> ready s"
  using recordWriteError_cases [of r s] by (auto simp: setOperationalError_def)

lemma snapshot_ready_iff:
  "Ready (OperationalSnapshot d s) \<longleftrightarrow> ready s \<and> \<not> closing s \<and>
     wrap64 (activeBytes d + requestReserve) < activeHardLimit \<and>
     walBytes d < walNotReady \<and> freeBytes d \<ge> free_floor"
  by (simp add: OperationalSnapshot_def)

text \<open>
  The admission test under the lock and the readiness that is reported outside it are the
  same condition: a write is admitted exactly when the database is open and the operational
  snapshot of the same disk says ready.
\<close>

lemma admission_iff_snapshot_ready:
  "admissionErrorLocked d s = None \<longleftrightarrow> db s \<noteq> None \<and> Ready (OperationalSnapshot d s)"
  by (auto simp: admissionErrorLocked_def snapshot_ready_iff not_le not_less split: if_splits)

section \<open>Finding the store\<close>

text \<open>\<open>Find\<close>: the first extension of the configured id that is a store.\<close>

fun Find :: "(string \<times> 'store option) list \<Rightarrow> string \<Rightarrow> 'store result" where
  "Find [] configured = Inl (Msg (''store extension '' @ go_quote configured @ '' not found''))"
| "Find ((i, ext) # exts) configured =
     (case ext of
        Some s \<Rightarrow> if i = configured then Inr s else Find exts configured
      | None \<Rightarrow> Find exts configured)"

end
