(* ===== verification/StoreInsert.thy ===== *)
theory StoreInsert
  imports StoreCore
begin

text \<open>
  The three insert operations of the store (\<open>InsertLogs\<close>, \<open>InsertSpans\<close> in
  \<^verbatim>\<open>store.go\<close>, \<open>InsertMetricPoints\<close> in \<^verbatim>\<open>metrics.go\<close>). A transaction works
  on a copy of the table; only a successful commit installs it, and every return before that
  runs the deferred rollback. The outcomes of the lock and of every SQLite call come from the
  environment.
\<close>

section \<open>Environment and the record loop\<close>

record write_env =
  we_lock :: "go_error option"
  we_disk :: disk
  we_begin :: "go_error option"
  we_prepare :: "go_error option"
  we_query :: "nat \<Rightarrow> go_error option"
  we_exec :: "nat \<Rightarrow> go_error option"
  we_commit :: "go_error option"

definition not_ready :: go_error where
  "not_ready = Msg ''store is not ready''"

text \<open>The loop over the records: the first error ends it.\<close>

fun exec_batch ::
    "(nat \<Rightarrow> 'r \<Rightarrow> 't list \<Rightarrow> ('t list \<times> u64) result) \<Rightarrow> nat \<Rightarrow> 'r list \<Rightarrow> 't list \<Rightarrow> u64
      \<Rightarrow> ('t list \<times> u64) result" where
  "exec_batch step i [] t n = Inr (t, n)"
| "exec_batch step i (r # rs) t n =
     (case step i r t of
        Inl e \<Rightarrow> Inl e
      | Inr (t', k) \<Rightarrow> exec_batch step (Suc i) rs t' (n + k))"

text \<open>The body of each of the three loops.\<close>

definition log_step ::
    "(string \<Rightarrow> bool) \<Rightarrow> write_env \<Rightarrow> nat \<Rightarrow> LogRecord \<Rightarrow> log_row list \<Rightarrow> (log_row list \<times> u64) result"
    where
  "log_step jv env i r t =
     (case we_exec env i of Some e \<Rightarrow> Inl e | None \<Rightarrow> log_insert jv r t)"

definition span_step ::
    "(string \<Rightarrow> bool) \<Rightarrow> write_env \<Rightarrow> nat \<Rightarrow> SpanRecord \<Rightarrow> span_row list
      \<Rightarrow> (span_row list \<times> u64) result" where
  "span_step jv env i r t =
     (case we_query env i of
        Some e \<Rightarrow> Inl e
      | None \<Rightarrow>
          (case span_fingerprint (s_TraceID r) (s_SpanID r) t of
             Some existing \<Rightarrow>
               if existing \<noteq> s_Fingerprint r then Inl SpanConflict else Inr (t, 0)
           | None \<Rightarrow>
               (case we_exec env i of
                  Some e \<Rightarrow> Inl e
                | None \<Rightarrow>
                    (case span_insert jv r t of
                       Inl e \<Rightarrow> Inl e
                     | Inr (t', _) \<Rightarrow> Inr (t', 1)))))"

text \<open>
  The metric loop checks the payload, the type and the number kind in Go before it executes
  the statement; \<open>gv\<close> is \<open>json.Valid\<close>.
\<close>

definition metric_step ::
    "(string \<Rightarrow> bool) \<Rightarrow> (string \<Rightarrow> bool) \<Rightarrow> write_env \<Rightarrow> nat \<Rightarrow> MetricPointRecord \<Rightarrow> metric_row list
      \<Rightarrow> (metric_row list \<times> u64) result" where
  "metric_step gv jv env i r t =
     (if \<not> gv (m_PayloadJSON r) then Inl (Msg ''metric payload is not valid JSON'')
      else if m_MetricType r \<notin> set metric_types
      then Inl (Msg (''invalid metric type '' @ go_quote (m_MetricType r)))
      else if m_NumberKind r \<noteq> [] \<and> m_NumberKind r \<noteq> ''int'' \<and> m_NumberKind r \<noteq> ''double''
      then Inl (Msg (''invalid metric number kind '' @ go_quote (m_NumberKind r)))
      else (case we_exec env i of Some e \<Rightarrow> Inl e | None \<Rightarrow> metric_insert jv r t))"

section \<open>The operations\<close>

text \<open>
  \<open>run_insert\<close> is the frame all three operations share, from the readiness test to the
  counter: \<open>get\<close> and \<open>put\<close> select the table, \<open>tally\<close> adds to the
  committed counter after the commit.
\<close>

definition insert_locked ::
    "(database \<Rightarrow> 't list) \<Rightarrow> ('t list \<Rightarrow> database \<Rightarrow> database) \<Rightarrow> (u64 \<Rightarrow> Store \<Rightarrow> Store) \<Rightarrow>
     (nat \<Rightarrow> 'r \<Rightarrow> 't list \<Rightarrow> ('t list \<times> u64) result) \<Rightarrow> write_env \<Rightarrow> 'r list \<Rightarrow> Store
      \<Rightarrow> unit result \<times> Store" where
  "insert_locked get put tally step env rs s =
     (case admissionErrorLocked (we_disk env) s of
        Some e \<Rightarrow> (Inl e, s)
      | None \<Rightarrow>
     (case db s of
        None \<Rightarrow> (Inl not_ready, s)
      | Some d \<Rightarrow>
     (case we_begin env of
        Some e \<Rightarrow> (Inl e, s)
      | None \<Rightarrow>
     (case we_prepare env of
        Some e \<Rightarrow> (Inl e, s)
      | None \<Rightarrow>
     (case exec_batch step 0 rs (get d) 0 of
        Inl e \<Rightarrow> (Inl e, s)
      | Inr (t, n) \<Rightarrow>
     (case we_commit env of
        Some e \<Rightarrow> (Inl e, s)
      | None \<Rightarrow> (Inr (), tally n (s\<lparr>db := Some (put t d)\<rparr>))))))))"

definition run_insert ::
    "(database \<Rightarrow> 't list) \<Rightarrow> ('t list \<Rightarrow> database \<Rightarrow> database) \<Rightarrow> (u64 \<Rightarrow> Store \<Rightarrow> Store) \<Rightarrow>
     (nat \<Rightarrow> 'r \<Rightarrow> 't list \<Rightarrow> ('t list \<times> u64) result) \<Rightarrow> write_env \<Rightarrow> 'r list \<Rightarrow> Store
      \<Rightarrow> unit result \<times> Store" where
  "run_insert get put tally step env rs s =
     (if \<not> ready s then (Inl not_ready, s)
      else (case we_lock env of
        Some e \<Rightarrow> (Inl e, s)
      | None \<Rightarrow>
          (let (r, s') = insert_locked get put tally step env rs s
           in (r, recordWriteError (err_of r) s'))))"

definition put_logs :: "log_row list \<Rightarrow> database \<Rightarrow> database" where
  "put_logs t d = d\<lparr>otel_logs := t\<rparr>"

definition put_spans :: "span_row list \<Rightarrow> database \<Rightarrow> database" where
  "put_spans t d = d\<lparr>otel_spans := t\<rparr>"

definition put_metrics :: "metric_row list \<Rightarrow> database \<Rightarrow> database" where
  "put_metrics t d = d\<lparr>otel_metric_points := t\<rparr>"

definition add_logs :: "u64 \<Rightarrow> Store \<Rightarrow> Store" where
  "add_logs n s = s\<lparr>committedLogs := committedLogs s + n\<rparr>"

definition add_spans :: "u64 \<Rightarrow> Store \<Rightarrow> Store" where
  "add_spans n s = s\<lparr>committedSpans := committedSpans s + n\<rparr>"

definition add_metrics :: "u64 \<Rightarrow> Store \<Rightarrow> Store" where
  "add_metrics n s = s\<lparr>committedMetrics := committedMetrics s + n\<rparr>"

lemmas put_defs = put_logs_def put_spans_def put_metrics_def
lemmas count_defs = add_logs_def add_spans_def add_metrics_def

definition InsertLogs ::
    "(string \<Rightarrow> bool) \<Rightarrow> write_env \<Rightarrow> LogRecord list \<Rightarrow> Store \<Rightarrow> unit result \<times> Store" where
  "InsertLogs jv env rs s = run_insert otel_logs put_logs add_logs (log_step jv env) env rs s"

definition InsertSpans ::
    "(string \<Rightarrow> bool) \<Rightarrow> write_env \<Rightarrow> SpanRecord list \<Rightarrow> Store \<Rightarrow> unit result \<times> Store" where
  "InsertSpans jv env rs s =
     run_insert otel_spans put_spans add_spans (span_step jv env) env rs s"

definition InsertMetricPoints ::
    "(string \<Rightarrow> bool) \<Rightarrow> (string \<Rightarrow> bool) \<Rightarrow> write_env \<Rightarrow> MetricPointRecord list \<Rightarrow> Store
      \<Rightarrow> unit result \<times> Store" where
  "InsertMetricPoints gv jv env rs s =
     run_insert otel_metric_points put_metrics add_metrics (metric_step gv jv env) env rs s"

section \<open>The contract of one loop body\<close>

text \<open>
  What the frame needs from a loop body: it appends rows, reports how many, and keeps the
  table well-formed. The lemmas about whole batches are proved once from this.
\<close>

locale batch_step =
  fixes step :: "nat \<Rightarrow> 'r \<Rightarrow> 't list \<Rightarrow> ('t list \<times> u64) result"
    and ok :: "'t list \<Rightarrow> bool"
  assumes step_grows: "step i r t = Inr (t', n) \<Longrightarrow> \<exists>new. t' = t @ new \<and> n = of_nat (length new)"
    and step_ok: "step i r t = Inr (t', n) \<Longrightarrow> ok t \<Longrightarrow> ok t'"
begin

lemma batch_grows:
  "exec_batch step i rs t n = Inr (t', m) \<Longrightarrow> \<exists>new. t' = t @ new \<and> m = n + of_nat (length new)"
proof (induction rs arbitrary: i t n)
  case Nil
  then show ?case by simp
next
  case (Cons r rs)
  then obtain t1 k where s: "step i r t = Inr (t1, k)"
    and rest: "exec_batch step (Suc i) rs t1 (n + k) = Inr (t', m)"
    by (auto split: sum.splits)
  from step_grows [OF s] obtain new1 where n1: "t1 = t @ new1" "k = of_nat (length new1)"
    by blast
  from Cons.IH [OF rest] obtain new2 where "t' = t1 @ new2" "m = n + k + of_nat (length new2)"
    by blast
  with n1 show ?case by (intro exI [of _ "new1 @ new2"]) simp
qed

lemma batch_ok: "exec_batch step i rs t n = Inr (t', m) \<Longrightarrow> ok t \<Longrightarrow> ok t'"
proof (induction rs arbitrary: i t n)
  case Nil
  then show ?case by simp
next
  case (Cons r rs)
  then show ?case by (auto split: sum.splits dest: step_ok)
qed

lemma batch_spec:
  "exec_batch step i rs t n = Inr (t', m) \<Longrightarrow> ok t \<Longrightarrow>
     ok t' \<and> (\<exists>new. t' = t @ new \<and> m = n + of_nat (length new))"
  using batch_grows batch_ok by blast

end

text \<open>The records of a batch that are new: the first of each key that is not yet stored.\<close>

fun fresh :: "('r \<Rightarrow> 'k) \<Rightarrow> 'k set \<Rightarrow> 'r list \<Rightarrow> 'r list" where
  "fresh rkey seen [] = []"
| "fresh rkey seen (r # rs) =
     (if rkey r \<in> seen then fresh rkey seen rs
      else r # fresh rkey (insert (rkey r) seen) rs)"

lemma fresh_Nil_iff: "fresh rkey seen rs = [] \<longleftrightarrow> rkey ` set rs \<subseteq> seen"
  by (induction rs arbitrary: seen) auto

lemma fresh_keys: "seen \<union> rkey ` set (fresh rkey seen rs) = seen \<union> rkey ` set rs"
proof (induction rs arbitrary: seen)
  case Nil
  then show ?case by simp
next
  case (Cons r rs)
  show ?case
  proof (cases "rkey r \<in> seen")
    case True
    with Cons.IH [of seen] show ?thesis by auto
  next
    case False
    with Cons.IH [of "insert (rkey r) seen"] show ?thesis by auto
  qed
qed

text \<open>
  A loop body over a keyed table either finds the key stored and changes nothing, or appends
  the record's row under the next rowid.
\<close>

locale keyed_batch = signal_table mk rid key rkey
  for mk :: "int \<Rightarrow> 'r \<Rightarrow> 't" and rid :: "'t \<Rightarrow> int" and key :: "'t \<Rightarrow> 'k" and rkey :: "'r \<Rightarrow> 'k" +
  fixes step :: "nat \<Rightarrow> 'r \<Rightarrow> 't list \<Rightarrow> ('t list \<times> u64) result"
  assumes step_cases: "step i r t = Inr (t', n) \<Longrightarrow>
    rkey r \<in> set (map key t) \<and> t' = t \<and> n = 0 \<or>
    rkey r \<notin> set (map key t) \<and> t' = t @ [mk (next_rowid (map rid t)) r] \<and> n = 1"

sublocale keyed_batch \<subseteq> batch_step step "table_ok rid key"
proof unfold_locales
  show "step i r t = Inr (t', n) \<Longrightarrow> \<exists>new. t' = t @ new \<and> n = of_nat (length new)" for i r t t' n
    by (drule step_cases) auto
  show "step i r t = Inr (t', n) \<Longrightarrow> table_ok rid key t \<Longrightarrow> table_ok rid key t'" for i r t t' n
    by (drule step_cases) (auto intro: append_ok)
qed

context keyed_batch
begin

lemma batch_fresh:
  "exec_batch step i rs t n = Inr (t', m) \<Longrightarrow>
    \<exists>new. t' = t @ new \<and> m = n + of_nat (length new) \<and>
      list_all2 (\<lambda>w r. w = mk (rid w) r) new (fresh rkey (set (map key t)) rs)"
proof (induction rs arbitrary: i t n)
  case Nil
  then show ?case by simp
next
  case (Cons r rs)
  then obtain t1 k where s: "step i r t = Inr (t1, k)"
    and rest: "exec_batch step (Suc i) rs t1 (n + k) = Inr (t', m)"
    by (auto split: sum.splits)
  from Cons.IH [OF rest] obtain new where new: "t' = t1 @ new"
    "m = n + k + of_nat (length new)"
    "list_all2 (\<lambda>w r. w = mk (rid w) r) new (fresh rkey (set (map key t1)) rs)"
    by blast
  from step_cases [OF s] show ?case
  proof
    assume "rkey r \<in> set (map key t) \<and> t1 = t \<and> k = 0"
    with new show ?thesis by auto
  next
    assume "rkey r \<notin> set (map key t) \<and> t1 = t @ [mk (next_rowid (map rid t)) r] \<and> k = 1"
    with new show ?thesis
      by (intro exI [of _ "mk (next_rowid (map rid t)) r # new"]) auto
  qed
qed

lemma list_all2_keys:
  "list_all2 (\<lambda>w r. w = mk (rid w) r) new rs \<Longrightarrow> map key new = map rkey rs"
  by (induction new rs rule: list_all2_induct) (auto, metis key_mk)

lemma batch_keys:
  assumes "exec_batch step i rs t n = Inr (t', m)"
  shows "set (map key t') = set (map key t) \<union> rkey ` set rs"
proof -
  from batch_fresh [OF assms] obtain new where new: "t' = t @ new"
    "list_all2 (\<lambda>w r. w = mk (rid w) r) new (fresh rkey (set (map key t)) rs)"
    by blast
  from list_all2_keys [OF new(2)] have "key ` set new = rkey ` set (fresh rkey (set (map key t)) rs)"
    by (metis list.set_map)
  with new(1) fresh_keys [of "set (map key t)" rkey rs] show ?thesis by simp
qed

lemma batch_replay:
  assumes "exec_batch step i rs t n = Inr (t', m)" "rkey ` set rs \<subseteq> set (map key t)"
  shows "t' = t \<and> m = n"
proof -
  from assms(2) have "fresh rkey (set (map key t)) rs = []"
    by (simp only: fresh_Nil_iff)
  with batch_fresh [OF assms(1)] show ?thesis by auto
qed

end

lemma log_step_cases:
  assumes "log_step jv env i r t = Inr (t', n)"
  shows "log_checks jv r \<and>
    (l_Fingerprint r \<in> set (map lr_fingerprint t) \<and> t' = t \<and> n = 0 \<or>
     l_Fingerprint r \<notin> set (map lr_fingerprint t) \<and> n = 1 \<and>
     t' = t @ [log_row_of (next_rowid (map lr_id t)) r])"
  using assms by (auto simp: log_step_def log_insert_def split: option.splits if_splits)

lemma span_fingerprint_None:
  "span_fingerprint a b t = None \<longleftrightarrow> (a, b) \<notin> set (map span_key t)"
  by (auto simp: span_fingerprint_def find_None_iff)

lemma span_step_cases:
  assumes "span_step jv env i r t = Inr (t', n)"
  shows "(s_TraceID r, s_SpanID r) \<in> set (map span_key t) \<and>
     span_fingerprint (s_TraceID r) (s_SpanID r) t = Some (s_Fingerprint r) \<and> t' = t \<and> n = 0 \<or>
    (s_TraceID r, s_SpanID r) \<notin> set (map span_key t) \<and> span_checks jv r \<and> n = 1 \<and>
     t' = t @ [span_row_of (next_rowid (map sr_id t)) r]"
  using assms span_fingerprint_None [of "s_TraceID r" "s_SpanID r" t]
  by (auto simp: span_step_def span_insert_def split: option.splits if_splits)

lemma metric_step_cases:
  assumes "metric_step gv jv env i r t = Inr (t', n)"
  shows "metric_checks jv r \<and>
    (m_Fingerprint r \<in> set (map mr_fingerprint t) \<and> t' = t \<and> n = 0 \<or>
     m_Fingerprint r \<notin> set (map mr_fingerprint t) \<and> n = 1 \<and>
     t' = t @ [metric_row_of (next_rowid (map mr_id t)) r])"
  using assms by (auto simp: metric_step_def metric_insert_def split: option.splits if_splits)

interpretation log_batch: keyed_batch log_row_of lr_id lr_fingerprint l_Fingerprint
  "log_step jv env" for jv env
  by unfold_locales (auto dest!: log_step_cases)

interpretation span_batch: keyed_batch span_row_of sr_id span_key
  "\<lambda>r. (s_TraceID r, s_SpanID r)" "span_step jv env" for jv env
  by unfold_locales (use span_step_cases in fast)

interpretation metric_batch: keyed_batch metric_row_of mr_id mr_fingerprint m_Fingerprint
  "metric_step gv jv env" for gv jv env
  by unfold_locales (auto dest!: metric_step_cases)

end
