(* ===== verification/StoreInsertProps.thy ===== *)
theory StoreInsertProps
  imports StoreInsert
begin

text \<open>
  What the insert operations promise: a failed call persists nothing and counts nothing; a
  successful one appends exactly the new records of the batch, in order; replaying a batch
  changes nothing; a span batch is refused exactly when two different contents claim one
  span identity.
\<close>

section \<open>The shared frame\<close>

definition same_data :: "Store \<Rightarrow> Store \<Rightarrow> bool" where
  "same_data s s' \<longleftrightarrow> db s' = db s \<and> cfg s' = cfg s \<and> closing s' = closing s \<and>
     stopped s' = stopped s \<and> maintenanceRun s' = maintenanceRun s \<and> lockHeld s' = lockHeld s \<and>
     committedLogs s' = committedLogs s \<and> committedSpans s' = committedSpans s \<and>
     committedMetrics s' = committedMetrics s \<and> deletedLogs s' = deletedLogs s \<and>
     deletedSpans s' = deletedSpans s \<and> deletedMetrics s' = deletedMetrics s"

lemma same_data_refl [simp]: "same_data s s"
  by (simp add: same_data_def)

lemma same_data_recordWriteError [simp]: "same_data s (recordWriteError r s)"
  by (simp add: same_data_def frame_simps)

lemma insert_locked_Inl:
  "insert_locked get put tally step env rs s = (Inl e, s') \<Longrightarrow> s' = s"
  by (auto simp: insert_locked_def split: option.splits sum.splits)

lemma insert_locked_Inr:
  assumes "insert_locked get put tally step env rs s = (Inr u, s')"
  shows "admissionErrorLocked (we_disk env) s = None \<and> we_begin env = None \<and>
    we_prepare env = None \<and> we_commit env = None \<and>
    (\<exists>d t n. db s = Some d \<and> exec_batch step 0 rs (get d) 0 = Inr (t, n) \<and>
      s' = tally n (s\<lparr>db := Some (put t d)\<rparr>))"
  using assms by (auto simp: insert_locked_def split: option.splits sum.splits)

lemma run_insert_Inl:
  "run_insert get put tally step env rs s = (Inl e, s') \<Longrightarrow> same_data s s'"
  by (auto simp: run_insert_def split: if_splits option.splits prod.splits
      dest!: insert_locked_Inl)

lemma run_insert_Inr:
  assumes "run_insert get put tally step env rs s = (Inr u, s')"
  shows "ready s \<and> we_lock env = None \<and>
    admissionErrorLocked (we_disk env) s = None \<and> we_begin env = None \<and>
    we_prepare env = None \<and> we_commit env = None \<and>
    (\<exists>d t n. db s = Some d \<and> exec_batch step 0 rs (get d) 0 = Inr (t, n) \<and>
      s' = tally n (s\<lparr>db := Some (put t d)\<rparr>))"
  using assms by (auto simp: run_insert_def split: if_splits option.splits prod.splits
      dest!: insert_locked_Inr)

lemma run_insert_runs:
  assumes "ready s" "we_lock env = None" "admissionErrorLocked (we_disk env) s = None"
    "we_begin env = None" "we_prepare env = None" "db s = Some d"
  shows "fst (run_insert get put tally step env rs s) =
    (case exec_batch step 0 rs (get d) 0 of
       Inl e \<Rightarrow> Inl e
     | Inr _ \<Rightarrow> (case we_commit env of Some e \<Rightarrow> Inl e | None \<Rightarrow> Inr ()))"
  using assms
  by (auto simp: run_insert_def insert_locked_def split: option.splits sum.splits prod.splits)

section \<open>Success appends exactly the new records\<close>

text \<open>
  C7. InsertLogs, on every outcome of every SQLite call: an error leaves the database and all
  counters as they were; success appends one row for each record whose fingerprint is new (the
  first of each fingerprint, in batch order), touches no other table and adds exactly the
  number of appended rows to the committed counter.
\<close>

theorem InsertLogs_outcome:
  "case InsertLogs jv env rs s of
     (Inl e, s') \<Rightarrow> same_data s s'
   | (Inr _, s') \<Rightarrow>
       (\<exists>d new. db s = Some d \<and>
          list_all2 (\<lambda>w r. w = log_row_of (lr_id w) r) new
            (fresh l_Fingerprint (set (map lr_fingerprint (otel_logs d))) rs) \<and>
          s' = s\<lparr>db := Some (d\<lparr>otel_logs := otel_logs d @ new\<rparr>),
                 committedLogs := committedLogs s + of_nat (length new)\<rparr>)"
proof (cases "InsertLogs jv env rs s")
  case (Pair r s')
  show ?thesis
  proof (cases r)
    case (Inl e)
    with Pair show ?thesis by (auto simp: InsertLogs_def dest: run_insert_Inl)
  next
    case (Inr u)
    with Pair obtain d t n where h: "db s = Some d"
      "exec_batch (log_step jv env) 0 rs (otel_logs d) 0 = Inr (t, n)"
      "s' = add_logs n (s\<lparr>db := Some (put_logs t d)\<rparr>)"
      by (auto simp: InsertLogs_def dest!: run_insert_Inr)
    from log_batch.batch_fresh [OF h(2)] h show ?thesis
      using Pair Inr by (auto simp: count_defs put_defs)
  qed
qed

text \<open>
  Replaying a log batch that was accepted changes nothing: the second call leaves the
  database and every counter as the first call left them, whatever the environment does.
\<close>

lemma InsertLogs_replay:
  assumes "InsertLogs jv env rs s = (Inr (), s1)"
    and "InsertLogs jv env' rs s1 = (r, s2)"
  shows "same_data s1 s2"
proof (cases r)
  case (Inl e)
  with assms(2) show ?thesis by (auto simp: InsertLogs_def dest: run_insert_Inl)
next
  case (Inr u)
  from assms(1) obtain d t n where h: "db s = Some d"
    "exec_batch (log_step jv env) 0 rs (otel_logs d) 0 = Inr (t, n)"
    "s1 = add_logs n (s\<lparr>db := Some (put_logs t d)\<rparr>)"
    by (auto simp: InsertLogs_def dest!: run_insert_Inr)
  from log_batch.batch_keys [OF h(2)]
  have keys: "l_Fingerprint ` set rs \<subseteq> set (map lr_fingerprint t)" by simp
  from assms(2) Inr h(3) obtain t2 n2 where h2:
    "exec_batch (log_step jv env') 0 rs t 0 = Inr (t2, n2)"
    "s2 = add_logs n2 (s1\<lparr>db := Some (put_logs t2 (put_logs t d))\<rparr>)"
    by (auto simp: InsertLogs_def count_defs put_defs dest!: run_insert_Inr)
  from log_batch.batch_replay [OF h2(1) keys] h(3) h2(2) show ?thesis
    by (simp add: same_data_def count_defs put_defs)
qed

section \<open>Spans: one content per identity\<close>

definition functional :: "('k \<times> 'v) set \<Rightarrow> bool" where
  "functional R \<longleftrightarrow> (\<forall>k a b. (k, a) \<in> R \<and> (k, b) \<in> R \<longrightarrow> a = b)"

abbreviation span_claim :: "SpanRecord \<Rightarrow> (string \<times> string) \<times> string" where
  "span_claim r \<equiv> ((s_TraceID r, s_SpanID r), s_Fingerprint r)"

definition span_claims :: "span_row list \<Rightarrow> ((string \<times> string) \<times> string) set" where
  "span_claims t = (\<lambda>w. (span_key w, sr_fingerprint w)) ` set t"

lemma functional_mono: "functional S \<Longrightarrow> R \<subseteq> S \<Longrightarrow> functional R"
  unfolding functional_def by blast

lemma functional_table: "distinct (map span_key t) \<Longrightarrow> functional (span_claims t)"
  by (auto simp: functional_def span_claims_def distinct_map dest!: inj_onD)

lemma span_fingerprint_Some:
  assumes "distinct (map span_key t)"
  shows "span_fingerprint a b t = Some fp \<longleftrightarrow> ((a, b), fp) \<in> span_claims t"
proof -
  have "span_fingerprint a b t = map_of (map (\<lambda>w. (span_key w, sr_fingerprint w)) t) (a, b)"
    by (induction t) (auto simp: span_fingerprint_def)
  moreover have "distinct (map fst (map (\<lambda>w. (span_key w, sr_fingerprint w)) t))"
    using assms by (simp add: comp_def)
  ultimately show ?thesis
    by (simp add: span_claims_def)
qed

lemma span_claims_append:
  "span_claims (t @ [span_row_of i r]) = insert (span_claim r) (span_claims t)"
  by (simp add: span_claims_def span_row_of_def)

lemma span_batch_runs:
  assumes "\<And>k. we_query env k = None" "\<And>k. we_exec env k = None"
  shows "list_all (span_checks jv) rs \<Longrightarrow> table_ok sr_id span_key t \<Longrightarrow>
    (case exec_batch (span_step jv env) i rs t n of
       Inl e \<Rightarrow> e = SpanConflict \<and> \<not> functional (span_claims t \<union> span_claim ` set rs)
     | Inr _ \<Rightarrow> functional (span_claims t \<union> span_claim ` set rs))"
proof (induction rs arbitrary: i t n)
  case Nil
  then show ?case by (simp add: functional_table table_ok_def)
next
  case (Cons r rs)
  have dist: "distinct (map span_key t)"
    using Cons.prems by (simp add: table_ok_def)
  show ?case
  proof (cases "span_fingerprint (s_TraceID r) (s_SpanID r) t")
    case None
    let ?t = "t @ [span_row_of (next_rowid (map sr_id t)) r]"
    have new: "(s_TraceID r, s_SpanID r) \<notin> set (map span_key t)"
      using None span_fingerprint_None by metis
    then have step: "span_step jv env i r t = Inr (?t, 1)"
      using assms None Cons.prems(1) by (simp add: span_step_def span_insert_def)
    have "table_ok sr_id span_key ?t"
      using Cons.prems(2) new by (rule span_table.append_ok)
    moreover have "span_claims t \<union> span_claim ` set (r # rs) = span_claims ?t \<union> span_claim ` set rs"
      by (simp add: span_claims_append)
    ultimately show ?thesis
      using Cons.IH [of ?t "Suc i" "n + 1"] Cons.prems(1) step by (simp only: exec_batch.simps) simp
  next
    case (Some existing)
    then have mem: "((s_TraceID r, s_SpanID r), existing) \<in> span_claims t"
      using span_fingerprint_Some [OF dist] by blast
    show ?thesis
    proof (cases "existing = s_Fingerprint r")
      case True
      have step: "span_step jv env i r t = Inr (t, 0)"
        using assms Some True by (simp add: span_step_def)
      from mem True have "span_claims t \<union> span_claim ` set (r # rs) = span_claims t \<union> span_claim ` set rs"
        by auto
      then show ?thesis
        using Cons.IH [of t "Suc i" "n + 0"] Cons.prems step by (simp only: exec_batch.simps) simp
    next
      case False
      then have "\<not> functional (span_claims t \<union> span_claim ` set (r # rs))"
        using mem unfolding functional_def by auto
      then show ?thesis using assms Some False by (simp add: span_step_def)
    qed
  qed
qed

text \<open>
  C3. When SQLite itself does not fail, the store admits the request and every record passes
  the CHECK constraints, a span batch is accepted exactly when no span identity is claimed
  with two contents, by the batch and the stored spans together; otherwise the result is the
  conflict error and nothing is persisted. The order of the batch does not matter.
\<close>

theorem InsertSpans_conflict_iff:
  assumes "ready s" "we_lock env = None" "admissionErrorLocked (we_disk env) s = None"
    "we_begin env = None" "we_prepare env = None" "we_commit env = None"
    "\<And>k. we_query env k = None" "\<And>k. we_exec env k = None"
    "list_all (span_checks jv) rs" "db s = Some d" "database_ok d"
  shows "if functional (span_claims (otel_spans d) \<union> span_claim ` set rs)
    then fst (InsertSpans jv env rs s) = Inr ()
    else fst (InsertSpans jv env rs s) = Inl SpanConflict \<and>
         same_data s (snd (InsertSpans jv env rs s))"
proof -
  have ok: "table_ok sr_id span_key (otel_spans d)"
    using assms by (simp add: database_ok_def)
  note runs = run_insert_runs [OF assms(1-5) assms(10), of otel_spans put_spans add_spans
      "span_step jv env" rs, folded InsertSpans_def]
  have "same_data s (snd (InsertSpans jv env rs s))" if "fst (InsertSpans jv env rs s) = Inl e" for e
    using that unfolding InsertSpans_def by (metis prod.collapse run_insert_Inl)
  with span_batch_runs [of env jv rs "otel_spans d" 0 0, OF assms(7,8,9) ok] runs assms(6)
  show ?thesis by (auto split: sum.splits)
qed

lemma span_batch_claims:
  "exec_batch (span_step jv env) i rs t n = Inr (t', m) \<Longrightarrow> table_ok sr_id span_key t \<Longrightarrow>
    span_claims t' = span_claims t \<union> span_claim ` set rs"
proof (induction rs arbitrary: i t n)
  case Nil
  then show ?case by simp
next
  case (Cons r rs)
  then obtain t1 k where st: "span_step jv env i r t = Inr (t1, k)"
    and rest: "exec_batch (span_step jv env) (Suc i) rs t1 (n + k) = Inr (t', m)"
    by (auto split: sum.splits)
  have dist: "distinct (map span_key t)"
    using Cons.prems(2) by (simp add: table_ok_def)
  have ok: "table_ok sr_id span_key t1"
    using st Cons.prems(2) by (rule span_batch.step_ok)
  have "span_claims t1 = insert (span_claim r) (span_claims t)"
    using span_step_cases [OF st] span_fingerprint_Some [OF dist]
    by (auto simp: span_claims_append)
  with Cons.IH [OF rest ok] show ?case by simp
qed

text \<open>
  After an accepted span batch every record of it is stored under its identity with its
  own fingerprint; the spans stored before are a prefix of the table, no other table changes,
  and the counter grows by the number of rows appended.
\<close>

lemma InsertSpans_stores_batch:
  assumes "InsertSpans jv env rs s = (Inr (), s')" "db s = Some d" "database_ok d"
  shows "\<exists>new. db s' = Some (d\<lparr>otel_spans := otel_spans d @ new\<rparr>) \<and>
    committedSpans s' = committedSpans s + of_nat (length new) \<and>
    (\<forall>r\<in>set rs. span_fingerprint (s_TraceID r) (s_SpanID r) (otel_spans d @ new) =
       Some (s_Fingerprint r))"
proof -
  have ok: "table_ok sr_id span_key (otel_spans d)"
    using assms(3) by (simp add: database_ok_def)
  from assms(1,2) obtain t n where h:
    "exec_batch (span_step jv env) 0 rs (otel_spans d) 0 = Inr (t, n)"
    "s' = add_spans n (s\<lparr>db := Some (put_spans t d)\<rparr>)"
    by (auto simp: InsertSpans_def dest!: run_insert_Inr)
  from span_batch.batch_fresh [OF h(1)] obtain new where
    new: "t = otel_spans d @ new" "n = of_nat (length new)" by auto
  have "distinct (map span_key t)"
    using span_batch.batch_ok [OF h(1) ok] by (simp add: table_ok_def)
  then have "\<forall>r\<in>set rs. span_fingerprint (s_TraceID r) (s_SpanID r) t = Some (s_Fingerprint r)"
    using span_batch_claims [OF h(1) ok] by (auto simp: span_fingerprint_Some)
  with h(2) new show ?thesis
    by (intro exI [of _ new]) (simp add: count_defs put_defs)
qed

section \<open>Metric points\<close>

text \<open>
  InsertMetricPoints either fails and leaves all data as it was, or every record of the
  batch had valid JSON, one of the five types and a known number kind, and exactly the new
  points were appended and counted.
\<close>

lemma InsertMetricPoints_outcome:
  "case InsertMetricPoints gv jv env rs s of
     (Inl e, s') \<Rightarrow> same_data s s'
   | (Inr _, s') \<Rightarrow>
       list_all (\<lambda>r. gv (m_PayloadJSON r) \<and> metric_checks jv r) rs \<and>
       (\<exists>d new. db s = Some d \<and>
          list_all2 (\<lambda>w r. w = metric_row_of (mr_id w) r) new
            (fresh m_Fingerprint (set (map mr_fingerprint (otel_metric_points d))) rs) \<and>
          s' = s\<lparr>db := Some (d\<lparr>otel_metric_points := otel_metric_points d @ new\<rparr>),
                 committedMetrics := committedMetrics s + of_nat (length new)\<rparr>)"
proof (cases "InsertMetricPoints gv jv env rs s")
  case (Pair r s')
  have checked: "exec_batch (metric_step gv jv env) i rs t n = Inr (t', m) \<Longrightarrow>
      list_all (\<lambda>r. gv (m_PayloadJSON r) \<and> metric_checks jv r) rs" for i t n t' m
    by (induction rs arbitrary: i t n)
      (auto simp: metric_step_def metric_insert_def split: sum.splits if_splits option.splits)
  show ?thesis
  proof (cases r)
    case (Inl e)
    with Pair show ?thesis by (auto simp: InsertMetricPoints_def dest: run_insert_Inl)
  next
    case (Inr u)
    with Pair obtain d t n where h: "db s = Some d"
      "exec_batch (metric_step gv jv env) 0 rs (otel_metric_points d) 0 = Inr (t, n)"
      "s' = add_metrics n (s\<lparr>db := Some (put_metrics t d)\<rparr>)"
      by (auto simp: InsertMetricPoints_def dest!: run_insert_Inr)
    from metric_batch.batch_fresh [OF h(2)] checked [OF h(2)] h show ?thesis
      using Pair Inr by (auto simp: count_defs put_defs)
  qed
qed

end
