(* ===== verification/Maintenance.thy ===== *)
theory Maintenance
  imports StoreInsertProps "HOL-Library.Product_Lexorder"
begin

text \<open>
  Retention and pressure eviction (\<^verbatim>\<open>internal/store/maintenance.go\<close>): \<open>Maintain\<close>
  drains the expired rows of the three tables in rounds, reclaims free pages, checkpoints the
  WAL, and evicts the globally oldest rows while the disk is under pressure, at most 200
  times. The outcome of every SQLite call and every disk measurement comes from the
  environment, indexed by the round or the pressure iteration.
\<close>

section \<open>Environment\<close>

datatype signal = SigLogs | SigSpans | SigMetrics

record maintain_env =
  me_lock :: "go_error option"
  me_delete :: "nat \<Rightarrow> signal \<Rightarrow> go_error option"
  me_vacuum0 :: "go_error option \<times> go_error option"
  me_passive :: "int result"
  me_fs1 :: "nat \<Rightarrow> filesystem"
  me_truncate :: "nat \<Rightarrow> int result"
  me_fs2 :: "nat \<Rightarrow> filesystem"
  me_freelist :: "nat \<Rightarrow> int result"
  me_select :: "nat \<Rightarrow> go_error option"
  me_begin :: "nat \<Rightarrow> go_error option"
  me_exec :: "nat \<Rightarrow> nat \<Rightarrow> go_error option"
  me_commit :: "nat \<Rightarrow> go_error option"
  me_vacuum :: "nat \<Rightarrow> go_error option \<times> go_error option"

text \<open>\<open>checkpoint\<close>: the pragma fails, or its first column says that a reader blocks it.\<close>

definition checkpoint :: "int result \<Rightarrow> go_error option" where
  "checkpoint r =
     (case r of
        Inl e \<Rightarrow> Some (WrapErr ''checkpoint: '' e [])
      | Inr busy \<Rightarrow>
          if busy \<noteq> 0 then Some (Msg ''checkpoint blocked by an active reader'') else None)"

text \<open>\<open>incrementalVacuum\<close>: the pragma fails, or the iteration over its rows ends with an error.\<close>

definition incrementalVacuum :: "go_error option \<times> go_error option \<Rightarrow> go_error option" where
  "incrementalVacuum outcome =
     (case outcome of (query_error, rows_error) \<Rightarrow>
        (case query_error of Some e \<Rightarrow> Some e | None \<Rightarrow> rows_error))"

section \<open>Retention\<close>

text \<open>
  One DELETE of a round. The rows affected are the rows the table lost, and the statement
  commits on its own.
\<close>

definition purge_logs :: "int \<Rightarrow> database \<Rightarrow> Store \<Rightarrow> nat \<times> Store" where
  "purge_logs cutoff d s =
     (let t = otel_logs d; t' = delete_ids lr_id (expired_ids lr_id lr_received cutoff t) t;
          n = length t - length t'
      in (n, s\<lparr>db := Some (d\<lparr>otel_logs := t'\<rparr>), deletedLogs := deletedLogs s + of_nat n\<rparr>))"

definition purge_spans :: "int \<Rightarrow> database \<Rightarrow> Store \<Rightarrow> nat \<times> Store" where
  "purge_spans cutoff d s =
     (let t = otel_spans d; t' = delete_ids sr_id (expired_ids sr_id sr_received cutoff t) t;
          n = length t - length t'
      in (n, s\<lparr>db := Some (d\<lparr>otel_spans := t'\<rparr>), deletedSpans := deletedSpans s + of_nat n\<rparr>))"

definition purge_metrics :: "int \<Rightarrow> database \<Rightarrow> Store \<Rightarrow> nat \<times> Store" where
  "purge_metrics cutoff d s =
     (let t = otel_metric_points d;
          t' = delete_ids mr_id (expired_ids mr_id mr_received cutoff t) t;
          n = length t - length t'
      in (n, s\<lparr>db := Some (d\<lparr>otel_metric_points := t'\<rparr>),
               deletedMetrics := deletedMetrics s + of_nat n\<rparr>))"

definition purge :: "signal \<Rightarrow> int \<Rightarrow> Store \<Rightarrow> nat \<times> Store" where
  "purge sg cutoff s =
     (case db s of
        None \<Rightarrow> (0, s)
      | Some d \<Rightarrow>
          (case sg of
             SigLogs \<Rightarrow> purge_logs cutoff d s
           | SigSpans \<Rightarrow> purge_spans cutoff d s
           | SigMetrics \<Rightarrow> purge_metrics cutoff d s))"

fun purge_round ::
    "(signal \<Rightarrow> go_error option) \<Rightarrow> int \<Rightarrow> signal list \<Rightarrow> bool \<Rightarrow> Store \<Rightarrow> bool result \<times> Store" where
  "purge_round fault cutoff [] again s = (Inr again, s)"
| "purge_round fault cutoff (sg # sgs) again s =
     (case fault sg of
        Some e \<Rightarrow> (Inl e, s)
      | None \<Rightarrow>
          (case purge sg cutoff s of
             (n, s') \<Rightarrow> purge_round fault cutoff sgs (again \<or> n = 5000) s'))"

definition all_signals :: "signal list" where
  "all_signals = [SigLogs, SigSpans, SigMetrics]"

definition store_rows :: "Store \<Rightarrow> nat" where
  "store_rows s = (case db s of None \<Rightarrow> 0 | Some d \<Rightarrow> live_rows d)"

lemmas purge_defs = purge_def purge_logs_def purge_spans_def purge_metrics_def

lemma purge_rows: "store_rows (snd (purge sg cutoff s)) + fst (purge sg cutoff s) = store_rows s"
proof (cases "db s")
  case None
  then show ?thesis by (simp add: purge_def)
next
  case (Some d)
  show ?thesis
    using Some
    by (cases sg) (simp_all add: purge_defs store_rows_def live_rows_def Let_def length_delete_le)
qed

lemma purge_round_rows:
  "purge_round fault cutoff sgs again s = (r, s') \<Longrightarrow>
     store_rows s' \<le> store_rows s \<and> (r = Inr True \<longrightarrow> again \<or> store_rows s' < store_rows s)"
proof (induction sgs arbitrary: again s)
  case Nil
  then show ?case by auto
next
  case (Cons sg sgs)
  obtain n s1 where p: "purge sg cutoff s = (n, s1)" by (cases "purge sg cutoff s")
  from purge_rows [of sg cutoff s] p have rows: "store_rows s1 + n = store_rows s" by simp
  from Cons p show ?case
  proof (cases "fault sg")
    case None
    then have "store_rows s' \<le> store_rows s1 \<and>
      (r = Inr True \<longrightarrow> (again \<or> n = 5000) \<or> store_rows s' < store_rows s1)"
      using Cons.prems p by (intro Cons.IH) simp
    with rows show ?thesis by auto
  qed auto
qed

text \<open>
  The loop \<open>for { ... if !more { break } }\<close>. It ends because a round that asks for
  another has deleted 5000 rows.
\<close>

function drain :: "maintain_env \<Rightarrow> int \<Rightarrow> nat \<Rightarrow> Store \<Rightarrow> unit result \<times> Store" where
  "drain env cutoff k s =
     (case purge_round (me_delete env k) cutoff all_signals False s of
        (Inl e, s') \<Rightarrow> (Inl e, s')
      | (Inr again, s') \<Rightarrow> if again then drain env cutoff (Suc k) s' else (Inr (), s'))"
  by pat_completeness auto
termination
  by (relation "measure (\<lambda>(env, cutoff, k, s). store_rows s)")
    (auto dest!: purge_round_rows [OF sym])

declare drain.simps [simp del]

section \<open>Pressure eviction\<close>

text \<open>
  The SELECT over the three tables, ordered by receipt time, signal and id, and the split of
  its rows by signal.
\<close>

definition pressure_rows :: "database \<Rightarrow> (int \<times> nat \<times> int) list" where
  "pressure_rows d =
     map (\<lambda>r. (lr_received r, 0, lr_id r)) (otel_logs d) @
     map (\<lambda>r. (sr_received r, 1, sr_id r)) (otel_spans d) @
     map (\<lambda>r. (mr_received r, 2, mr_id r)) (otel_metric_points d)"

definition pressure_select :: "database \<Rightarrow> (int \<times> nat \<times> int) list" where
  "pressure_select d = take 5000 (sort (pressure_rows d))"

definition signal_ids :: "nat \<Rightarrow> (int \<times> nat \<times> int) list \<Rightarrow> int list" where
  "signal_ids k sel = map (\<lambda>(recv, sg, rid). rid) (filter (\<lambda>(recv, sg, rid). sg = k) sel)"

text \<open>One \<open>DELETE ... WHERE id=?\<close> per id, inside the transaction.\<close>

fun exec_deletes ::
    "(nat \<Rightarrow> go_error option) \<Rightarrow> ('t \<Rightarrow> int) \<Rightarrow> nat \<Rightarrow> int list \<Rightarrow> 't list \<Rightarrow> ('t list \<times> nat) result"
    where
  "exec_deletes fault rid j [] t = Inr (t, j)"
| "exec_deletes fault rid j (i # ids) t =
     (case fault j of
        Some e \<Rightarrow> Inl e
      | None \<Rightarrow> exec_deletes fault rid (Suc j) ids (filter (\<lambda>r. rid r \<noteq> i) t))"

definition deletePressureBatch :: "maintain_env \<Rightarrow> nat \<Rightarrow> Store \<Rightarrow> unit result \<times> Store" where
  "deletePressureBatch env k s =
     (case db s of
        None \<Rightarrow> (Inl (Msg ''store is closed''), s)
      | Some d \<Rightarrow>
     (case me_select env k of
        Some e \<Rightarrow> (Inl e, s)
      | None \<Rightarrow>
          let sel = pressure_select d;
              logIDs = signal_ids 0 sel; spanIDs = signal_ids 1 sel; metricIDs = signal_ids 2 sel
          in
          if length logIDs + length spanIDs + length metricIDs = 0 then (Inr (), s)
          else
     (case me_begin env k of
        Some e \<Rightarrow> (Inl e, s)
      | None \<Rightarrow>
     (case exec_deletes (me_exec env k) lr_id 0 logIDs (otel_logs d) of
        Inl e \<Rightarrow> (Inl e, s)
      | Inr (logs', j) \<Rightarrow>
     (case exec_deletes (me_exec env k) sr_id j spanIDs (otel_spans d) of
        Inl e \<Rightarrow> (Inl e, s)
      | Inr (spans', j') \<Rightarrow>
     (case exec_deletes (me_exec env k) mr_id j' metricIDs (otel_metric_points d) of
        Inl e \<Rightarrow> (Inl e, s)
      | Inr (points', _) \<Rightarrow>
     (case me_commit env k of
        Some e \<Rightarrow> (Inl e, s)
      | None \<Rightarrow>
          (Inr (), s\<lparr>db := Some \<lparr>otel_logs = logs', otel_spans = spans', otel_metric_points = points'\<rparr>,
             deletedLogs := deletedLogs s + of_nat (length logIDs),
             deletedSpans := deletedSpans s + of_nat (length spanIDs),
             deletedMetrics := deletedMetrics s + of_nat (length metricIDs)\<rparr>))))))))"

definition deleted_total :: "Store \<Rightarrow> u64" where
  "deleted_total s = deletedLogs s + deletedSpans s + deletedMetrics s"

text \<open>
  The bounded loop. \<open>under_pressure\<close> is the condition the code computes before and,
  negated, after the TRUNCATE checkpoint; \<open>n\<close> counts the iterations that are left.
\<close>

definition under_pressure :: "disk \<Rightarrow> bool" where
  "under_pressure d \<longleftrightarrow> databaseBytes d \<ge> mainHighWater \<or>
     wrap64 (activeBytes d + requestReserve) \<ge> activeHardLimit \<or> freeBytes d < free_floor"

fun pressure_loop :: "maintain_env \<Rightarrow> nat \<Rightarrow> nat \<Rightarrow> Store \<Rightarrow> unit result \<times> Store" where
  "pressure_loop env k 0 s =
     (Inl (Msg ''disk pressure persists after bounded cleanup''), s)"
| "pressure_loop env k (Suc n) s =
     (let d1 = diskState (me_fs1 env k) (Path (cfg s)) in
      if \<not> under_pressure d1 \<and> walBytes d1 < walNotReady then (Inr (), s)
      else
     (case checkpoint (me_truncate env k) of
        Some e \<Rightarrow> (Inl e, s)
      | None \<Rightarrow>
          if \<not> under_pressure (diskState (me_fs2 env k) (Path (cfg s))) then (Inr (), s)
          else
     (case me_freelist env k of
        Inl e \<Rightarrow> (Inl e, s)
      | Inr freePages \<Rightarrow>
     (case (if freePages = 0
            then (case deletePressureBatch env k s of
                    (Inl e, s') \<Rightarrow> (Inl e, s')
                  | (Inr _, s') \<Rightarrow>
                      if deleted_total s' = deleted_total s
                      then (Inl (Msg ''disk pressure persists with no telemetry left to evict''), s')
                      else (Inr (), s'))
            else (Inr (), s)) of
        (Inl e, s') \<Rightarrow> (Inl e, s')
      | (Inr _, s') \<Rightarrow>
     (case incrementalVacuum (me_vacuum env k) of
        Some e \<Rightarrow> (Inl e, s')
      | None \<Rightarrow> pressure_loop env (Suc k) n s')))))"

section \<open>Maintain\<close>

definition retention_cutoff :: "Config \<Rightarrow> int \<Rightarrow> int" where
  "retention_cutoff c now = wrap64 (now + wrap64 (- RetentionHours c * hour_ns))"

definition maintain_locked :: "maintain_env \<Rightarrow> int \<Rightarrow> Store \<Rightarrow> unit result \<times> Store" where
  "maintain_locked env now s =
     (if db s = None \<or> closing s then (Inl (Msg ''store is closed''), s)
      else
     (case drain env (retention_cutoff (cfg s) now) 0 s of
        (Inl e, s') \<Rightarrow> (Inl e, s')
      | (Inr _, s') \<Rightarrow>
     (case incrementalVacuum (me_vacuum0 env) of
        Some e \<Rightarrow> (Inl e, s')
      | None \<Rightarrow>
     (case checkpoint (me_passive env) of
        Some e \<Rightarrow> (Inl e, s')
      | None \<Rightarrow> pressure_loop env 0 200 s'))))"

text \<open>The deferred function that publishes the result.\<close>

definition maintain_publish :: "unit result \<Rightarrow> Store \<Rightarrow> Store" where
  "maintain_publish r s =
     (if closing s then s
      else (case r of
        Inl e \<Rightarrow>
          if \<not> errors_is e Canceled \<and> \<not> errors_is e DeadlineExceeded
          then setOperationalError e s else s
      | Inr _ \<Rightarrow> s\<lparr>lastError := None, ready := True\<rparr>))"

definition Maintain :: "maintain_env \<Rightarrow> int \<Rightarrow> Store \<Rightarrow> unit result \<times> Store" where
  "Maintain env now s =
     (case me_lock env of
        Some e \<Rightarrow> (Inl e, s)
      | None \<Rightarrow>
          (case maintain_locked env now s of (r, s') \<Rightarrow> (r, maintain_publish r s')))"

end
