(* ===== verification/MaintenanceProps.thy ===== *)
theory MaintenanceProps
  imports Maintenance
begin

text \<open>
  What maintenance promises: the drain removes exactly the expired rows, in finitely many
  rounds; a pressure batch removes exactly the oldest rows of all signals together; fresh rows
  go only under measured pressure with an unblocked checkpoint and no free pages; the counters
  account for every row; the result decides the readiness that is published.
\<close>

section \<open>Accounting\<close>

text \<open>
  Committed minus deleted minus stored rows, per signal, in the counters' own arithmetic. An
  operation that keeps it accounts for every row it adds or removes.
\<close>

definition logs_of :: "Store \<Rightarrow> log_row list" where
  "logs_of s = (case db s of None \<Rightarrow> [] | Some d \<Rightarrow> otel_logs d)"

definition spans_of :: "Store \<Rightarrow> span_row list" where
  "spans_of s = (case db s of None \<Rightarrow> [] | Some d \<Rightarrow> otel_spans d)"

definition points_of :: "Store \<Rightarrow> metric_row list" where
  "points_of s = (case db s of None \<Rightarrow> [] | Some d \<Rightarrow> otel_metric_points d)"

definition balances :: "Store \<Rightarrow> u64 \<times> u64 \<times> u64" where
  "balances s =
     (committedLogs s - deletedLogs s - of_nat (length (logs_of s)),
      committedSpans s - deletedSpans s - of_nat (length (spans_of s)),
      committedMetrics s - deletedMetrics s - of_nat (length (points_of s)))"

lemmas balance_defs = balances_def logs_of_def spans_of_def points_of_def

definition rows_subset :: "database \<Rightarrow> database \<Rightarrow> bool" where
  "rows_subset d' d \<longleftrightarrow> set (otel_logs d') \<subseteq> set (otel_logs d) \<and>
     set (otel_spans d') \<subseteq> set (otel_spans d) \<and>
     set (otel_metric_points d') \<subseteq> set (otel_metric_points d)"

text \<open>
  A maintenance step from a store with a well-formed database: rows are only removed, every
  removal is counted, nothing else of the store changes.
\<close>

definition shrinks :: "Store \<Rightarrow> Store \<Rightarrow> bool" where
  "shrinks s s' \<longleftrightarrow>
     (\<exists>d d'. db s = Some d \<and> db s' = Some d' \<and> database_ok d' \<and> rows_subset d' d) \<and>
     balances s' = balances s \<and> cfg s' = cfg s \<and> closing s' = closing s \<and>
     ready s' = ready s \<and> lastError s' = lastError s \<and> stopped s' = stopped s \<and>
     maintenanceRun s' = maintenanceRun s \<and> lockHeld s' = lockHeld s \<and>
     committedLogs s' = committedLogs s \<and> committedSpans s' = committedSpans s \<and>
     committedMetrics s' = committedMetrics s"

lemma shrinks_refl: "db s = Some d \<Longrightarrow> database_ok d \<Longrightarrow> shrinks s s"
  by (auto simp: shrinks_def rows_subset_def)

lemma shrinks_trans [trans]: "shrinks s s' \<Longrightarrow> shrinks s' s'' \<Longrightarrow> shrinks s s''"
  unfolding shrinks_def rows_subset_def by (elim conjE exE) (simp, blast)

section \<open>Retention\<close>

definition retain :: "int \<Rightarrow> database \<Rightarrow> database" where
  "retain cutoff d =
     \<lparr>otel_logs = filter (\<lambda>r. \<not> lr_received r < cutoff) (otel_logs d),
      otel_spans = filter (\<lambda>r. \<not> sr_received r < cutoff) (otel_spans d),
      otel_metric_points = filter (\<lambda>r. \<not> mr_received r < cutoff) (otel_metric_points d)\<rparr>"

lemma expired_ids_fresh:
  assumes "distinct (map rid t)" "r \<in> set t" "rid r \<in> set (expired_ids rid recv cutoff t)"
  shows "recv r < cutoff"
proof -
  from assms(3) obtain r' where "r' \<in> set t" "recv r' < cutoff" "rid r = rid r'"
    by (auto simp: expired_ids_def dest!: in_set_takeD)
  with assms(1,2) show ?thesis by (auto simp: distinct_map dest: inj_onD)
qed

lemma retain_delete_expired:
  assumes "distinct (map rid t)"
  shows "filter (\<lambda>r. \<not> recv r < cutoff) (delete_ids rid (expired_ids rid recv cutoff t) t) =
    filter (\<lambda>r. \<not> recv r < cutoff) t"
  unfolding delete_ids_def filter_filter
  by (rule filter_cong [OF refl]) (use assms in \<open>auto dest: expired_ids_fresh\<close>)

lemma delete_expired_last:
  assumes "distinct (map rid t)"
    "length t - length (delete_ids rid (expired_ids rid recv cutoff t) t) \<noteq> 5000"
  shows "delete_ids rid (expired_ids rid recv cutoff t) t = filter (\<lambda>r. \<not> recv r < cutoff) t"
proof -
  let ?x = "filter (\<lambda>r. recv r < cutoff) t"
  from length_delete_expired [OF assms(1), of recv cutoff] assms(2)
  have "length (expired_ids rid recv cutoff t) \<noteq> 5000" by simp
  then have "length ?x < 5000" by (simp add: length_expired_ids)
  then have "set (expired_ids rid recv cutoff t) = rid ` set ?x"
    by (simp add: expired_ids_def)
  then show ?thesis
    unfolding delete_ids_def
    by (intro filter_cong [OF refl]) (use assms(1) in \<open>auto simp: distinct_map dest: inj_onD\<close>)
qed

lemma database_okD:
  "database_ok d \<Longrightarrow> distinct (map lr_id (otel_logs d))"
  "database_ok d \<Longrightarrow> distinct (map sr_id (otel_spans d))"
  "database_ok d \<Longrightarrow> distinct (map mr_id (otel_metric_points d))"
  by (auto simp: database_ok_def table_ok_def)

lemma delete_count:
  "of_nat (length t - length (delete_ids rid ids t)) + of_nat (length (delete_ids rid ids t)) =
     (of_nat (length t) :: u64)"
  by (simp add: length_delete_le of_nat_diff)

lemma delete_subset: "r \<in> set (delete_ids rid ids t) \<Longrightarrow> r \<in> set t"
  by (simp add: delete_ids_def)

lemma purge_shrinks:
  assumes "db s = Some d" "database_ok d" "purge sg cutoff s = (n, s')"
  shows "shrinks s s' \<and> retain cutoff (the (db s')) = retain cutoff d"
  using assms
    delete_count [of "otel_logs d" lr_id "expired_ids lr_id lr_received cutoff (otel_logs d)"]
    delete_count [of "otel_spans d" sr_id "expired_ids sr_id sr_received cutoff (otel_spans d)"]
    delete_count [of "otel_metric_points d" mr_id
      "expired_ids mr_id mr_received cutoff (otel_metric_points d)"]
  by (cases sg)
    (auto simp: purge_defs Let_def shrinks_def rows_subset_def balance_defs database_ok_def
      table_ok_delete retain_def retain_delete_expired table_ok_def [THEN iffD1] algebra_simps
      dest: delete_subset)

lemma purge_small:
  assumes "db s = Some d" "database_ok d" "purge sg cutoff s = (n, s')" "n \<noteq> 5000"
  shows "case sg of
     SigLogs \<Rightarrow> the (db s') = d\<lparr>otel_logs := otel_logs (retain cutoff d)\<rparr>
   | SigSpans \<Rightarrow> the (db s') = d\<lparr>otel_spans := otel_spans (retain cutoff d)\<rparr>
   | SigMetrics \<Rightarrow> the (db s') = d\<lparr>otel_metric_points := otel_metric_points (retain cutoff d)\<rparr>"
proof (cases sg)
  case SigLogs
  with assms delete_expired_last [OF database_okD(1) [OF assms(2)], of lr_received cutoff]
  show ?thesis by (auto simp: purge_defs Let_def retain_def)
next
  case SigSpans
  with assms delete_expired_last [OF database_okD(2) [OF assms(2)], of sr_received cutoff]
  show ?thesis by (auto simp: purge_defs Let_def retain_def)
next
  case SigMetrics
  with assms delete_expired_last [OF database_okD(3) [OF assms(2)], of mr_received cutoff]
  show ?thesis by (auto simp: purge_defs Let_def retain_def)
qed

lemma purge_round_shrinks:
  "purge_round fault cutoff sgs again s = (r, s') \<Longrightarrow> db s = Some d \<Longrightarrow> database_ok d \<Longrightarrow>
     shrinks s s' \<and> retain cutoff (the (db s')) = retain cutoff d"
proof (induction sgs arbitrary: again s d)
  case Nil
  then show ?case by (auto intro: shrinks_refl)
next
  case (Cons sg sgs)
  obtain n s1 where p: "purge sg cutoff s = (n, s1)" by (cases "purge sg cutoff s")
  from purge_shrinks [OF Cons.prems(2,3) p] obtain d1 where
    s1: "shrinks s s1" "db s1 = Some d1" "database_ok d1" "retain cutoff d1 = retain cutoff d"
    by (auto simp: shrinks_def)
  show ?case
  proof (cases "fault sg")
    case None
    with Cons.prems(1) p have "purge_round fault cutoff sgs (again \<or> n = 5000) s1 = (r, s')"
      by simp
    from Cons.IH [OF this s1(2,3)] s1 show ?thesis by (auto intro: shrinks_trans)
  next
    case (Some e)
    with Cons.prems show ?thesis by (auto intro: shrinks_refl)
  qed
qed

lemma purge_round_last:
  assumes "purge_round fault cutoff all_signals False s = (Inr False, s')"
    "db s = Some d" "database_ok d"
  shows "db s' = Some (retain cutoff d)"
proof -
  obtain n1 s1 where p1: "purge SigLogs cutoff s = (n1, s1)" by (cases "purge SigLogs cutoff s")
  obtain n2 s2 where p2: "purge SigSpans cutoff s1 = (n2, s2)" by (cases "purge SigSpans cutoff s1")
  obtain n3 s3 where p3: "purge SigMetrics cutoff s2 = (n3, s3)"
    by (cases "purge SigMetrics cutoff s2")
  from assms(1) p1 p2 p3 have n: "n1 \<noteq> 5000" "n2 \<noteq> 5000" "n3 \<noteq> 5000" "s' = s3"
    by (auto simp: all_signals_def split: option.splits)
  from purge_shrinks [OF assms(2,3) p1] obtain d1 where d1: "db s1 = Some d1" "database_ok d1"
    "retain cutoff d1 = retain cutoff d"
    by (auto simp: shrinks_def)
  from purge_shrinks [OF d1(1,2) p2] obtain d2 where d2: "db s2 = Some d2" "database_ok d2"
    "retain cutoff d2 = retain cutoff d"
    using d1(3) by (auto simp: shrinks_def)
  from purge_shrinks [OF d2(1,2) p3] obtain d3 where d3: "db s3 = Some d3"
    by (auto simp: shrinks_def)
  have "d1 = d\<lparr>otel_logs := otel_logs (retain cutoff d)\<rparr>"
    using purge_small [OF assms(2,3) p1 n(1)] d1(1) by simp
  moreover have "d2 = d1\<lparr>otel_spans := otel_spans (retain cutoff d)\<rparr>"
    using purge_small [OF d1(1,2) p2 n(2)] d2(1) d1(3) by simp
  moreover have "d3 = d2\<lparr>otel_metric_points := otel_metric_points (retain cutoff d)\<rparr>"
    using purge_small [OF d2(1,2) p3 n(3)] d3 d2(3) by simp
  ultimately show ?thesis using d3 n(4) by (simp add: retain_def)
qed

lemma drain_shrinks:
  "drain env cutoff k s = (r, s') \<Longrightarrow> db s = Some d \<Longrightarrow> database_ok d \<Longrightarrow>
     shrinks s s' \<and> retain cutoff (the (db s')) = retain cutoff d \<and>
     (r = Inr () \<longrightarrow> db s' = Some (retain cutoff d))"
proof (induction env cutoff k s arbitrary: d rule: drain.induct)
  case (1 env cutoff k s)
  obtain r1 s1 where round: "purge_round (me_delete env k) cutoff all_signals False s = (r1, s1)"
    by (cases "purge_round (me_delete env k) cutoff all_signals False s")
  from purge_round_shrinks [OF round "1.prems"(2,3)] obtain d1 where
    s1: "shrinks s s1" "db s1 = Some d1" "database_ok d1" "retain cutoff d1 = retain cutoff d"
    by (auto simp: shrinks_def)
  show ?case
  proof (cases r1)
    case (Inl e)
    with "1.prems"(1) round s1 show ?thesis by (auto simp: drain.simps [of env cutoff k s])
  next
    case (Inr again)
    show ?thesis
    proof (cases again)
      case True
      with "1.prems"(1) round Inr have rest: "drain env cutoff (Suc k) s1 = (r, s')"
        by (simp add: drain.simps [of env cutoff k s])
      from "1.IH" [OF round [symmetric] Inr True rest s1(2,3)] s1 show ?thesis
        by (auto intro: shrinks_trans)
    next
      case False
      with "1.prems" round Inr have "r = Inr ()" "s' = s1"
        by (auto simp: drain.simps [of env cutoff k s])
      with False Inr purge_round_last round "1.prems"(2,3) s1 show ?thesis by auto
    qed
  qed
qed

lemma purge_round_runs:
  "(\<And>sg. fault sg = None) \<Longrightarrow> \<exists>b s1. purge_round fault cutoff sgs again s = (Inr b, s1)"
  by (induction sgs arbitrary: again s) (auto split: prod.splits)

lemma drain_runs:
  assumes "\<And>k sg. me_delete env k sg = None"
  shows "fst (drain env cutoff k s) = Inr ()"
  using assms
proof (induction env cutoff k s rule: drain.induct)
  case (1 env cutoff k s)
  from purge_round_runs [of "me_delete env k"] "1.prems" obtain b s1
    where round: "purge_round (me_delete env k) cutoff all_signals False s = (Inr b, s1)"
    by metis
  with "1.IH" [OF round [symmetric] refl] "1.prems" show ?case
    by (cases b) (simp_all add: drain.simps [of env cutoff k s])
qed

section \<open>Pressure eviction\<close>

lemma exec_deletes_ok:
  "exec_deletes fault rid j ids t = Inr (t', j') \<Longrightarrow> t' = delete_ids rid ids t"
proof (induction ids arbitrary: j t)
  case Nil
  then show ?case by (simp add: delete_ids_def)
next
  case (Cons i ids)
  then have "exec_deletes fault rid (Suc j) ids (filter (\<lambda>r. rid r \<noteq> i) t) = Inr (t', j')"
    by (auto split: option.splits)
  from Cons.IH [OF this] show ?case by (simp add: delete_ids_def)
qed

lemma pressure_select_subset: "x \<in> set (pressure_select d) \<Longrightarrow> x \<in> set (pressure_rows d)"
  by (auto simp: pressure_select_def dest: in_set_takeD)

lemma distinct_pressure_rows:
  assumes "database_ok d"
  shows "distinct (pressure_rows d)"
proof -
  have "distinct (map (\<lambda>r. (recv r, k, rid r)) t)" if "distinct (map rid t)"
    for recv :: "'a \<Rightarrow> int" and k :: nat and rid :: "'a \<Rightarrow> int" and t
    using that by (auto simp: distinct_map inj_on_def)
  then have "distinct (map (\<lambda>r. (lr_received r, 0::nat, lr_id r)) (otel_logs d))"
    "distinct (map (\<lambda>r. (sr_received r, 1::nat, sr_id r)) (otel_spans d))"
    "distinct (map (\<lambda>r. (mr_received r, 2::nat, mr_id r)) (otel_metric_points d))"
    using database_okD [OF assms] by blast+
  then show ?thesis by (auto simp: pressure_rows_def)
qed

lemma filter_drop_sorted:
  assumes "distinct xs"
  shows "filter (\<lambda>x. x \<notin> set (take n xs)) xs = drop n xs"
proof -
  have "set (take n xs) \<inter> set (drop n xs) = {}"
    using assms by (metis append_take_drop_id distinct_append)
  then have "filter (\<lambda>x. x \<notin> set (take n xs)) (take n xs @ drop n xs) = drop n xs"
    by (subst filter_append) (auto simp: filter_empty_conv filter_id_conv)
  then show ?thesis by simp
qed

lemma signal_ids_iff: "i \<in> set (signal_ids k sel) \<longleftrightarrow> (\<exists>a. (a, k, i) \<in> set sel)"
  by (force simp: signal_ids_def)

lemma pressure_rows_iff:
  "(a, 0, i) \<in> set (pressure_rows d) \<longleftrightarrow>
     (\<exists>r\<in>set (otel_logs d). a = lr_received r \<and> i = lr_id r)"
  "(a, Suc 0, i) \<in> set (pressure_rows d) \<longleftrightarrow>
     (\<exists>r\<in>set (otel_spans d). a = sr_received r \<and> i = sr_id r)"
  "(a, 2, i) \<in> set (pressure_rows d) \<longleftrightarrow>
     (\<exists>r\<in>set (otel_metric_points d). a = mr_received r \<and> i = mr_id r)"
  "(a, k, i) \<in> set (pressure_rows d) \<Longrightarrow> k \<in> {0, Suc 0, 2}"
  by (auto simp: pressure_rows_def)

lemma pressure_rows_inj:
  assumes "database_ok d" "(a, k, i) \<in> set (pressure_rows d)" "(b, k, i) \<in> set (pressure_rows d)"
  shows "a = b"
proof -
  from pressure_rows_iff(4) [OF assms(2)] consider "k = 0" | "k = Suc 0" | "k = 2" by auto
  then show ?thesis
    using assms(2,3) database_okD [OF assms(1)]
    by cases (auto simp: pressure_rows_iff distinct_map dest: inj_onD)
qed

lemma signal_ids_mem:
  assumes "database_ok d" "(a, k, i) \<in> set (pressure_rows d)"
  shows "i \<in> set (signal_ids k (pressure_select d)) \<longleftrightarrow> (a, k, i) \<in> set (pressure_select d)"
  unfolding signal_ids_iff
  using pressure_rows_inj [OF assms] pressure_select_subset by blast

text \<open>The three id lists cover the selection.\<close>

lemma signal_ids_lengths:
  "length (signal_ids 0 (pressure_select d)) + length (signal_ids 1 (pressure_select d)) +
     length (signal_ids 2 (pressure_select d)) = min 5000 (live_rows d)"
proof -
  have "sg \<in> {0, 1, 2}" if "(recv, sg, rid) \<in> set (pressure_select d)" for recv sg rid
    using that by (auto simp: pressure_rows_def dest!: pressure_select_subset)
  then have "length (signal_ids 0 xs) + length (signal_ids 1 xs) + length (signal_ids 2 xs) = length xs"
    if "set xs \<subseteq> set (pressure_select d)" for xs
    using that by (induction xs) (force simp: signal_ids_def)+
  from this [of "pressure_select d"] show ?thesis
    by (simp add: pressure_select_def pressure_rows_def live_rows_def min.commute add.assoc)
qed

lemma distinct_signal_ids:
  assumes "database_ok d"
  shows "distinct (signal_ids k (pressure_select d))"
proof -
  have dist: "distinct (pressure_select d)"
    using distinct_pressure_rows [OF assms] by (simp add: pressure_select_def)
  have "inj_on (\<lambda>(recv, sg, rid). rid) (set (filter (\<lambda>(recv, sg, rid). sg = k) (pressure_select d)))"
    using pressure_rows_inj [OF assms] by (auto simp: inj_on_def dest!: pressure_select_subset)
  with dist show ?thesis by (simp add: signal_ids_def distinct_map)
qed

definition evict :: "database \<Rightarrow> database" where
  "evict d =
     \<lparr>otel_logs = delete_ids lr_id (signal_ids 0 (pressure_select d)) (otel_logs d),
      otel_spans = delete_ids sr_id (signal_ids 1 (pressure_select d)) (otel_spans d),
      otel_metric_points =
        delete_ids mr_id (signal_ids 2 (pressure_select d)) (otel_metric_points d)\<rparr>"

lemma map_delete_ids:
  "(\<And>r. r \<in> set t \<Longrightarrow> rid r \<in> set ids \<longleftrightarrow> f r \<in> X) \<Longrightarrow>
     map f (delete_ids rid ids t) = filter (\<lambda>x. x \<notin> X) (map f t)"
  by (induction t) (auto simp: delete_ids_def)

lemma pressure_rows_evict:
  assumes "database_ok d"
  shows "pressure_rows (evict d) =
    filter (\<lambda>x. x \<notin> set (pressure_select d)) (pressure_rows d)"
proof -
  note mem = signal_ids_mem [OF assms]
  have "map (\<lambda>r. (lr_received r, 0, lr_id r)) (otel_logs (evict d)) =
      filter (\<lambda>x. x \<notin> set (pressure_select d)) (map (\<lambda>r. (lr_received r, 0, lr_id r)) (otel_logs d))"
    by (simp only: evict_def database.simps, rule map_delete_ids, rule mem)
      (auto simp: pressure_rows_iff)
  moreover have "map (\<lambda>r. (sr_received r, 1, sr_id r)) (otel_spans (evict d)) =
      filter (\<lambda>x. x \<notin> set (pressure_select d)) (map (\<lambda>r. (sr_received r, 1, sr_id r)) (otel_spans d))"
    by (simp only: evict_def database.simps, rule map_delete_ids, rule mem)
      (auto simp: pressure_rows_iff)
  moreover have "map (\<lambda>r. (mr_received r, 2, mr_id r)) (otel_metric_points (evict d)) =
      filter (\<lambda>x. x \<notin> set (pressure_select d))
        (map (\<lambda>r. (mr_received r, 2, mr_id r)) (otel_metric_points d))"
    by (simp only: evict_def database.simps, rule map_delete_ids, rule mem)
      (auto simp: pressure_rows_iff)
  ultimately show ?thesis by (simp only: pressure_rows_def filter_append)
qed

lemma sort_pressure_evict:
  assumes "database_ok d"
  shows "sort (pressure_rows (evict d)) = drop 5000 (sort (pressure_rows d))"
proof -
  have "distinct (sort (pressure_rows d))"
    using distinct_pressure_rows [OF assms] by simp
  from filter_drop_sorted [OF this, of 5000] show ?thesis
    by (simp add: pressure_rows_evict [OF assms] filter_sort pressure_select_def)
qed

lemma pressure_batch_outcome:
  assumes "deletePressureBatch env k s = (r, s')" "db s = Some d" "database_ok d"
  shows "case r of
      Inl e \<Rightarrow> s' = s
    | Inr _ \<Rightarrow> s' = s\<lparr>db := Some (evict d),
        deletedLogs := deletedLogs s + of_nat (length (signal_ids 0 (pressure_select d))),
        deletedSpans := deletedSpans s + of_nat (length (signal_ids 1 (pressure_select d))),
        deletedMetrics := deletedMetrics s + of_nat (length (signal_ids 2 (pressure_select d)))\<rparr>"
proof -
  have empty: "evict d = d" if "signal_ids 0 (pressure_select d) = []"
    "signal_ids (Suc 0) (pressure_select d) = []" "signal_ids 2 (pressure_select d) = []"
    using that by (simp add: evict_def delete_ids_def)
  show ?thesis
    using assms(1,2) empty
    by (auto simp: deletePressureBatch_def Let_def evict_def dest!: exec_deletes_ok
        split: option.splits sum.splits if_splits)
qed

lemma evict_ok: "database_ok d \<Longrightarrow> database_ok (evict d)"
  by (simp add: database_ok_def evict_def table_ok_delete)

lemma length_delete_signal:
  assumes "database_ok d"
  shows "length (delete_ids lr_id (signal_ids 0 (pressure_select d)) (otel_logs d)) +
      length (signal_ids 0 (pressure_select d)) = length (otel_logs d)"
    and "length (delete_ids sr_id (signal_ids 1 (pressure_select d)) (otel_spans d)) +
      length (signal_ids 1 (pressure_select d)) = length (otel_spans d)"
    and "length (delete_ids mr_id (signal_ids 2 (pressure_select d)) (otel_metric_points d)) +
      length (signal_ids 2 (pressure_select d)) = length (otel_metric_points d)"
proof -
  have sub: "set (signal_ids 0 (pressure_select d)) \<subseteq> set (map lr_id (otel_logs d))"
    "set (signal_ids 1 (pressure_select d)) \<subseteq> set (map sr_id (otel_spans d))"
    "set (signal_ids 2 (pressure_select d)) \<subseteq> set (map mr_id (otel_metric_points d))"
    by (auto simp: signal_ids_iff pressure_rows_iff dest!: pressure_select_subset)
  note facts = length_filter_remove database_okD [OF assms] distinct_signal_ids [OF assms]
  show "length (delete_ids lr_id (signal_ids 0 (pressure_select d)) (otel_logs d)) +
      length (signal_ids 0 (pressure_select d)) = length (otel_logs d)"
    unfolding delete_ids_def by (rule length_filter_remove) (use facts sub in simp_all)
  show "length (delete_ids sr_id (signal_ids 1 (pressure_select d)) (otel_spans d)) +
      length (signal_ids 1 (pressure_select d)) = length (otel_spans d)"
    unfolding delete_ids_def by (rule length_filter_remove) (use facts sub in simp_all)
  show "length (delete_ids mr_id (signal_ids 2 (pressure_select d)) (otel_metric_points d)) +
      length (signal_ids 2 (pressure_select d)) = length (otel_metric_points d)"
    unfolding delete_ids_def by (rule length_filter_remove) (use facts sub in simp_all)
qed

lemma pressure_batch_shrinks:
  assumes "deletePressureBatch env k s = (r, s')" "db s = Some d" "database_ok d"
  shows "shrinks s s'"
proof (cases r)
  case (Inl e)
  with pressure_batch_outcome [OF assms] assms show ?thesis by (auto intro: shrinks_refl)
next
  case (Inr u)
  have word: "x + y = z \<Longrightarrow> (of_nat x + of_nat y :: u64) = of_nat z" for x y z :: nat
    by (metis of_nat_add)
  note counts = length_delete_signal [OF assms(3), THEN word]
  show ?thesis
    using pressure_batch_outcome [OF assms] Inr assms(2) evict_ok [OF assms(3)] counts
    by (auto simp: shrinks_def rows_subset_def balance_defs evict_def algebra_simps
        dest: delete_subset)
qed

text \<open>
  When an iteration of the pressure loop may evict: the TRUNCATE checkpoint went through, the
  disk measured after it is still under pressure, and no free page is left to reclaim.
\<close>

definition evict_allowed :: "maintain_env \<Rightarrow> string \<Rightarrow> nat \<Rightarrow> bool" where
  "evict_allowed env p k \<longleftrightarrow> checkpoint (me_truncate env k) = None \<and>
     under_pressure (diskState (me_fs2 env k) p) \<and> me_freelist env k = Inr 0"

text \<open>One iteration that does not end the loop at once: the step to the next one.\<close>

lemma pressure_loop_Suc:
  assumes "pressure_loop env k (Suc n) s = (r, s')"
  obtains "s' = s"
    | r1 s1 where "evict_allowed env (Path (cfg s)) k" "deletePressureBatch env k s = (r1, s1)"
        "s' = s1"
    | "pressure_loop env (Suc k) n s = (r, s')"
    | s1 where "evict_allowed env (Path (cfg s)) k" "deletePressureBatch env k s = (Inr (), s1)"
        "pressure_loop env (Suc k) n s1 = (r, s')"
  using assms
  by (auto simp: evict_allowed_def Let_def split: if_splits option.splits sum.splits prod.splits)

lemma pressure_loop_prefix:
  "pressure_loop env k n s = (r, s') \<Longrightarrow> db s = Some d \<Longrightarrow> database_ok d \<Longrightarrow>
     shrinks s s' \<and>
     (\<exists>m \<le> 5000 * n. sort (pressure_rows (the (db s'))) = drop m (sort (pressure_rows d)) \<and>
        (0 < m \<longrightarrow> (\<exists>k. evict_allowed env (Path (cfg s)) k)))"
proof (induction n arbitrary: k s d)
  case 0
  then show ?case by (auto intro: shrinks_refl)
next
  case (Suc n)
  have batch: "shrinks s s1 \<and> (\<exists>m \<le> 5000. sort (pressure_rows (the (db s1))) =
      drop m (sort (pressure_rows d)))" if b: "deletePressureBatch env k s = (r1, s1)" for r1 s1
  proof (cases r1)
    case (Inl e)
    with pressure_batch_outcome [OF b Suc.prems(2,3)] pressure_batch_shrinks [OF b Suc.prems(2,3)]
    show ?thesis using Suc.prems(2) by (auto intro!: exI [of _ 0])
  next
    case (Inr u)
    with pressure_batch_outcome [OF b Suc.prems(2,3)] pressure_batch_shrinks [OF b Suc.prems(2,3)]
    show ?thesis by (auto simp: sort_pressure_evict [OF Suc.prems(3)] intro!: exI [of _ 5000])
  qed
  from Suc.prems(1) show ?case
  proof (cases rule: pressure_loop_Suc)
    case 1
    with Suc.prems show ?thesis by (auto intro: shrinks_refl)
  next
    case (2 r1 s1)
    from batch [OF 2(2)] obtain m where "m \<le> 5000" "shrinks s s1"
      "sort (pressure_rows (the (db s1))) = drop m (sort (pressure_rows d))" by blast
    with 2 show ?thesis by (intro conjI exI [of _ m]) auto
  next
    case 3
    from Suc.IH [OF 3 Suc.prems(2,3)] obtain m where "shrinks s s'" "m \<le> 5000 * n"
      "sort (pressure_rows (the (db s'))) = drop m (sort (pressure_rows d))"
      "0 < m \<longrightarrow> (\<exists>k. evict_allowed env (Path (cfg s)) k)" by blast
    then show ?thesis by (intro conjI exI [of _ m]) simp_all
  next
    case (4 s1)
    from batch [OF 4(2)] obtain m where m: "m \<le> 5000" "shrinks s s1"
      "sort (pressure_rows (the (db s1))) = drop m (sort (pressure_rows d))" by blast
    then obtain d1 where d1: "db s1 = Some d1" "database_ok d1" by (auto simp: shrinks_def)
    from Suc.IH [OF 4(3) d1] obtain m' where m': "shrinks s1 s'" "m' \<le> 5000 * n"
      "sort (pressure_rows (the (db s'))) = drop m' (sort (pressure_rows d1))" by blast
    with m d1 have "sort (pressure_rows (the (db s'))) = drop (m + m') (sort (pressure_rows d))"
      by (simp add: add.commute)
    moreover have "shrinks s s'" using m(2) m'(1) by (rule shrinks_trans)
    ultimately show ?thesis
      using m(1) m'(2) 4(1) by (intro conjI exI [of _ "m + m'"]) auto
  qed
qed

lemma maintain_locked_shrinks:
  assumes "maintain_locked env now s = (r, s')" "db s = Some d" "database_ok d"
  shows "shrinks s s'"
proof (cases "closing s")
  case True
  with assms show ?thesis by (auto simp: maintain_locked_def intro: shrinks_refl)
next
  case False
  obtain r1 s1 where dr: "drain env (retention_cutoff (cfg s) now) 0 s = (r1, s1)"
    by (cases "drain env (retention_cutoff (cfg s) now) 0 s")
  from drain_shrinks [OF dr assms(2,3)] obtain d1 where
    s1: "shrinks s s1" "db s1 = Some d1" "database_ok d1" by (auto simp: shrinks_def)
  have "s' = s1 \<or> (\<exists>r. pressure_loop env 0 200 s1 = (r, s'))"
    using assms(1,2) False dr
    by (auto simp: maintain_locked_def split: sum.splits option.splits simp del: pressure_loop.simps)
  with pressure_loop_prefix [OF _ s1(2,3)] s1(1) show ?thesis
    by (auto intro: shrinks_trans)
qed

section \<open>Maintain\<close>

text \<open>
  C4. A maintenance run whose retention deletes succeed first removes exactly the rows
  received before the cutoff; whatever it removes beyond that is a prefix of the remaining
  rows of all signals in the order of receipt time, signal and id, at most a million rows, and
  only if in some iteration the TRUNCATE checkpoint went through, the disk was still under
  pressure and there was no free page to reclaim. Every removal is counted.
\<close>

theorem Maintain_removes_expired_then_oldest:
  assumes "Maintain env now s = (r, s')" "db s = Some d" "database_ok d"
    "me_lock env = None" "\<not> closing s" "\<And>k sg. me_delete env k sg = None"
  shows "\<exists>d' m. db s' = Some d' \<and> database_ok d' \<and> balances s' = balances s \<and> m \<le> 1000000 \<and>
    sort (pressure_rows d') =
      drop m (sort (pressure_rows (retain (retention_cutoff (cfg s) now) d))) \<and>
    (0 < m \<longrightarrow> (\<exists>k. evict_allowed env (Path (cfg s)) k))"
proof -
  let ?c = "retention_cutoff (cfg s) now"
  obtain r0 s0 where locked: "maintain_locked env now s = (r0, s0)" and s': "s' = maintain_publish r0 s0"
    using assms(1,4) by (auto simp: Maintain_def split: prod.splits)
  obtain r1 s1 where dr: "drain env ?c 0 s = (r1, s1)" by (cases "drain env ?c 0 s")
  with drain_runs [OF assms(6), of ?c 0 s] have r1: "r1 = Inr ()" by simp
  from drain_shrinks [OF dr assms(2,3)] r1 have s1: "shrinks s s1" "db s1 = Some (retain ?c d)"
    by auto
  then have ok1: "database_ok (retain ?c d)" by (auto simp: shrinks_def)
  have path: "cfg s1 = cfg s" "balances s1 = balances s" using s1(1) by (auto simp: shrinks_def)
  have "s0 = s1 \<or> (\<exists>r. pressure_loop env 0 200 s1 = (r, s0))"
    using assms(2,5) locked dr r1
    by (auto simp: maintain_locked_def split: sum.splits option.splits simp del: pressure_loop.simps)
  then have "\<exists>m\<le>1000000. shrinks s1 s0 \<and> sort (pressure_rows (the (db s0))) =
      drop m (sort (pressure_rows (retain ?c d))) \<and>
      (0 < m \<longrightarrow> (\<exists>k. evict_allowed env (Path (cfg s)) k))"
  proof
    assume "s0 = s1"
    with s1 ok1 show ?thesis by (intro exI [of _ 0]) (auto intro: shrinks_refl)
  next
    assume "\<exists>r. pressure_loop env 0 200 s1 = (r, s0)"
    then show ?thesis using pressure_loop_prefix [OF _ s1(2) ok1] path(1) by force
  qed
  then obtain m where m: "m \<le> 1000000" "shrinks s1 s0" "sort (pressure_rows (the (db s0))) =
      drop m (sort (pressure_rows (retain ?c d)))"
      "0 < m \<longrightarrow> (\<exists>k. evict_allowed env (Path (cfg s)) k)" by blast
  from m(2) obtain d' where d': "db s0 = Some d'" "database_ok d'" "balances s0 = balances s1"
    by (auto simp: shrinks_def)
  have "db s' = db s0 \<and> balances s' = balances s0"
    by (auto simp: s' maintain_publish_def balance_defs frame_simps split: sum.splits)
  with d' m path show ?thesis by (intro exI [of _ d'] exI [of _ m]) auto
qed

text \<open>
  What a maintenance run publishes. When the lock is not obtained nothing changes. While
  the store is closing nothing is published. Otherwise success makes the store ready and
  clears the last error; an exhausted or canceled time budget leaves readiness and last error
  as they were; any other failure makes the store not ready and records its message.
\<close>

lemma Maintain_publishes:
  assumes "db s = Some d" "database_ok d"
  shows "case Maintain env now s of
     (Inr _, s') \<Rightarrow> me_lock env = None \<and> \<not> closing s \<and> ready s' \<and> lastError s' = None
   | (Inl e, s') \<Rightarrow>
       (if me_lock env \<noteq> None \<or> closing s \<or> errors_is e Canceled \<or> errors_is e DeadlineExceeded
        then ready s' = ready s \<and> lastError s' = lastError s
        else \<not> ready s' \<and> lastError s' = Some (err_text e))"
proof (cases "me_lock env")
  case (Some e)
  then show ?thesis by (simp add: Maintain_def)
next
  case None
  obtain r0 s0 where locked: "maintain_locked env now s = (r0, s0)"
    by (cases "maintain_locked env now s")
  from maintain_locked_shrinks [OF locked assms] have
    fr: "closing s0 = closing s" "ready s0 = ready s" "lastError s0 = lastError s"
    by (auto simp: shrinks_def)
  have cl: "closing s \<Longrightarrow> r0 = Inl (Msg ''store is closed'')"
    using locked by (simp add: maintain_locked_def)
  show ?thesis
    using None locked fr cl
    by (cases r0) (auto simp: Maintain_def maintain_publish_def setOperationalError_def)
qed

end
