(* ===== verification/StoreClear.thy ===== *)
theory StoreClear
  imports MaintenanceProps
begin

text \<open>
  \<open>Clear\<close> (\<^verbatim>\<open>internal/store/clear.go\<close>): the path check and the transaction that
  empties the three tables. The path functions of the operating system and the outcome of each
  SQLite call come from the environment.
\<close>

record ClearResult =
  Database :: string
  ClearedAt :: "int option"
  DeletedLogCount :: int
  DeletedSpanCount :: int
  DeletedMetricCount :: int

record clear_env =
  ce_lock :: "go_error option"
  ce_abs :: "string \<Rightarrow> string result"
  ce_eval :: "string \<Rightarrow> string result"
  ce_begin :: "go_error option"
  ce_delete :: "nat \<Rightarrow> go_error option"
  ce_affected :: "nat \<Rightarrow> go_error option"
  ce_commit :: "go_error option"
  ce_now :: int

definition empty_result :: ClearResult where
  "empty_result = \<lparr>Database = [], ClearedAt = None, DeletedLogCount = 0, DeletedSpanCount = 0,
     DeletedMetricCount = 0\<rparr>"

text \<open>\<open>filepath.IsAbs\<close> on Unix.\<close>

definition is_abs :: "string \<Rightarrow> bool" where
  "is_abs p = (case p of [] \<Rightarrow> False | c # _ \<Rightarrow> c = CHR ''/'')"

text \<open>The database path the request must name, or the error of the check.\<close>

definition clear_target :: "clear_env \<Rightarrow> string \<Rightarrow> Store \<Rightarrow> string result" where
  "clear_target env expectedPath s =
     (if db s = None \<or> closing s then Inl (Msg ''store is closed'')
      else if \<not> is_abs expectedPath then Inl DatabaseMismatch
      else
     (case ce_abs env (Path (cfg s)) of
        Inl e \<Rightarrow> Inl e
      | Inr a \<Rightarrow>
     (case ce_eval env a of
        Inl e \<Rightarrow> Inl e
      | Inr actual \<Rightarrow>
     (case ce_eval env expectedPath of
        Inl _ \<Rightarrow> Inl DatabaseMismatch
      | Inr expected \<Rightarrow> if actual \<noteq> expected then Inl DatabaseMismatch else Inr actual))))"

text \<open>
  The loop over the three tables, the i-th DELETE and the number of rows it affected: the
  error that ends it, if any.
\<close>

fun clear_tables :: "clear_env \<Rightarrow> nat \<Rightarrow> string list \<Rightarrow> go_error option" where
  "clear_tables env i [] = None"
| "clear_tables env i (table # tables) =
     (case ce_delete env i of
        Some e \<Rightarrow> Some (WrapErr (''clear '' @ table @ '': '') e [])
      | None \<Rightarrow>
          (case ce_affected env i of
             Some e \<Rightarrow> Some e
           | None \<Rightarrow> clear_tables env (Suc i) tables))"

definition clear_tx :: "clear_env \<Rightarrow> string \<Rightarrow> database \<Rightarrow> Store \<Rightarrow> ClearResult result \<times> Store" where
  "clear_tx env actual d s =
     (case ce_begin env of
        Some e \<Rightarrow> (Inl e, s)
      | None \<Rightarrow>
     (case clear_tables env 0 [''otel_logs'', ''otel_spans'', ''otel_metric_points''] of
        Some e \<Rightarrow> (Inl e, s)
      | None \<Rightarrow>
     (case ce_commit env of
        Some e \<Rightarrow> (Inl e, s)
      | None \<Rightarrow>
          let nl = length (otel_logs d); ns = length (otel_spans d);
              nm = length (otel_metric_points d)
          in (Inr \<lparr>Database = actual, ClearedAt = Some (ce_now env), DeletedLogCount = int nl,
                 DeletedSpanCount = int ns, DeletedMetricCount = int nm\<rparr>,
              s\<lparr>db := Some empty_database,
                deletedLogs := deletedLogs s + of_nat nl,
                deletedSpans := deletedSpans s + of_nat ns,
                deletedMetrics := deletedMetrics s + of_nat nm\<rparr>))))"

definition Clear :: "clear_env \<Rightarrow> string \<Rightarrow> Store \<Rightarrow> ClearResult result \<times> Store" where
  "Clear env expectedPath s =
     (case ce_lock env of
        Some e \<Rightarrow> (Inl e, s)
      | None \<Rightarrow>
     (case clear_target env expectedPath s of
        Inl e \<Rightarrow> (Inl e, s)
      | Inr actual \<Rightarrow>
     (case db s of
        None \<Rightarrow> (Inl (Msg ''store is closed''), s)
      | Some d \<Rightarrow>
     (case clear_tx env actual d s of (r, s') \<Rightarrow> (r, recordWriteError (err_of r) s')))))"

lemma clear_tx_cases:
  "clear_tx env actual d s = (Inl e, s') \<Longrightarrow> s' = s"
  "clear_tx env actual d s = (Inr res, s') \<Longrightarrow>
     res = \<lparr>Database = actual, ClearedAt = Some (ce_now env),
       DeletedLogCount = int (length (otel_logs d)),
       DeletedSpanCount = int (length (otel_spans d)),
       DeletedMetricCount = int (length (otel_metric_points d))\<rparr> \<and>
     s' = s\<lparr>db := Some empty_database,
       deletedLogs := deletedLogs s + of_nat (length (otel_logs d)),
       deletedSpans := deletedSpans s + of_nat (length (otel_spans d)),
       deletedMetrics := deletedMetrics s + of_nat (length (otel_metric_points d))\<rparr>"
  by (auto simp: clear_tx_def Let_def split: option.splits)

lemma Clear_Inl: "Clear env expectedPath s = (Inl e, s') \<Longrightarrow> same_data s s'"
  by (auto simp: Clear_def split: option.splits sum.splits prod.splits dest!: clear_tx_cases)

lemma Clear_Inr:
  assumes "Clear env expectedPath s = (Inr res, s')"
  obtains d a where "db s = Some d" "\<not> closing s" "is_abs expectedPath"
    "ce_eval env expectedPath = Inr (Database res)" "ce_abs env (Path (cfg s)) = Inr a"
    "ce_eval env a = Inr (Database res)"
    "DeletedLogCount res = int (length (otel_logs d))"
    "DeletedSpanCount res = int (length (otel_spans d))"
    "DeletedMetricCount res = int (length (otel_metric_points d))"
    "s' = s\<lparr>db := Some empty_database,
       deletedLogs := deletedLogs s + of_nat (length (otel_logs d)),
       deletedSpans := deletedSpans s + of_nat (length (otel_spans d)),
       deletedMetrics := deletedMetrics s + of_nat (length (otel_metric_points d))\<rparr>"
proof -
  from assms obtain d actual where h: "db s = Some d"
    "clear_target env expectedPath s = Inr actual" "clear_tx env actual d s = (Inr res, s')"
    by (auto simp: Clear_def split: option.splits sum.splits prod.splits)
  from h(2) obtain a where "\<not> closing s" "is_abs expectedPath"
    "ce_eval env expectedPath = Inr actual" "ce_abs env (Path (cfg s)) = Inr a"
    "ce_eval env a = Inr actual"
    by (auto simp: clear_target_def split: if_splits sum.splits)
  with h(1) clear_tx_cases(2) [OF h(3)] that show ?thesis by simp
qed

text \<open>
  C8. Clear is all or nothing: on an error, at whatever call, no row and no counter changes.
  On success the request named the collector's own database, the store was open, all three
  tables are empty, the reported counts are the numbers of rows removed, exactly those are
  added to the deletion counters, and readiness and the committed counters are untouched.
\<close>

theorem Clear_outcome:
  "case Clear env expectedPath s of
     (Inl e, s') \<Rightarrow> same_data s s'
   | (Inr res, s') \<Rightarrow>
       (\<exists>d. db s = Some d \<and> \<not> closing s \<and> is_abs expectedPath \<and>
          ce_eval env expectedPath = Inr (Database res) \<and>
          (\<exists>a. ce_abs env (Path (cfg s)) = Inr a \<and> ce_eval env a = Inr (Database res)) \<and>
          DeletedLogCount res = int (length (otel_logs d)) \<and>
          DeletedSpanCount res = int (length (otel_spans d)) \<and>
          DeletedMetricCount res = int (length (otel_metric_points d)) \<and>
          db s' = Some empty_database \<and> balances s' = balances s \<and>
          ready s' = ready s \<and> lastError s' = lastError s \<and>
          committedLogs s' = committedLogs s \<and> committedSpans s' = committedSpans s \<and>
          committedMetrics s' = committedMetrics s)"
proof (cases "Clear env expectedPath s")
  case (Pair r s')
  then show ?thesis
    by (cases r) (auto dest: Clear_Inl elim!: Clear_Inr simp: balance_defs empty_database_def)
qed

end
