(* ===== verification/StoreRuns.thy ===== *)
theory StoreRuns
  imports StoreClear
begin

text \<open>
  Runs of the store: \<open>Shutdown\<close> (\<^verbatim>\<open>internal/store/store.go\<close>) and the step
  relation whose steps are whole store operations, each under the writer lock, in any order
  and with any outcome of the calls they make. Two invariants hold along every run: the
  database stays well-formed, and the counters account for every row.
\<close>

record shutdown_env =
  sh_checkpoint :: "int result"
  sh_close :: "go_error option"

text \<open>\<open>errors.Join\<close>: nil when every argument is nil.\<close>

definition join_errors :: "go_error option list \<Rightarrow> unit result" where
  "join_errors es =
     (case List.map_filter id es of [] \<Rightarrow> Inr () | e # es' \<Rightarrow> Inl (JoinErr (e # es')))"

text \<open>
  Shutdown in its two parts: the flags are set at once, without the lock; the rest runs under
  the lock after the maintenance loop has ended.
\<close>

definition shutdown_begin :: "Store \<Rightarrow> Store" where
  "shutdown_begin s = s\<lparr>closing := True, ready := False, stopped := True\<rparr>"

definition shutdown_finish :: "shutdown_env \<Rightarrow> Store \<Rightarrow> unit result \<times> Store" where
  "shutdown_finish env s =
     (if db s = None then (Inr (), s\<lparr>lockHeld := False\<rparr>)
      else (join_errors [checkpoint (sh_checkpoint env), sh_close env],
            s\<lparr>db := None, lockHeld := False\<rparr>))"

inductive store_step :: "Store \<Rightarrow> Store \<Rightarrow> bool" where
  insert_logs: "InsertLogs jv env rs s = (r, s') \<Longrightarrow> store_step s s'"
| insert_spans: "InsertSpans jv env ss s = (r, s') \<Longrightarrow> store_step s s'"
| insert_points: "InsertMetricPoints gv jv env ms s = (r, s') \<Longrightarrow> store_step s s'"
| maintain: "Maintain menv now s = (r, s') \<Longrightarrow> store_step s s'"
| clear: "Clear cenv expected s = (cr, s') \<Longrightarrow> store_step s s'"
| closing_begins: "store_step s (shutdown_begin s)"
| closing_ends: "shutdown_finish senv s = (r, s') \<Longrightarrow> closing s \<Longrightarrow> store_step s s'"

inductive_cases store_stepE: "store_step s s'"

abbreviation store_run :: "Store \<Rightarrow> Store \<Rightarrow> bool" where
  "store_run \<equiv> store_step\<^sup>*\<^sup>*"

definition accounts :: "u64 \<times> u64 \<times> u64 \<Rightarrow> Store \<Rightarrow> bool" where
  "accounts b s \<longleftrightarrow> (\<forall>d. db s = Some d \<longrightarrow> database_ok d \<and> balances s = b)"

text \<open>An open database is well-formed.\<close>

definition healthy :: "Store \<Rightarrow> bool" where
  "healthy s \<longleftrightarrow> (\<forall>d. db s = Some d \<longrightarrow> database_ok d)"

lemma healthy_accounts: "healthy s \<longleftrightarrow> (\<exists>b. accounts b s)"
  by (cases "balances s") (auto simp: healthy_def accounts_def)

section \<open>Each operation keeps the accounts\<close>

lemma same_data_accounts: "same_data s s' \<Longrightarrow> accounts b s \<Longrightarrow> accounts b s'"
  by (simp add: accounts_def same_data_def balance_defs)

lemma insert_accounts:
  assumes "run_insert get put tally step env rs s = (r, s')" "accounts b s"
    and "\<And>d t n. db s = Some d \<Longrightarrow> exec_batch step 0 rs (get d) 0 = Inr (t, n) \<Longrightarrow>
       database_ok d \<Longrightarrow>
       database_ok (put t d) \<and> balances (tally n (s\<lparr>db := Some (put t d)\<rparr>)) = balances s \<and>
       db (tally n (s\<lparr>db := Some (put t d)\<rparr>)) = Some (put t d)"
  shows "accounts b s'"
proof (cases r)
  case (Inl e)
  with assms show ?thesis by (auto intro: same_data_accounts dest: run_insert_Inl)
next
  case (Inr u)
  with run_insert_Inr [of get put tally step env rs s u s'] assms(1) obtain d t n where
    "db s = Some d" "exec_batch step 0 rs (get d) 0 = Inr (t, n)"
    "s' = tally n (s\<lparr>db := Some (put t d)\<rparr>)" by auto
  with assms(2,3) show ?thesis by (simp add: accounts_def)
qed

lemma InsertLogs_accounts: "InsertLogs jv env rs s = (r, s') \<Longrightarrow> accounts b s \<Longrightarrow> accounts b s'"
  unfolding InsertLogs_def
  by (erule insert_accounts, assumption)
    (auto simp: database_ok_def put_defs count_defs balance_defs
      dest!: log_batch.batch_spec)

lemma InsertSpans_accounts: "InsertSpans jv env rs s = (r, s') \<Longrightarrow> accounts b s \<Longrightarrow> accounts b s'"
  unfolding InsertSpans_def
  by (erule insert_accounts, assumption)
    (auto simp: database_ok_def put_defs count_defs balance_defs
      dest!: span_batch.batch_spec)

lemma InsertMetricPoints_accounts:
  "InsertMetricPoints gv jv env rs s = (r, s') \<Longrightarrow> accounts b s \<Longrightarrow> accounts b s'"
  unfolding InsertMetricPoints_def
  by (erule insert_accounts, assumption)
    (auto simp: database_ok_def put_defs count_defs balance_defs
      dest!: metric_batch.batch_spec)

lemma Maintain_accounts:
  assumes "Maintain env now s = (r, s')" "accounts b s"
  shows "accounts b s'"
proof (cases "me_lock env = None \<and> db s \<noteq> None")
  case False
  with assms show ?thesis
    by (auto simp: Maintain_def maintain_locked_def maintain_publish_def accounts_def frame_simps
        split: option.splits if_splits)
next
  case True
  then obtain d where d: "db s = Some d" "database_ok d" "balances s = b"
    using assms(2) by (auto simp: accounts_def)
  obtain r0 s0 where locked: "maintain_locked env now s = (r0, s0)" "s' = maintain_publish r0 s0"
    using assms(1) True by (auto simp: Maintain_def split: prod.splits)
  from maintain_locked_shrinks [OF locked(1) d(1,2)] have "accounts b s0"
    using d(3) by (auto simp: shrinks_def accounts_def)
  moreover have "same_data s0 s'"
    by (auto simp: locked(2) maintain_publish_def same_data_def frame_simps split: sum.splits)
  ultimately show ?thesis by (rule same_data_accounts [rotated])
qed

lemma Clear_accounts:
  assumes "Clear env expected s = (r, s')" "accounts b s"
  shows "accounts b s'"
proof (cases r)
  case (Inl e)
  with assms show ?thesis by (auto intro: same_data_accounts dest: Clear_Inl)
next
  case (Inr res)
  with assms show ?thesis
    by (auto elim!: Clear_Inr simp: accounts_def empty_database_def database_ok_def balance_defs)
qed

lemma store_step_accounts: "store_step s s' \<Longrightarrow> accounts b s \<Longrightarrow> accounts b s'"
proof (induction rule: store_step.induct)
  case (closing_begins s)
  then show ?case by (simp add: shutdown_begin_def accounts_def balance_defs)
next
  case (closing_ends senv s r s')
  then show ?case by (auto simp: shutdown_finish_def accounts_def split: if_splits)
qed (auto intro: InsertLogs_accounts InsertSpans_accounts InsertMetricPoints_accounts
      Maintain_accounts Clear_accounts)

lemma store_run_accounts: "store_run s s' \<Longrightarrow> accounts b s \<Longrightarrow> accounts b s'"
  by (induction rule: rtranclp_induct) (auto intro: store_step_accounts)


section \<open>After shutdown begins\<close>

lemma closing_refuses:
  assumes "closing s"
  shows "admissionErrorLocked d s = Some (Msg ''store is not ready'')"
  using assms by (simp add: admissionErrorLocked_def)

lemma closing_insert:
  assumes "run_insert get put tally step env rs s = (r, s')" "closing s"
  shows "closing s' \<and> db s' = db s \<and> \<not> is_ok r \<and> (ready s' \<longrightarrow> ready s)"
  using assms closing_refuses [OF assms(2)]
  by (auto simp: run_insert_def insert_locked_def frame_simps not_ready_def recordWriteError_ready
      split: if_splits option.splits)

lemma store_step_closing:
  assumes "store_step s s'" "closing s"
  shows "closing s' \<and> (db s' = db s \<or> db s' = None) \<and> (ready s' \<longrightarrow> ready s)"
  using assms
proof (induction rule: store_step.induct)
  case (maintain menv now s r s')
  then show ?case
    by (auto simp: Maintain_def maintain_locked_def maintain_publish_def split: option.splits)
next
  case (clear cenv expected s cr s')
  then show ?case by (auto simp: Clear_def clear_target_def split: option.splits)
next
  case (closing_begins s)
  then show ?case by (simp add: shutdown_begin_def)
next
  case (closing_ends senv s r s')
  then show ?case by (auto simp: shutdown_finish_def split: if_splits)
qed (auto simp: InsertLogs_def InsertSpans_def InsertMetricPoints_def dest!: closing_insert)


end
