(* ===== verification/StoreWitnesses.thy ===== *)
theory StoreWitnesses
  imports StoreRuns
begin

text \<open>
  The store properties that have hypotheses, applied to a concrete store with an open, ready
  database, calls that succeed and a disk with room.
\<close>

section \<open>A store and its environment\<close>

definition roomy_disk :: disk where
  "roomy_disk = \<lparr>databaseBytes = 0, activeBytes = 0, freeBytes = 2 ^ 40, walBytes = 0\<rparr>"

definition calm_writes :: write_env where
  "calm_writes = \<lparr>we_lock = None, we_disk = roomy_disk, we_begin = None, we_prepare = None,
     we_query = (\<lambda>_. None), we_exec = (\<lambda>_. None), we_commit = None\<rparr>"

definition roomy_fs :: filesystem where
  "roomy_fs = \<lparr>stat_size = (\<lambda>_. None), statfs_dir = (\<lambda>_. Some (2 ^ 28, 4096))\<rparr>"

definition calm_maintenance :: maintain_env where
  "calm_maintenance = \<lparr>me_lock = None, me_delete = (\<lambda>_ _. None), me_vacuum0 = (None, None),
     me_passive = Inr 0, me_fs1 = (\<lambda>_. roomy_fs), me_truncate = (\<lambda>_. Inr 0),
     me_fs2 = (\<lambda>_. roomy_fs), me_freelist = (\<lambda>_. Inr 0), me_select = (\<lambda>_. None),
     me_begin = (\<lambda>_. None), me_exec = (\<lambda>_ _. None), me_commit = (\<lambda>_. None),
     me_vacuum = (\<lambda>_. (None, None))\<rparr>"

definition open_store :: "database \<Rightarrow> Store" where
  "open_store d = (new_store \<lparr>Path = ''/d/logal.db'', RetentionHours = 48\<rparr>)
     \<lparr>db := Some d, ready := True, maintenanceRun := True, lockHeld := True\<rparr>"

definition a_log :: LogRecord where
  "a_log = \<lparr>l_Fingerprint = replicate 32 CHR ''f'', l_ReceivedAt = 5, l_Time = 4,
     l_ServiceName = ''api'', l_SeverityNumber = 9, l_SeverityText = ''INFO'', l_TraceID = [],
     l_SpanID = [], l_RequestID = [], l_ProductID = [], l_Component = [], l_Op = [],
     l_BodyJSON = ''{}'', l_PayloadJSON = ''{}''\<rparr>"

definition a_span :: "char \<Rightarrow> SpanRecord" where
  "a_span c = \<lparr>s_Fingerprint = replicate 32 c, s_ReceivedAt = 5,
     s_TraceID = replicate 16 CHR ''t'', s_SpanID = replicate 8 CHR ''s'', s_ParentSpanID = [],
     s_ServiceName = ''api'', s_Name = ''get'', s_StartTime = 1, s_EndTime = 2, s_RequestID = [],
     s_ProductID = [], s_PayloadJSON = ''{}''\<rparr>"

lemmas fixture_defs = roomy_disk_def calm_writes_def roomy_fs_def calm_maintenance_def
  open_store_def new_store_def a_log_def a_span_def empty_database_def

lemma open_store_state:
  "db (open_store d) = Some d" "ready (open_store d)" "\<not> closing (open_store d)"
  "Path (cfg (open_store d)) = ''/d/logal.db''"
  "committedLogs (open_store d) = 0" "deletedLogs (open_store d) = 0"
  "committedSpans (open_store d) = 0" "deletedSpans (open_store d) = 0"
  "committedMetrics (open_store d) = 0" "deletedMetrics (open_store d) = 0"
  by (simp_all add: open_store_def new_store_def)

lemma roomy_admits: "admissionErrorLocked roomy_disk (open_store d) = None"
  by (simp add: admissionErrorLocked_def open_store_state roomy_disk_def capacity_defs
      wrap64_def free_floor_def word_less_def)

lemma calm_calls:
  "we_lock calm_writes = None" "we_disk calm_writes = roomy_disk" "we_begin calm_writes = None"
  "we_prepare calm_writes = None" "we_commit calm_writes = None"
  "we_query calm_writes k = None" "we_exec calm_writes k = None"
  by (simp_all add: calm_writes_def)

lemma empty_tables: "otel_logs empty_database = []" "otel_spans empty_database = []"
  by (simp_all add: empty_database_def)

section \<open>Inserts\<close>

lemma insert_a_log:
  "InsertLogs (\<lambda>_. True) calm_writes [a_log] (open_store empty_database) =
     (Inr (), (open_store empty_database)
        \<lparr>db := Some (empty_database\<lparr>otel_logs := [log_row_of 1 a_log]\<rparr>), committedLogs := 1\<rparr>)"
by (simp add: InsertLogs_def run_insert_def insert_locked_def roomy_admits open_store_state
        calm_calls log_step_def log_insert_def log_checks_def next_rowid_def
        put_logs_def add_logs_def a_log_def log_row_of_def empty_database_def)

lemma InsertLogs_replay_witness:
  "same_data
     (snd (InsertLogs (\<lambda>_. True) calm_writes [a_log] (open_store empty_database)))
     (snd (InsertLogs (\<lambda>_. True) calm_writes [a_log]
        (snd (InsertLogs (\<lambda>_. True) calm_writes [a_log] (open_store empty_database)))))"
proof (rule InsertLogs_replay)
  show "InsertLogs (\<lambda>_. True) calm_writes [a_log] (open_store empty_database) =
      (Inr (), snd (InsertLogs (\<lambda>_. True) calm_writes [a_log] (open_store empty_database)))"
    by (simp add: insert_a_log)
qed (rule prod.collapse [symmetric])

lemma span_checked: "span_checks (\<lambda>_. True) (a_span c)"
  by (simp add: span_checks_def a_span_def)

theorem InsertSpans_conflict_iff_witness:
  "fst (InsertSpans (\<lambda>_. True) calm_writes [a_span CHR ''x'', a_span CHR ''x'']
      (open_store empty_database)) = Inr () \<and>
   fst (InsertSpans (\<lambda>_. True) calm_writes [a_span CHR ''x'', a_span CHR ''y'']
      (open_store empty_database)) = Inl SpanConflict"
proof -
  have run: "if functional (span_claims [] \<union> span_claim ` set rs)
      then fst (InsertSpans (\<lambda>_. True) calm_writes rs (open_store empty_database)) = Inr ()
      else fst (InsertSpans (\<lambda>_. True) calm_writes rs (open_store empty_database)) = Inl SpanConflict
        \<and> same_data (open_store empty_database)
            (snd (InsertSpans (\<lambda>_. True) calm_writes rs (open_store empty_database)))"
    if "list_all (span_checks (\<lambda>_. True)) rs" for rs
    using InsertSpans_conflict_iff [of "open_store empty_database" calm_writes "\<lambda>_. True" rs
        empty_database] that
    by (simp add: open_store_state roomy_admits empty_database_ok calm_calls empty_tables)
  have "functional (span_claims [] \<union> span_claim ` set [a_span CHR ''x'', a_span CHR ''x''])"
    by (auto simp: functional_def span_claims_def a_span_def)
  moreover have "\<not> functional (span_claims [] \<union> span_claim ` set [a_span CHR ''x'', a_span CHR ''y''])"
    unfolding functional_def
    by (rule notI, drule spec [of _ "(replicate 16 CHR ''t'', replicate 8 CHR ''s'')"],
        drule spec [of _ "replicate 32 CHR ''x''"], drule spec [of _ "replicate 32 CHR ''y''"])
      (simp add: a_span_def)
  ultimately show ?thesis
    using run [of "[a_span CHR ''x'', a_span CHR ''x'']"] run [of "[a_span CHR ''x'', a_span CHR ''y'']"]
    by (simp add: span_checked)
qed

lemma insert_a_span:
  "InsertSpans (\<lambda>_. True) calm_writes [a_span CHR ''x''] (open_store empty_database) =
     (Inr (), (open_store empty_database)
        \<lparr>db := Some (empty_database\<lparr>otel_spans := [span_row_of 1 (a_span CHR ''x'')]\<rparr>),
         committedSpans := 1\<rparr>)"
by (simp add: InsertSpans_def run_insert_def insert_locked_def roomy_admits open_store_state
        calm_calls span_step_def span_fingerprint_def span_insert_def span_checked
        next_rowid_def put_spans_def add_spans_def empty_database_def)

lemma InsertSpans_stores_batch_witness:
  "\<exists>new s'. InsertSpans (\<lambda>_. True) calm_writes [a_span CHR ''x''] (open_store empty_database) =
       (Inr (), s') \<and>
     db s' = Some (empty_database\<lparr>otel_spans := new\<rparr>) \<and>
     span_fingerprint (replicate 16 CHR ''t'') (replicate 8 CHR ''s'') new =
       Some (replicate 32 CHR ''x'')"
  using InsertSpans_stores_batch [OF insert_a_span open_store_state(1) empty_database_ok]
    insert_a_span
  by (auto simp: a_span_def empty_database_def)

section \<open>Maintenance\<close>

text \<open>An expired and a fresh log; the run removes the first and keeps the second.\<close>

definition two_logs :: database where
  "two_logs = \<lparr>otel_logs = [log_row_of 1 a_log,
       log_row_of 2 (a_log\<lparr>l_Fingerprint := replicate 32 CHR ''g'', l_ReceivedAt := 9\<rparr>)],
     otel_spans = [], otel_metric_points = []\<rparr>"

lemma two_logs_ok: "database_ok two_logs"
  by (simp add: database_ok_def two_logs_def table_ok_def log_row_of_def a_log_def)

lemma no_pressure: "\<not> under_pressure (diskState roomy_fs p)" "walBytes (diskState roomy_fs p) < walNotReady"
  by (simp_all add: under_pressure_def diskState_def roomy_fs_def size_or_zero_def capacity_defs
      wrap64_def free_floor_def word_less_def)

theorem Maintain_removes_expired_then_oldest_witness:
  "\<exists>d' m. db (snd (Maintain calm_maintenance (48 * hour_ns + 6) (open_store two_logs))) = Some d' \<and>
     sort (pressure_rows d') = drop m [(9, 0, 2)]"
proof -
  let ?s = "open_store two_logs" and ?now = "48 * hour_ns + 6"
  obtain r s' where run: "Maintain calm_maintenance ?now ?s = (r, s')" by fastforce
  have cutoff: "retention_cutoff (cfg ?s) ?now = 6"
    by (simp add: retention_cutoff_def open_store_def new_store_def wrap64_def hour_ns_def)
  have kept: "sort (pressure_rows (retain 6 two_logs)) = [(9, 0, 2)]"
    by (simp add: pressure_rows_def retain_def two_logs_def log_row_of_def a_log_def)
  from Maintain_removes_expired_then_oldest [OF run open_store_state(1) two_logs_ok]
  obtain d' m where "db s' = Some d'" "sort (pressure_rows d') = drop m [(9, 0, 2)]"
    by (auto simp: calm_maintenance_def open_store_state cutoff kept)
  then show ?thesis by (auto simp: run)
qed

lemma Maintain_publishes_witness:
  "case Maintain calm_maintenance 0 (open_store two_logs) of
     (Inr _, s') \<Rightarrow> ready s' \<and> lastError s' = None
   | (Inl e, s') \<Rightarrow> errors_is e Canceled \<or> errors_is e DeadlineExceeded \<or> \<not> ready s'"
  using Maintain_publishes [OF open_store_state(1) two_logs_ok, of calm_maintenance 0]
  by (auto simp: open_store_state calm_maintenance_def split: prod.splits sum.splits if_splits)

section \<open>Runs\<close>



end
