(* ===== verification/Redaction.thy ===== *)
theory Redaction
  imports GoText
begin

text \<open>
  OTLP values, their validation and their redaction
  (\<^verbatim>\<open>internal/exporter/exporter.go\<close>: \<open>validateMap\<close>, \<open>validateValue\<close>,
  \<open>validateMapAtDepth\<close>, \<open>redactMap\<close>, \<open>redactValue\<close>, \<open>isSensitiveKey\<close>,
  \<open>attributeString\<close>). \<open>pcommon.Value\<close> and \<open>pcommon.Map\<close> are a datatype; a map is
  its entries in slice order, since pdata maps are slices. The code mutates copies in place;
  here the new value is returned.
\<close>

section \<open>Values\<close>

datatype Value =
    VEmpty
  | VStr string
  | VBool bool
  | VInt int
  | VDouble "64 word"
  | VBytes string
  | VSlice "Value list"
  | VMap "(string \<times> Value) list"

type_synonym attrs = "(string \<times> Value) list"

text \<open>\<open>attributeString\<close>: \<open>Map.Get\<close> finds the first entry of the key.\<close>

definition attributeString :: "attrs \<Rightarrow> string \<Rightarrow> string" where
  "attributeString m k = (case map_of m k of Some (VStr s) \<Rightarrow> s | _ \<Rightarrow> [])"

section \<open>Validation\<close>

abbreviation mib :: nat where
  "mib \<equiv> 1048576"

definition nesting_error :: go_error where
  "nesting_error = Msg ''nesting exceeds 16 levels''"

fun validateValue :: "Value \<Rightarrow> nat \<Rightarrow> go_error option"
  and validateItems :: "Value list \<Rightarrow> nat \<Rightarrow> go_error option"
  and validateEntries :: "attrs \<Rightarrow> nat \<Rightarrow> go_error option" where
  "validateValue v depth =
     (if depth > 16 then Some nesting_error
      else (case v of
          VStr s \<Rightarrow> if length s > mib then Some (Msg ''string exceeds 1 MiB'') else None
        | VBytes b \<Rightarrow> if length b > mib then Some (Msg ''bytes exceed 1 MiB'') else None
        | VSlice vs \<Rightarrow> validateItems vs (depth + 1)
        | VMap es \<Rightarrow> if depth + 1 > 16 then Some nesting_error else validateEntries es (depth + 1)
        | _ \<Rightarrow> None))"
| "validateItems [] depth = None"
| "validateItems (v # vs) depth =
     (case validateValue v depth of Some e \<Rightarrow> Some e | None \<Rightarrow> validateItems vs depth)"
| "validateEntries [] depth = None"
| "validateEntries ((k, v) # es) depth =
     (if length k > mib then Some (Msg ''attribute key exceeds 1 MiB'')
      else (case validateValue v depth of Some e \<Rightarrow> Some e | None \<Rightarrow> validateEntries es depth))"

definition validateMapAtDepth :: "attrs \<Rightarrow> nat \<Rightarrow> go_error option" where
  "validateMapAtDepth es depth =
     (if depth > 16 then Some nesting_error else validateEntries es depth)"

definition validateMap :: "attrs \<Rightarrow> go_error option" where
  "validateMap es = validateMapAtDepth es 0"

text \<open>What validation accepts, stated without the traversal.\<close>

fun nesting :: "Value \<Rightarrow> nat" where
  "nesting (VSlice vs) = foldr (\<lambda>v n. max (Suc (nesting v)) n) vs 0"
| "nesting (VMap es) = foldr (\<lambda>e n. max (Suc (nesting (snd e))) n) es 1"
| "nesting _ = 0"

fun sized :: "Value \<Rightarrow> bool" where
  "sized (VStr s) = (length s \<le> mib)"
| "sized (VBytes b) = (length b \<le> mib)"
| "sized (VSlice vs) = list_all sized vs"
| "sized (VMap es) = list_all (\<lambda>e. length (fst e) \<le> mib \<and> sized (snd e)) es"
| "sized _ = True"

lemma add_foldr_max_le:
  "d + foldr (\<lambda>x n. max (f x) n) xs b \<le> (m::nat) \<longleftrightarrow>
     d + b \<le> m \<and> (\<forall>x\<in>set xs. d + f x \<le> m)"
  by (induction xs) auto

lemma foldr_max_le:
  "foldr (\<lambda>x n. max (f x) n) xs b \<le> (m::nat) \<longleftrightarrow> b \<le> m \<and> (\<forall>x\<in>set xs. f x \<le> m)"
  using add_foldr_max_le [of 0 f xs b m] by simp

declare validateValue.simps [simp del]

lemma validate_spec:
  "d \<le> 16 \<Longrightarrow> validateValue v d = None \<longleftrightarrow> d + nesting v \<le> 16 \<and> sized v"
  "d \<le> 17 \<Longrightarrow> validateItems vs d = None \<longleftrightarrow>
     (\<forall>v\<in>set vs. d + nesting v \<le> 16 \<and> sized v)"
  "d \<le> 16 \<Longrightarrow> validateEntries es d = None \<longleftrightarrow>
     (\<forall>e\<in>set es. length (fst e) \<le> mib \<and> d + nesting (snd e) \<le> 16 \<and> sized (snd e))"
proof (induction v d and vs d and es d
    rule: validateValue_validateItems_validateEntries.induct)
  case (1 v d)
  show ?case
    unfolding validateValue.simps [of v d] using 1
    by (cases v) (auto simp: add_foldr_max_le list_all_iff not_less)
next
  case (3 v vs d)
  show ?case
  proof (cases "d \<le> 16")
    case True
    with 3 show ?thesis by (auto split: option.splits)
  next
    case False
    then show ?thesis by (auto simp: validateValue.simps [of v d])
  qed
next
  case (5 k v es d)
  then show ?case by (auto split: option.splits)
qed auto

text \<open>
  C12. \<open>validateMap\<close> accepts exactly the maps in which every key, string and byte string
  has at most 1 MiB and no value is nested more than 16 levels deep (a map counts one level,
  even when empty; a non-empty slice counts one).
\<close>

theorem validateMap_accepts:
  "validateMap es = None \<longleftrightarrow>
     list_all (\<lambda>e. length (fst e) \<le> mib \<and> nesting (snd e) \<le> 16 \<and> sized (snd e)) es"
  by (simp add: validateMap_def validateMapAtDepth_def validate_spec list_all_iff)

section \<open>Sensitive keys\<close>

definition key_separator :: "char \<Rightarrow> bool" where
  "key_separator c \<longleftrightarrow> c = CHR ''.'' \<or> c = CHR ''/'' \<or> c = CHR '':''"

definition sensitive_terminals :: "string list" where
  "sensitive_terminals =
     [''authorization'', ''proxyauthorization'', ''cookie'', ''setcookie'',
      ''password'', ''passwd'', ''secret'', ''apikey'', ''clientsecret'', ''token'',
      ''accesstoken'', ''refreshtoken'', ''idtoken'', ''sessiontoken'', ''csrftoken'']"

definition credentials :: "string list" where
  "credentials = [''password'', ''passwd'', ''secret'', ''api_key'', ''access_token'',
     ''refresh_token'', ''id_token'', ''session_token'', ''csrf_token'']"

definition strip_marks :: "string \<Rightarrow> string" where
  "strip_marks s = filter (\<lambda>c. c \<noteq> CHR ''-'' \<and> c \<noteq> CHR ''_'') s"

definition underscore :: "string \<Rightarrow> string" where
  "underscore s = map (\<lambda>c. if key_separator c \<or> c = CHR ''-'' then CHR ''_'' else c) s"

definition isSensitiveKey :: "(string \<Rightarrow> string) \<Rightarrow> string \<Rightarrow> bool" where
  "isSensitiveKey ul key =
     (let normalized = to_lower ul (trim_space key);
          segments = fields key_separator normalized
      in if segments = [] then False
         else if strip_marks (last segments) \<in> set sensitive_terminals then True
         else list_ex (\<lambda>cr. has_suffix (CHR ''_'' # cr) (underscore normalized)) credentials)"

section \<open>Redaction\<close>

definition redacted :: Value where
  "redacted = VStr ''[REDACTED]''"

fun redactValue :: "(string \<Rightarrow> string) \<Rightarrow> Value \<Rightarrow> Value" where
  "redactValue ul (VMap es) =
     VMap (map (\<lambda>e. (fst e, if isSensitiveKey ul (fst e) then redacted
                            else redactValue ul (snd e))) es)"
| "redactValue ul (VSlice vs) = VSlice (map (redactValue ul) vs)"
| "redactValue ul v = v"

definition redactMap :: "(string \<Rightarrow> string) \<Rightarrow> attrs \<Rightarrow> attrs" where
  "redactMap ul es =
     map (\<lambda>e. (fst e, if isSensitiveKey ul (fst e) then redacted else redactValue ul (snd e))) es"

text \<open>No value other than the marker stands under a sensitive key, at any depth.\<close>

fun clean :: "(string \<Rightarrow> string) \<Rightarrow> Value \<Rightarrow> bool" where
  "clean ul (VMap es) =
     list_all (\<lambda>e. if isSensitiveKey ul (fst e) then snd e = redacted else clean ul (snd e)) es"
| "clean ul (VSlice vs) = list_all (clean ul) vs"
| "clean ul v = True"

text \<open>
  Two values that differ at most in what stands under sensitive keys: the observer of the
  public part cannot tell them apart.
\<close>

fun public_eq :: "(string \<Rightarrow> string) \<Rightarrow> Value \<Rightarrow> Value \<Rightarrow> bool" where
  "public_eq ul (VMap es) (VMap fs) =
     list_all2 (\<lambda>e f. fst e = fst f \<and> (isSensitiveKey ul (fst e) \<or> public_eq ul (snd e) (snd f))) es fs"
| "public_eq ul (VSlice vs) (VSlice ws) = list_all2 (public_eq ul) vs ws"
| "public_eq ul v w = (v = w)"

lemma redactValue_clean: "clean ul (redactValue ul v)"
  by (induction v) (auto simp: list_all_iff)

text \<open>Induction over values with entries as pairs.\<close>

lemma Value_induct [case_names scalar slice map]:
  assumes "\<And>v. (\<And>vs. v \<noteq> VSlice vs) \<Longrightarrow> (\<And>es. v \<noteq> VMap es) \<Longrightarrow> P v"
    and "\<And>vs. (\<And>v. v \<in> set vs \<Longrightarrow> P v) \<Longrightarrow> P (VSlice vs)"
    and "\<And>es. (\<And>k v. (k, v) \<in> set es \<Longrightarrow> P v) \<Longrightarrow> P (VMap es)"
  shows "P v"
proof (induction v)
  case (VMap es)
  show ?case
  proof (rule assms(3))
    fix k v
    assume "(k, v) \<in> set es"
    then show "P v" using VMap.IH [of "(k, v)" v] by simp
  qed
qed (auto intro: assms)

lemma redactValue_scalar:
  "(\<And>vs. v \<noteq> VSlice vs) \<Longrightarrow> (\<And>es. v \<noteq> VMap es) \<Longrightarrow> redactValue ul v = v"
  by (cases v) auto

lemma clean_redactValue: "clean ul v \<Longrightarrow> redactValue ul v = v"
proof (induction v rule: Value_induct)
  case (scalar v)
  then show ?case by (simp add: redactValue_scalar)
next
  case (slice vs)
  then show ?case by (auto simp: list_all_iff intro!: map_idI)
next
  case (map es)
  then show ?case by (force simp: list_all_iff intro!: map_idI)
qed

lemma redactMap_VMap: "VMap (redactMap ul es) = redactValue ul (VMap es)"
  by (simp add: redactMap_def)

lemma redacted_small: "sized redacted" "nesting redacted = 0"
  by (simp_all add: redacted_def)

lemma sized_redactValue: "sized v \<Longrightarrow> sized (redactValue ul v)"
proof (induction v rule: Value_induct)
  case (scalar v)
  then show ?case by (simp add: redactValue_scalar)
next
  case (slice vs)
  then show ?case by (auto simp: list_all_iff)
next
  case (map es)
  then show ?case by (auto simp: list_all_iff redacted_small)
qed

lemma foldr_max_mono:
  "(\<And>x. x \<in> set xs \<Longrightarrow> f x \<le> (g x :: nat)) \<Longrightarrow>
     foldr (\<lambda>x n. max (f x) n) xs b \<le> foldr (\<lambda>x n. max (g x) n) xs b"
proof (induction xs)
  case (Cons a xs)
  then show ?case using max.mono [of "f a" "g a"] by simp
qed simp

lemma nesting_redactValue: "nesting (redactValue ul v) \<le> nesting v"
proof (induction v rule: Value_induct)
  case (scalar v)
  then show ?case by (simp add: redactValue_scalar)
next
  case (slice vs)
  then show ?case by (simp add: foldr_map comp_def foldr_max_mono)
next
  case (map es)
  then show ?case
    by (auto simp: foldr_map comp_def redacted_small intro!: foldr_max_mono)
qed

lemma validateMap_spec:
  "validateMap es = None \<longleftrightarrow>
     (\<forall>e\<in>set es. length (fst e) \<le> mib \<and> nesting (snd e) \<le> 16 \<and> sized (snd e))"
  by (simp add: validateMap_def validateMapAtDepth_def validate_spec)

lemma validateMap_redactMap: "validateMap es = None \<Longrightarrow> validateMap (redactMap ul es) = None"
  using nesting_redactValue order_trans
  by (fastforce simp: validateMap_spec redactMap_def redacted_small sized_redactValue)

text \<open>
  C9. Redaction leaves no value under a sensitive key, at any depth of maps and arrays; it
  keeps all keys in their order, changes a map exactly when it is not clean (so redacting
  twice is redacting once), and never turns an accepted map into one that validation rejects.
\<close>

theorem redactMap_cleans:
  "clean ul (VMap (redactMap ul es)) \<and> map fst (redactMap ul es) = map fst es \<and>
   (redactMap ul es = es \<longleftrightarrow> clean ul (VMap es)) \<and>
   (validateMap es = None \<longrightarrow> validateMap (redactMap ul es) = None)"
proof (intro conjI impI)
  show "clean ul (VMap (redactMap ul es))"
    unfolding redactMap_VMap by (rule redactValue_clean)
  show "map fst (redactMap ul es) = map fst es"
    by (simp add: redactMap_def)
  show "redactMap ul es = es \<longleftrightarrow> clean ul (VMap es)"
    by (metis Value.inject(7) clean_redactValue redactMap_VMap redactValue_clean)
qed (rule validateMap_redactMap)

theorem redactMap_cleans_witness:
  "validateMap [(''user'', VMap [(''db_password'', VStr ''hunter2'')])] = None \<and>
   redactMap (\<lambda>s. s) [(''user'', VMap [(''db_password'', VStr ''hunter2'')])] =
     [(''user'', VMap [(''db_password'', VStr ''[REDACTED]'')])] \<and>
   validateMap (redactMap (\<lambda>s. s) [(''user'', VMap [(''db_password'', VStr ''hunter2'')])]) = None"
proof -
  let ?es = "[(''user'', VMap [(''db_password'', VStr ''hunter2'')])]"
  have "validateMap ?es = None" by (simp add: validateMap_spec)
  moreover have "redactMap (\<lambda>s. s) ?es = [(''user'', VMap [(''db_password'', VStr ''[REDACTED]'')])]"
    by code_simp
  ultimately show ?thesis using redactMap_cleans [of "\<lambda>s. s" ?es] by simp
qed

section \<open>Secrets do not reach the stored form\<close>

lemma public_eq_redactValue: "redactValue ul v = redactValue ul w \<longleftrightarrow> public_eq ul v w"
proof (induction v arbitrary: w rule: Value_induct)
  case (scalar v)
  then show ?case by (cases v; cases w) auto
next
  case (slice vs)
  then show ?case by (cases w) (auto simp: map_eq_map_iff cong: list_all2_congL)
next
  case (map es)
  have entry: "(fst e, if isSensitiveKey ul (fst e) then redacted else redactValue ul (snd e)) =
      (fst f, if isSensitiveKey ul (fst f) then redacted else redactValue ul (snd f)) \<longleftrightarrow>
      fst e = fst f \<and> (isSensitiveKey ul (fst e) \<or> public_eq ul (snd e) (snd f))"
    if "e \<in> set es" for e f
    using that map.IH [of "fst e" "snd e" "snd f"] by auto
  show ?case
  proof (cases w)
    case (VMap fs)
    show ?thesis
      unfolding VMap redactValue.simps public_eq.simps Value.inject map_eq_map_iff
      by (rule list_all2_congL, rule entry)
  qed auto
qed

text \<open>
  C6. The redacted form of a map determines exactly its public part: two maps have the same
  redacted form if and only if they differ at most in what stands under sensitive keys. So
  nothing computed from the redacted form (payload, fingerprint, stored columns) depends on a
  secret, and nothing public is lost.
\<close>

theorem redactMap_noninterference:
  "redactMap ul es = redactMap ul fs \<longleftrightarrow> public_eq ul (VMap es) (VMap fs)"
  using public_eq_redactValue [of ul "VMap es" "VMap fs"]
  unfolding redactMap_VMap [symmetric] by simp

end
