(* ===== verification/QueryBuild.thy ===== *)
theory QueryBuild
  imports GoText
begin

text \<open>
  The built-in queries (\<^verbatim>\<open>internal/query/otel.go\<close>, \<^verbatim>\<open>statements.go\<close>,
  \<^verbatim>\<open>spans.go\<close>, \<^verbatim>\<open>metrics.go\<close>): filters become a WHERE clause with one
  placeholder per bound value, and each command adds its projection. The parsers of the Go
  standard library for durations, timestamps, JSON scalars and floats are parameters.
\<close>

section \<open>Filters, parsers and bound values\<close>

record Filters =
  Service :: string
  Since :: string
  Until :: string
  TimeBasis :: string
  Level :: string
  Name :: string
  Scope :: string
  ScopeVersion :: string
  TraceID :: string
  SpanID :: string
  Kind :: string
  Status :: string
  MinDuration :: string
  MetricType :: string
  Temporality :: string
  ResourceID :: string
  Resource :: "string list"
  Attribute :: "string list"
  Payload :: bool

datatype scalar = ScString string | ScBool bool | ScNumber string | ScOther

text \<open>
  \<open>time.ParseDuration\<close> in nanoseconds, \<open>time.Parse(time.RFC3339Nano, _)\<close> as
  nanoseconds since the epoch, a text as one JSON value (nothing when it is not valid JSON),
  and \<open>strconv.ParseFloat\<close>.
\<close>

record parsers =
  ps_duration :: "string \<Rightarrow> int option"
  ps_time :: "string \<Rightarrow> int option"
  ps_json :: "string \<Rightarrow> scalar option"
  ps_float :: "string \<Rightarrow> 64 word option"

datatype arg = ArgInt int | ArgText string | ArgBytes string | ArgBool bool | ArgReal "64 word"

type_synonym clause = "string \<times> arg list"

section \<open>Paths of the stored envelopes\<close>

definition logResource :: string where
  "logResource = ''$.resourceLogs[0]''"

definition logScope :: string where
  "logScope = logResource @ ''.scopeLogs[0]''"

definition logRecord :: string where
  "logRecord = logScope @ ''.logRecords[0]''"

definition spanResource :: string where
  "spanResource = ''$.resourceSpans[0]''"

definition spanScope :: string where
  "spanScope = spanResource @ ''.scopeSpans[0]''"

definition spanRecord :: string where
  "spanRecord = spanScope @ ''.spans[0]''"

definition metricResource :: string where
  "metricResource = ''$.resourceMetrics[0]''"

definition metricScope :: string where
  "metricScope = metricResource @ ''.scopeMetrics[0]''"

definition metricRecord :: string where
  "metricRecord = metricScope @ ''.metrics[0]''"

lemmas path_defs = logResource_def logScope_def logRecord_def spanResource_def spanScope_def
  spanRecord_def metricResource_def metricScope_def metricRecord_def

definition extract_path :: "string \<Rightarrow> string" where
  "extract_path path = ''json_extract(payload_json,'' @ [squote] @ path @ [squote] @ '')''"

definition textField :: "string \<Rightarrow> string" where
  "textField path = ''COALESCE('' @ extract_path path @ '','' @ [squote, squote] @ '')''"

definition arrayField :: "string \<Rightarrow> string" where
  "arrayField path = ''COALESCE('' @ extract_path path @ '','' @ [squote] @ ''[]'' @ [squote] @ '')''"

definition otelContext :: "string \<Rightarrow> string \<Rightarrow> string" where
  "otelContext resource scope =
     arrayField (resource @ ''.resource.attributes'') @ '' AS resource_attributes, '' @
     textField (resource @ ''.schemaUrl'') @ '' AS resource_schema_url, '' @
     textField (scope @ ''.scope.name'') @ '' AS scope_name, '' @
     textField (scope @ ''.scope.version'') @ '' AS scope_version, '' @
     arrayField (scope @ ''.scope.attributes'') @ '' AS scope_attributes, '' @
     textField (scope @ ''.schemaUrl'') @ '' AS scope_schema_url''"

section \<open>Time bounds, identifiers and attribute filters\<close>

definition max_int64 :: int where
  "max_int64 = 2 ^ 63 - 1"

definition cutoff :: "parsers \<Rightarrow> string \<Rightarrow> int \<Rightarrow> int result" where
  "cutoff p since now =
     (case ps_duration p since of
        Some v \<Rightarrow>
          if v \<le> 0 then Inl (Msg ''since duration must be positive'') else Inr (wrap64 (now - v))
      | None \<Rightarrow>
          (case ps_time p since of
             None \<Rightarrow> Inl (Msg ''since must be a positive duration or RFC3339 timestamp'')
           | Some v \<Rightarrow>
               if v < 0 \<or> v > max_int64
               then Inl (Msg ''since timestamp is outside the supported range'') else Inr v))"

text \<open>\<open>hex.DecodeString\<close>, the length, and not only zeros.\<close>

definition decodeID :: "string \<Rightarrow> string \<Rightarrow> nat \<Rightarrow> string result" where
  "decodeID v name len =
     (case hex_decode v of
        Some decoded \<Rightarrow>
          if length decoded \<noteq> len \<or> list_all (\<lambda>c. c = CHR ''0'') v
          then Inl (Msg (name @ '' must be '' @ show_nat (len * 2) @
            '' hexadecimal digits and nonzero''))
          else Inr decoded
      | None \<Rightarrow> Inl (Msg (name @ '' must be '' @ show_nat (len * 2) @
          '' hexadecimal digits and nonzero'')))"

definition attribute_value :: "parsers \<Rightarrow> string \<Rightarrow> (string \<times> arg) result" where
  "attribute_value p v =
     (case ps_json p v of
        None \<Rightarrow> Inr (''stringValue'', ArgText v)
      | Some (ScString s) \<Rightarrow> Inr (''stringValue'', ArgText s)
      | Some (ScBool b) \<Rightarrow> Inr (''boolValue'', ArgBool b)
      | Some (ScNumber n) \<Rightarrow>
          if list_ex (\<lambda>c. c \<in> set ''.eE'') n
          then (case ps_float p n of
                  None \<Rightarrow> Inl (Msg ''invalid double attribute value'')
                | Some r \<Rightarrow> Inr (''doubleValue'', ArgReal r))
          else (case parse_int n of
                  None \<Rightarrow> Inl (Msg ''integer attribute value is outside int64 range'')
                | Some i \<Rightarrow> Inr (''intValue'', ArgInt i))
      | Some ScOther \<Rightarrow>
          Inl (Msg ''attribute filters support strings, numbers, and booleans''))"

definition attribute_clause :: "string \<Rightarrow> string \<Rightarrow> string" where
  "attribute_clause column field =
     (let expr = ''json_extract(a.value,'' @ [squote] @ ''$.value.'' @ field @ [squote] @ '')'';
          expr = (if field = ''intValue'' then ''CAST('' @ expr @ '' AS INTEGER)'' else expr)
      in ''EXISTS (SELECT 1 FROM json_each('' @ column @
         '') a WHERE json_extract(a.value,'' @ [squote] @ ''$.key'' @ [squote] @ '')=? AND '' @ expr @ ''=?)'')"

definition attributeFilter :: "parsers \<Rightarrow> string \<Rightarrow> string \<Rightarrow> clause result" where
  "attributeFilter p column filt =
     (case cut CHR ''='' filt of
        None \<Rightarrow> Inl (Msg ''attribute filter must use KEY=VALUE'')
      | Some (k, v) \<Rightarrow>
          if k = [] then Inl (Msg ''attribute filter must use KEY=VALUE'')
          else if length filt > 4096 then Inl (Msg ''attribute filter exceeds 4096 bytes'')
          else (case attribute_value p v of
                  Inl e \<Rightarrow> Inl e
                | Inr (field, bound) \<Rightarrow>
                    Inr (attribute_clause column field, [ArgText k, bound])))"

text \<open>The loop over one group of attribute filters, extending the clause.\<close>

fun attribute_filters :: "parsers \<Rightarrow> string \<Rightarrow> string list \<Rightarrow> clause \<Rightarrow> clause result" where
  "attribute_filters p column [] cl = Inr cl"
| "attribute_filters p column (v # vs) cl =
     (case attributeFilter p column v of
        Inl e \<Rightarrow> Inl e
      | Inr (c, bs) \<Rightarrow>
          attribute_filters p column vs (fst cl @ '' AND '' @ c, snd cl @ bs))"

text \<open>An optional clause: nothing when the value is empty.\<close>

definition and_when :: "string \<Rightarrow> string \<Rightarrow> arg \<Rightarrow> clause \<Rightarrow> clause" where
  "and_when v c b cl = (if v = [] then cl else (fst cl @ '' AND '' @ c, snd cl @ [b]))"

definition and_id :: "string \<Rightarrow> string \<Rightarrow> nat \<Rightarrow> clause \<Rightarrow> clause result" where
  "and_id v column len cl =
     (if v = [] then Inr cl
      else (case decodeID v column len of
              Inl e \<Rightarrow> Inl e
            | Inr i \<Rightarrow> Inr (fst cl @ '' AND '' @ column @ ''=?'', snd cl @ [ArgBytes i])))"

text \<open>A value that must be one of a fixed list, bound as the number the list gives it.\<close>

definition and_code ::
    "string \<Rightarrow> string \<Rightarrow> string \<Rightarrow> (string \<times> int) list \<Rightarrow> string \<Rightarrow> clause \<Rightarrow> clause result" where
  "and_code v k c table msg cl =
     (if v = [] then Inr cl
      else (case map_of table k of
              None \<Rightarrow> Inl (Msg msg)
            | Some n \<Rightarrow> Inr (fst cl @ '' AND '' @ c, snd cl @ [ArgInt n])))"

definition time_field :: "string \<Rightarrow> string \<Rightarrow> string result" where
  "time_field basis eventColumn =
     (if basis = [] \<or> basis = ''received'' then Inr ''received_at_unix_nano''
      else if basis = ''event'' then Inr eventColumn
      else Inl (Msg ''time must be received or event''))"

definition until_clause :: "parsers \<Rightarrow> string \<Rightarrow> string \<Rightarrow> int \<Rightarrow> clause \<Rightarrow> clause result" where
  "until_clause p until field since cl =
     (if until = [] then Inr cl
      else (case ps_time p until of
              None \<Rightarrow> Inl (Msg ''until must be an RFC3339 timestamp in the supported range'')
            | Some e \<Rightarrow>
                if e < 0 \<or> e > max_int64
                then Inl (Msg ''until must be an RFC3339 timestamp in the supported range'')
                else if e \<le> since then Inl (Msg ''until must be after since'')
                else Inr (fst cl @ '' AND '' @ field @ ''<?'', snd cl @ [ArgInt e])))"

definition otelWhere :: "parsers \<Rightarrow> Filters \<Rightarrow> int \<Rightarrow> string \<Rightarrow> clause result" where
  "otelWhere p f now eventColumn =
     (case time_field (TimeBasis f) eventColumn of
        Inl e \<Rightarrow> Inl e
      | Inr field \<Rightarrow>
     (case cutoff p (Since f) now of
        Inl e \<Rightarrow> Inl e
      | Inr since \<Rightarrow>
     (case until_clause p (Until f) field since (field @ ''>=?'', [ArgInt since]) of
        Inl e \<Rightarrow> Inl e
      | Inr cl \<Rightarrow>
          let cl = and_when (Service f) ''service_name=?'' (ArgText (Service f)) cl;
              cl = and_when (Scope f) ''scope_name=?'' (ArgText (Scope f)) cl;
              cl = and_when (ScopeVersion f) ''scope_version=?'' (ArgText (ScopeVersion f)) cl
          in
          if length (Resource f) + length (Attribute f) > 32
          then Inl (Msg ''at most 32 resource and attribute filters are allowed'')
          else (case attribute_filters p ''resource_attributes'' (Resource f) cl of
                  Inl e \<Rightarrow> Inl e
                | Inr cl \<Rightarrow> attribute_filters p ''attributes'' (Attribute f) cl))))"

section \<open>Logs and traces\<close>

definition severities :: "(string \<times> int) list" where
  "severities = [(''trace'', 1), (''debug'', 5), (''info'', 9), (''warn'', 13), (''error'', 17),
     (''fatal'', 21)]"

definition log_columns :: "bool \<Rightarrow> string" where
  "log_columns payload =
      ''id, received_at_unix_nano AS received_at, time_unix_nano AS time, service_name,'' @
      ''\<newline>'' @
      '' severity_number, severity_text, trace_id, span_id, body_json AS body,\<newline>'' @
      '' resource_attributes,resource_schema_url,scope_name,scope_version,scope_attributes,'' @
      ''scope_schema_url,attributes,event_name,observed_time,flags'' @
      (if payload then '',payload_json AS payload'' else [])"

definition log_source :: string where
  "log_source =
     ''SELECT *,'' @ otelContext logResource logScope @ '','' @
     arrayField (logRecord @ ''.attributes'') @ '' AS attributes,'' @
     textField (logRecord @ ''.eventName'') @ '' AS event_name,CAST('' @
     extract_path (logRecord @ ''.observedTimeUnixNano'') @ '' AS INTEGER) AS observed_time,COALESCE('' @
     extract_path (logRecord @ ''.flags'') @ '',0) AS flags FROM otel_logs''"

text \<open>The three builders end alike: the source, the projection and the accumulated clause.\<close>

definition select_from :: "string \<Rightarrow> string \<Rightarrow> string \<Rightarrow> string" where
  "select_from src columns wh =
     ''WITH source AS ('' @ src @ '') SELECT '' @ columns @ '' FROM source WHERE '' @ wh @
     '' ORDER BY id DESC''"

definition log_ids :: "Filters \<Rightarrow> clause \<Rightarrow> clause result" where
  "log_ids f cl =
     (case and_id (TraceID f) ''trace_id'' 16 cl of
        Inl e \<Rightarrow> Inl e
      | Inr cl \<Rightarrow> and_id (SpanID f) ''span_id'' 8 cl)"

definition Logs :: "(string \<Rightarrow> string) \<Rightarrow> parsers \<Rightarrow> Filters \<Rightarrow> int \<Rightarrow> clause result" where
  "Logs ul p f now =
     (case otelWhere p f now ''time_unix_nano'' of
        Inl e \<Rightarrow> Inl e
      | Inr cl \<Rightarrow>
     (case and_code (Level f) (to_lower ul (Level f)) ''severity_number>=?'' severities
         ''level must be trace, debug, info, warn, error, or fatal'' cl of
        Inl e \<Rightarrow> Inl e
      | Inr cl \<Rightarrow>
     (case log_ids f cl of
        Inl e \<Rightarrow> Inl e
      | Inr cl \<Rightarrow>
          Inr (select_from log_source (log_columns (Payload f)) (fst cl), snd cl))))"

definition trace_columns :: "bool \<Rightarrow> string" where
  "trace_columns payload =
      [squote] @ ''span'' @ [squote] @ '' AS kind,id,received_at_unix_nano AS received_at,\<newline>'' @
      '' CASE WHEN start_time_unix_nano=0 THEN received_at_unix_nano ELSE '' @
      ''start_time_unix_nano END AS time,\<newline>'' @
      '' service_name,trace_id,span_id,parent_span_id,name,NULL AS severity_text,\<newline>'' @
      '' start_time_unix_nano AS start_time,end_time_unix_nano AS end_time,NULL AS body,'' @
      ''\<newline>'' @
      '' COALESCE(json_extract(payload_json,'' @
      [squote] @ ''$.resourceSpans[0].scopeSpans[0].spans[0].status.code'' @ [squote] @ ''),0) AS status_code,\<newline>'' @
      '' COALESCE(json_extract(payload_json,'' @
      [squote] @ ''$.resourceSpans[0].scopeSpans[0].spans[0].status.message'' @ [squote] @ ''),'' @ [squote, squote] @ '') AS status_message,'' @
      ''\<newline>'' @
      '' COALESCE(json_extract(payload_json,'' @
      [squote] @ ''$.resourceSpans[0].scopeSpans[0].spans[0].kind'' @ [squote] @ ''),0) AS span_kind,\<newline>'' @
      '' CASE WHEN start_time_unix_nano>0 AND end_time_unix_nano>=start_time_unix_nano THEN '' @
      ''(end_time_unix_nano-start_time_unix_nano)/1000000.0 END AS duration_ms'' @
      '','' @ otelContext spanResource spanScope @ '','' @
      arrayField (spanRecord @ ''.attributes'') @ '' AS attributes,'' @
      arrayField (spanRecord @ ''.events'') @ '' AS events,'' @
      arrayField (spanRecord @ ''.links'') @ '' AS links'' @
      (if payload then '',payload_json AS payload'' else [])"

definition trace_spans :: "bool \<Rightarrow> string" where
  "trace_spans payload = ''SELECT '' @ trace_columns payload"

definition trace_logs :: "bool \<Rightarrow> string" where
  "trace_logs payload =
      ''SELECT '' @ [squote] @ ''log'' @ [squote] @ '',id,received_at_unix_nano,\<newline>'' @
      '' CASE WHEN time_unix_nano=0 THEN received_at_unix_nano ELSE time_unix_nano END,'' @
      ''\<newline>'' @
      '' service_name,trace_id,span_id,NULL,'' @ textField (logRecord @ ''.eventName'') @
      '',severity_text,NULL,NULL,body_json,NULL,NULL,NULL,NULL'' @
      '','' @ otelContext logResource logScope @ '','' @
      arrayField (logRecord @ ''.attributes'') @
      '' AS attributes,'' @ [squote] @ ''[]'' @ [squote] @ '' AS events,'' @ [squote] @ ''[]'' @ [squote] @ '' AS links'' @
      (if payload then '',payload_json AS payload'' else [])"

definition Trace :: "string \<Rightarrow> bool \<Rightarrow> clause result" where
  "Trace i payload =
     (case decodeID i ''trace ID'' 16 of
        Inl e \<Rightarrow> Inl e
      | Inr t \<Rightarrow>
          Inr (''WITH timeline AS ('' @ trace_spans payload @
            ''\<newline> FROM otel_spans WHERE trace_id=? UNION ALL\<newline> '' @ trace_logs payload @
            ''\<newline> FROM otel_logs WHERE trace_id=?'' @
            '') SELECT *, (time-MIN(time) OVER())/1000000.0 AS offset_ms FROM timeline ORDER BY time,kind,id'',
            [ArgBytes t, ArgBytes t]))"

section \<open>Spans and services\<close>

definition span_kinds :: "(string \<times> int) list" where
  "span_kinds = [(''unspecified'', 0), (''internal'', 1), (''server'', 2), (''client'', 3),
     (''producer'', 4), (''consumer'', 5)]"

definition span_statuses :: "(string \<times> int) list" where
  "span_statuses = [(''unset'', 0), (''ok'', 1), (''error'', 2)]"

definition span_columns :: "bool \<Rightarrow> string" where
  "span_columns payload =
      ''id,received_at_unix_nano AS received_at,service_name,trace_id,span_id,parent_span_id,'' @
      ''name,kind,status_code,status_message,\<newline>'' @
      '' start_time_unix_nano AS start_time,end_time_unix_nano AS end_time,\<newline>'' @
      '' CASE WHEN start_time_unix_nano>0 AND end_time_unix_nano>=start_time_unix_nano THEN '' @
      ''(end_time_unix_nano-start_time_unix_nano)/1000000.0 END AS duration_ms,\<newline>'' @
      '' resource_attributes,resource_schema_url,scope_name,scope_version,scope_attributes,'' @
      ''scope_schema_url,attributes,events,links'' @
      (if payload then '',payload_json AS payload'' else [])"

definition span_source :: string where
  "span_source =
     ''SELECT *,'' @ otelContext spanResource spanScope @ '','' @
     arrayField (spanRecord @ ''.attributes'') @ '' AS attributes,'' @
     arrayField (spanRecord @ ''.events'') @ '' AS events,'' @
     arrayField (spanRecord @ ''.links'') @ '' AS links,COALESCE('' @
     extract_path (spanRecord @ ''.kind'') @ '',0) AS kind,COALESCE('' @
     extract_path (spanRecord @ ''.status.code'') @ '',0) AS status_code,'' @
     textField (spanRecord @ ''.status.message'') @ '' AS status_message FROM otel_spans''"

definition min_duration :: "parsers \<Rightarrow> string \<Rightarrow> clause \<Rightarrow> clause result" where
  "min_duration p v cl =
     (if v = [] then Inr cl
      else (case ps_duration p v of
              None \<Rightarrow> Inl (Msg ''min-duration must be a nonnegative duration'')
            | Some d \<Rightarrow>
                if d < 0 then Inl (Msg ''min-duration must be a nonnegative duration'')
                else Inr (fst cl @ '' AND start_time_unix_nano>0 AND end_time_unix_nano>=start_time_unix_nano AND end_time_unix_nano-start_time_unix_nano>=?'',
                  snd cl @ [ArgInt d])))"

definition Spans :: "parsers \<Rightarrow> Filters \<Rightarrow> int \<Rightarrow> clause result" where
  "Spans p f now =
     (case otelWhere p f now ''start_time_unix_nano'' of
        Inl e \<Rightarrow> Inl e
      | Inr cl \<Rightarrow>
     (case log_ids f cl of
        Inl e \<Rightarrow> Inl e
      | Inr cl \<Rightarrow>
     (case and_code (Kind f) (Kind f) ''kind=?'' span_kinds
         ''kind must be unspecified, internal, server, client, producer, or consumer''
         (and_when (Name f) ''name=?'' (ArgText (Name f)) cl) of
        Inl e \<Rightarrow> Inl e
      | Inr cl \<Rightarrow>
     (case and_code (Status f) (Status f) ''status_code=?'' span_statuses
         ''status must be unset, ok, or error'' cl of
        Inl e \<Rightarrow> Inl e
      | Inr cl \<Rightarrow>
     (case min_duration p (MinDuration f) cl of
        Inl e \<Rightarrow> Inl e
      | Inr cl \<Rightarrow>
          Inr (select_from span_source (span_columns (Payload f)) (fst cl), snd cl))))))"

record source =
  so_table :: string
  so_resource :: string
  so_scope :: string
  so_event :: string
  so_signal :: string
  so_index :: string

definition service_sources :: "source list" where
  "service_sources =
     [\<lparr>so_table = ''otel_logs'', so_resource = logResource, so_scope = logScope,
        so_event = ''time_unix_nano'', so_signal = ''logs'', so_index = ''idx_logs_received''\<rparr>,
      \<lparr>so_table = ''otel_spans'', so_resource = spanResource, so_scope = spanScope,
        so_event = ''start_time_unix_nano'', so_signal = ''spans'', so_index = ''idx_spans_received''\<rparr>,
      \<lparr>so_table = ''otel_metric_points'', so_resource = metricResource, so_scope = metricScope,
        so_event = ''time_unix_nano'', so_signal = ''metric_points'',
        so_index = ''idx_metric_points_received''\<rparr>]"

definition signal_counts :: "string \<Rightarrow> string" where
  "signal_counts signal =
     concat (map (\<lambda>n. if n = signal then '',COUNT(*) AS '' @ n else '',0 AS '' @ n)
       [''logs'', ''spans'', ''metric_points''])"

definition service_select :: "Filters \<Rightarrow> source \<Rightarrow> string \<Rightarrow> string" where
  "service_select f s wh =
     ''SELECT service_name'' @ signal_counts (so_signal s) @
     '',MAX(received_at_unix_nano) AS last_received_at FROM (SELECT *,'' @
     otelContext (so_resource s) (so_scope s) @ '' FROM '' @ so_table s @
     (if TimeBasis f = [] \<or> TimeBasis f = ''received'' then '' INDEXED BY '' @ so_index s else []) @
     '') WHERE '' @ wh @ '' GROUP BY service_name''"

fun service_union :: "parsers \<Rightarrow> Filters \<Rightarrow> int \<Rightarrow> bool \<Rightarrow> source list \<Rightarrow> clause \<Rightarrow> clause result" where
  "service_union p f now later [] cl = Inr cl"
| "service_union p f now later (s # ss) cl =
     (case otelWhere p f now (so_event s) of
        Inl e \<Rightarrow> Inl e
      | Inr (wh, args) \<Rightarrow>
          service_union p f now True ss
            (fst cl @ (if later then '' UNION ALL '' else []) @ service_select f s wh,
             snd cl @ args))"

definition Services :: "parsers \<Rightarrow> Filters \<Rightarrow> int \<Rightarrow> clause result" where
  "Services p f now =
     (case service_union p f now False service_sources (''WITH source AS ('', []) of
        Inl e \<Rightarrow> Inl e
      | Inr cl \<Rightarrow>
          Inr (fst cl @ '') SELECT service_name,SUM(logs) AS logs,SUM(spans) AS spans,SUM(metric_points) AS metric_points,MAX(last_received_at) AS last_received_at FROM source GROUP BY service_name ORDER BY service_name'',
            snd cl))"

section \<open>Metrics\<close>

definition metricIdentity :: string where
  "metricIdentity = ''service_name,resource_attributes,resource_schema_url,scope_name,scope_version,'' @
     ''scope_attributes,scope_schema_url,metric_name,metric_type,unit,temporality,monotonic''"

definition seriesIdentity :: string where
  "seriesIdentity = metricIdentity @ '',attributes''"

definition metricSource :: string where
  "metricSource =
      ''WITH envelopes AS (SELECT *,'' @ otelContext metricResource metricScope @ '','' @ extract_path metricRecord @
      '' AS metric FROM otel_metric_points),\<newline>'' @
      '' data AS (SELECT *,logal_resource_id(resource_attributes,'' @
      ''resource_schema_url) AS resource_id,\<newline>'' @
      '' CASE metric_type WHEN '' @ [squote] @ ''exponential_histogram'' @ [squote] @ '' THEN '' @ [squote] @ ''exponentialHistogram'' @ [squote] @ '' ELSE '' @
      ''metric_type END AS data_key FROM envelopes),\<newline>'' @
      '' projected AS (SELECT *,json_extract(metric,'' @
      [squote] @ ''$.'' @ [squote] @ ''||data_key||'' @ [squote] @ ''.dataPoints[0]'' @ [squote] @ '') AS point,\<newline>'' @
      '' COALESCE(json_extract(metric,'' @ [squote] @ ''$.unit'' @ [squote] @ ''),'' @ [squote, squote] @ '') AS unit,COALESCE(json_extract(metric,'' @
      [squote] @ ''$.description'' @ [squote] @ ''),'' @ [squote, squote] @ '') AS description,\<newline>'' @
      '' CASE WHEN metric_type IN ('' @ [squote] @ ''gauge'' @ [squote] @ '','' @ [squote] @ ''summary'' @ [squote] @ '') THEN '' @ [squote] @ ''unspecified'' @ [squote] @ '' ELSE\<newline>'' @
      '' CASE COALESCE(json_extract(metric,'' @ [squote] @ ''$.'' @ [squote] @ ''||data_key||'' @ [squote] @ ''.aggregationTemporality'' @ [squote] @ ''),'' @
      ''0) WHEN 1 THEN '' @ [squote] @ ''delta'' @ [squote] @ '' WHEN 2 THEN '' @ [squote] @ ''cumulative'' @ [squote] @ '' ELSE '' @ [squote] @ ''unspecified'' @ [squote] @ '' END END AS '' @
      ''temporality,\<newline>'' @
      '' CASE WHEN metric_type='' @ [squote] @ ''sum'' @ [squote] @ '' THEN COALESCE(json_extract(metric,'' @
      [squote] @ ''$.sum.isMonotonic'' @ [squote] @ ''),0) END AS monotonic FROM data),\<newline>'' @
      '' expanded AS (SELECT *,COALESCE(json_extract(point,'' @ [squote] @ ''$.attributes'' @ [squote] @ ''),'' @
      [squote] @ ''[]'' @ [squote] @ '') AS attributes,\<newline>'' @
      '' COALESCE(json_extract(point,'' @ [squote] @ ''$.flags'' @ [squote] @ ''),0) AS flags,COALESCE(json_extract(point,'' @
      [squote] @ ''$.exemplars'' @ [squote] @ ''),'' @ [squote] @ ''[]'' @ [squote] @ '') AS exemplars,\<newline>'' @
      '' COALESCE(json_extract(point,'' @ [squote] @ ''$.bucketCounts'' @ [squote] @ ''),'' @ [squote] @ ''[]'' @ [squote] @ '') AS bucket_counts,'' @
      ''COALESCE(json_extract(point,'' @ [squote] @ ''$.explicitBounds'' @ [squote] @ ''),'' @ [squote] @ ''[]'' @ [squote] @ '') AS explicit_bounds,\<newline>'' @
      '' json_extract(point,'' @ [squote] @ ''$.scale'' @ [squote] @ '') AS scale,json_extract(point,'' @
      [squote] @ ''$.zeroCount'' @ [squote] @ '') AS zero_count,json_extract(point,'' @
      [squote] @ ''$.zeroThreshold'' @ [squote] @ '') AS zero_threshold,\<newline>'' @
      '' json_extract(point,'' @ [squote] @ ''$.positive'' @ [squote] @ '') AS positive,json_extract(point,'' @
      [squote] @ ''$.negative'' @ [squote] @ '') AS negative,\<newline>'' @
      '' COALESCE(json_extract(point,'' @ [squote] @ ''$.quantileValues'' @ [squote] @ ''),'' @
      [squote] @ ''[]'' @ [squote] @ '') AS quantile_values FROM projected)''"

definition rate_columns :: "bool \<Rightarrow> string" where
  "rate_columns payload =
      ''id,received_at_unix_nano AS received_at,time_unix_nano AS time,'' @
      ''start_time_unix_nano AS start_time,resource_id,'' @ seriesIdentity @
      '',\<newline>'' @
      '' value,flags,interval_start,time_unix_nano AS interval_end,delta_value,\<newline>'' @
      '' CASE WHEN abs(candidate_rate)<=1.7976931348623157e308 THEN candidate_rate END AS '' @
      ''rate_per_second,\<newline>'' @
      '' CASE WHEN abs(candidate_rate)>1.7976931348623157e308 THEN '' @ [squote] @ ''nonfinite_rate'' @ [squote] @ '' ELSE '' @
      ''rate_reason END AS rate_reason,\<newline>'' @
      '' CASE WHEN temporality='' @ [squote] @ ''delta'' @ [squote] @ '' AND previous_time>0 AND '' @
      ''start_time_unix_nano>previous_time THEN '' @
      ''(start_time_unix_nano-previous_time)/1000000000.0 END AS gap_seconds'' @
      (if payload then '',payload_json AS payload'' else [])"

definition metricRates :: "bool \<Rightarrow> string" where
  "metricRates payload =
      '', values_for_rate AS (SELECT *,COALESCE(number_int,number_double) AS value,\<newline>'' @
      '' COUNT(*) OVER (PARTITION BY '' @ seriesIdentity @
      '',time_unix_nano) AS same_time FROM selected),\<newline>'' @
      '' ordered AS (SELECT *,\<newline>'' @
      '' LAG(time_unix_nano) OVER series AS previous_time,'' @
      ''LAG(start_time_unix_nano) OVER series AS previous_start,\<newline>'' @
      '' LAG(value) OVER series AS previous_value,LAG(flags) OVER series AS previous_flags,'' @
      ''LAG(same_time) OVER series AS previous_same_time\<newline>'' @
      '' FROM values_for_rate WINDOW series AS (PARTITION BY '' @ seriesIdentity @
      '' ORDER BY time_unix_nano,id)),\<newline>'' @
      '' checked AS (SELECT *,CASE\<newline>'' @
      '' WHEN metric_type!='' @ [squote] @ ''sum'' @ [squote] @ '' OR monotonic!=1 THEN '' @ [squote] @ ''not_monotonic_sum'' @ [squote] @ ''\<newline>'' @
      '' WHEN temporality NOT IN ('' @ [squote] @ ''delta'' @ [squote] @ '','' @
      [squote] @ ''cumulative'' @ [squote] @ '') THEN '' @ [squote] @ ''unspecified_temporality'' @ [squote] @ ''\<newline>'' @
      '' WHEN (flags & 1)!=0 THEN '' @ [squote] @ ''no_recorded_value'' @ [squote] @ ''\<newline>'' @
      '' WHEN value IS NULL THEN '' @ [squote] @ ''missing_or_nonfinite_value'' @ [squote] @ ''\<newline>'' @
      '' WHEN value<0 THEN '' @ [squote] @ ''negative_monotonic_sum'' @ [squote] @ ''\<newline>'' @
      '' WHEN time_unix_nano=0 OR start_time_unix_nano=0 THEN '' @ [squote] @ ''missing_timestamp'' @ [squote] @ ''\<newline>'' @
      '' WHEN start_time_unix_nano>time_unix_nano THEN '' @ [squote] @ ''invalid_interval'' @ [squote] @ ''\<newline>'' @
      '' WHEN same_time>1 THEN '' @ [squote] @ ''ambiguous_timestamp'' @ [squote] @ ''\<newline>'' @
      '' WHEN start_time_unix_nano=time_unix_nano THEN '' @ [squote] @ ''zero_duration'' @ [squote] @ ''\<newline>'' @
      '' WHEN temporality='' @ [squote] @ ''delta'' @ [squote] @ '' AND previous_time>start_time_unix_nano THEN '' @
      [squote] @ ''overlapping_interval'' @ [squote] @ ''\<newline>'' @
      '' WHEN temporality='' @ [squote] @ ''cumulative'' @ [squote] @ '' AND previous_time IS NULL THEN '' @
      [squote] @ ''no_baseline'' @ [squote] @ ''\<newline>'' @
      '' WHEN temporality='' @ [squote] @ ''cumulative'' @ [squote] @ '' AND previous_same_time>1 THEN '' @
      [squote] @ ''ambiguous_baseline'' @ [squote] @ ''\<newline>'' @
      '' WHEN temporality='' @ [squote] @ ''cumulative'' @ [squote] @ '' AND (previous_value IS NULL OR previous_value<0 OR '' @
      ''(previous_flags & 1)!=0) THEN '' @ [squote] @ ''no_baseline'' @ [squote] @ ''\<newline>'' @
      '' WHEN temporality='' @ [squote] @ ''cumulative'' @ [squote] @ '' AND previous_start!=start_time_unix_nano THEN '' @
      [squote] @ ''reset'' @ [squote] @ ''\<newline>'' @
      '' WHEN temporality='' @ [squote] @ ''cumulative'' @ [squote] @ '' AND previous_time<start_time_unix_nano THEN '' @
      [squote] @ ''invalid_baseline'' @ [squote] @ ''\<newline>'' @
      '' WHEN temporality='' @ [squote] @ ''cumulative'' @ [squote] @ '' AND value<previous_value THEN '' @
      [squote] @ ''counter_decreased'' @ [squote] @ ''\<newline>'' @
      '' END AS rate_reason FROM ordered),\<newline>'' @
      '' intervals AS (SELECT *,CASE WHEN rate_reason IS NULL THEN\<newline>'' @
      '' CASE temporality WHEN '' @ [squote] @ ''delta'' @ [squote] @ '' THEN start_time_unix_nano ELSE previous_time END END '' @
      ''AS interval_start,\<newline>'' @
      '' CASE WHEN rate_reason IS NULL THEN CASE temporality WHEN '' @ [squote] @ ''delta'' @ [squote] @ '' THEN value ELSE '' @
      ''value-previous_value END END AS delta_value\<newline>'' @
      '' FROM checked), calculated AS (SELECT *,'' @
      ''delta_value/((time_unix_nano-interval_start)/1000000000.0) AS candidate_rate FROM '' @
      ''intervals)\<newline>'' @
      '' SELECT '' @ rate_columns payload @
      '' FROM calculated ORDER BY time_unix_nano DESC,id DESC''"

text \<open>A value that must be one of a list and is bound as it is.\<close>

definition and_member ::
    "string \<Rightarrow> string \<Rightarrow> string list \<Rightarrow> string \<Rightarrow> clause \<Rightarrow> clause result" where
  "and_member v c allowed msg cl =
     (if v = [] then Inr cl
      else if v \<in> set allowed then Inr (fst cl @ '' AND '' @ c, snd cl @ [ArgText v])
      else Inl (Msg msg))"

definition and_resource_id :: "(string \<Rightarrow> string) \<Rightarrow> string \<Rightarrow> clause \<Rightarrow> clause result" where
  "and_resource_id ul v cl =
     (if v = [] then Inr cl
      else (case hex_decode v of
              Some i \<Rightarrow>
                if length i \<noteq> 16
                then Inl (Msg ''resource-id must be 32 hexadecimal digits from metric output'')
                else Inr (fst cl @ '' AND resource_id=?'', snd cl @ [ArgText (to_lower ul v)])
            | None \<Rightarrow> Inl (Msg ''resource-id must be 32 hexadecimal digits from metric output'')))"

definition metric_where :: "(string \<Rightarrow> string) \<Rightarrow> parsers \<Rightarrow> Filters \<Rightarrow> int \<Rightarrow> clause result" where
  "metric_where ul p f now =
     (case otelWhere p f now ''time_unix_nano'' of
        Inl e \<Rightarrow> Inl e
      | Inr cl \<Rightarrow>
     (case and_resource_id ul (ResourceID f)
         (and_when (Name f) ''metric_name=?'' (ArgText (Name f)) cl) of
        Inl e \<Rightarrow> Inl e
      | Inr cl \<Rightarrow>
     (case and_member (MetricType f) ''metric_type=?''
         [''gauge'', ''sum'', ''histogram'', ''exponential_histogram'', ''summary'']
         ''type must be gauge, sum, histogram, exponential_histogram, or summary'' cl of
        Inl e \<Rightarrow> Inl e
      | Inr cl \<Rightarrow>
          and_member (Temporality f) ''temporality=?'' [''delta'', ''cumulative'', ''unspecified'']
            ''temporality must be delta, cumulative, or unspecified'' cl)))"

definition point_columns :: "bool \<Rightarrow> string" where
  "point_columns payload =
      ''id,received_at_unix_nano AS received_at,time_unix_nano AS time,'' @
      ''start_time_unix_nano AS start_time,resource_id,'' @ seriesIdentity @
      '',description,flags,\<newline>'' @
      '' number_kind,number_int,number_double,aggregate_count,aggregate_sum,aggregate_min,'' @
      ''aggregate_max,\<newline>'' @
      '' bucket_counts,explicit_bounds,scale,zero_count,zero_threshold,positive,negative,'' @
      ''quantile_values,exemplars'' @
      (if payload then '',payload_json AS payload'' else [])"

definition discovery_identity :: "string \<Rightarrow> string" where
  "discovery_identity view = (if view = ''series'' then seriesIdentity else metricIdentity)"

definition discovery_columns :: "string \<Rightarrow> string" where
  "discovery_columns view =
      ''resource_id,'' @ discovery_identity view @
      (if view = ''series'' then [] else '',COUNT(DISTINCT attributes) AS series_count'') @
      '',COUNT(*) AS point_count,\<newline>'' @
      '' SUM((flags & 1)!=0) AS no_recorded_value_count,MIN(time_unix_nano) AS first_time,'' @
      ''MAX(time_unix_nano) AS last_time,\<newline>'' @
      '' MAX(received_at_unix_nano) AS last_received_at''"

definition discovery_select :: "string \<Rightarrow> string" where
  "discovery_select view =
      ''SELECT '' @ discovery_columns view @ '' FROM selected GROUP BY '' @ discovery_identity view @
      '' ORDER BY '' @ discovery_identity view"

definition MetricQuery ::
    "(string \<Rightarrow> string) \<Rightarrow> parsers \<Rightarrow> Filters \<Rightarrow> int \<Rightarrow> string \<Rightarrow> clause result" where
  "MetricQuery ul p f now view =
     (case metric_where ul p f now of
        Inl e \<Rightarrow> Inl e
      | Inr cl \<Rightarrow>
          let src = metricSource @ '', selected AS (SELECT * FROM expanded WHERE '' @ fst cl @ '') ''
          in
          if view = ''points''
          then Inr (src @ ''SELECT '' @ point_columns (Payload f) @ '' FROM selected ORDER BY id DESC'',
                 snd cl)
          else if view = ''list'' \<or> view = ''series''
          then if Payload f
               then Inl (Msg ''--payload is available for metric points and rates, not discovery summaries'')
               else Inr (src @ discovery_select view, snd cl)
          else if view = ''rate''
          then if trim_space (Name f) = []
               then Inl (Msg ''metrics rate requires --name to select an OTLP metric'')
               else Inr (src @ metricRates (Payload f), snd cl)
          else Inl (Msg (''unknown metrics view '' @ go_quote view)))"

section \<open>The statement of a command\<close>

text \<open>
  The switch of \<open>queryAction\<close> (\<^verbatim>\<open>cmd/logal/query.go\<close>);
  \<open>sqlText\<close> is what \<open>readSQL\<close> returned.
\<close>

definition command_statement ::
    "(string \<Rightarrow> string) \<Rightarrow> parsers \<Rightarrow> string \<Rightarrow> string \<Rightarrow> Filters \<Rightarrow> string list \<Rightarrow> int
      \<Rightarrow> string result \<Rightarrow> clause result" where
  "command_statement ul p name view f posargs now sqlText =
     (if name = ''logs'' then Logs ul p f now
      else if name = ''spans'' then Spans p f now
      else if name = ''services'' then Services p f now
      else if name = ''metrics'' then MetricQuery ul p f now view
      else if name = ''trace'' then
        (case posargs of
           [i] \<Rightarrow> Trace i (Payload f)
         | _ \<Rightarrow> Inl (Msg ''trace requires exactly one trace ID''))
      else if name = ''sql'' then
        (case sqlText of Inl e \<Rightarrow> Inl e | Inr st \<Rightarrow> Inr (st, []))
      else Inr ([], []))"

end
