(* ===== verification/QueryColumns.thy ===== *)
theory QueryColumns
  imports QueryBuild
begin

text \<open>
  The catalog of output columns (\<open>OutputColumns\<close> in
  \<^verbatim>\<open>internal/query/columns.go\<close>) and the columns of the human summaries
  (\<open>summaryColumns\<close> in \<^verbatim>\<open>cmd/logal/presentation.go\<close>), against the
  projections of the SQL the commands run.
\<close>

section \<open>The catalogs\<close>

definition context_columns :: string where
  "context_columns = ''resource_attributes,resource_schema_url,scope_name,scope_version,scope_attributes,scope_schema_url,attributes''"

definition metric_view_columns :: "string \<Rightarrow> bool \<Rightarrow> string result" where
  "metric_view_columns view payload =
     (if view = ''points'' then
        Inr (''id,received_at,time,start_time,resource_id,'' @ seriesIdentity @
          '',description,flags,number_kind,number_int,number_double,aggregate_count,aggregate_sum,aggregate_min,aggregate_max,bucket_counts,explicit_bounds,scale,zero_count,zero_threshold,positive,negative,quantile_values,exemplars'')
      else if view = ''rate'' then
        Inr (''id,received_at,time,start_time,resource_id,'' @ seriesIdentity @
          '',value,flags,interval_start,interval_end,delta_value,rate_per_second,rate_reason,gap_seconds'')
      else if view = ''list'' \<or> view = ''series'' then
        (if payload
         then Inl (Msg ''--payload is available for metric points and rates, not discovery summaries'')
         else Inr (''resource_id,'' @ metricIdentity @
           (if view = ''list'' then '',series_count'' else '',attributes'') @
           '',point_count,no_recorded_value_count,first_time,last_time,last_received_at''))
      else Inl (Msg (''unknown metrics view '' @ go_quote view)))"

definition command_columns :: "string \<Rightarrow> string \<Rightarrow> bool \<Rightarrow> string result" where
  "command_columns command view payload =
     (if command = ''services''
      then Inr ''service_name,logs,spans,metric_points,last_received_at''
      else if command = ''logs'' then
        Inr (''id,received_at,time,service_name,severity_number,severity_text,trace_id,span_id,body,'' @
          context_columns @ '',event_name,observed_time,flags'')
      else if command = ''spans'' then
        Inr (''id,received_at,service_name,trace_id,span_id,parent_span_id,name,kind,status_code,status_message,start_time,end_time,duration_ms,'' @
          context_columns @ '',events,links'')
      else if command = ''trace'' then
        Inr (''kind,id,received_at,time,service_name,trace_id,span_id,parent_span_id,name,severity_text,start_time,end_time,body,status_code,status_message,span_kind,duration_ms,'' @
          context_columns @ '',events,links'')
      else if command = ''metrics'' then metric_view_columns view payload
      else Inl (Msg (''no built-in columns for '' @ go_quote command)))"

definition OutputColumns :: "string \<Rightarrow> string \<Rightarrow> bool \<Rightarrow> string list result" where
  "OutputColumns command view payload =
     (case command_columns command view payload of
        Inl e \<Rightarrow> Inl e
      | Inr columns \<Rightarrow>
          Inr (split_at CHR '','' (columns @
            (if payload \<and> command \<noteq> ''services'' then '',payload'' else []) @
            (if command = ''trace'' then '',offset_ms'' else []))))"

definition metric_common :: string where
  "metric_common = ''service_name,resource_id,scope_name,metric_name,metric_type,unit,temporality''"

definition summaryColumns :: "string \<Rightarrow> string \<Rightarrow> string list" where
  "summaryColumns command view =
     (if command = ''logs''
      then split_at CHR '','' ''time,service_name,severity_number,body,trace_id,span_id''
      else if command = ''spans''
      then split_at CHR '','' ''start_time,service_name,name,kind,status_code,duration_ms,trace_id,span_id''
      else if command = ''trace''
      then split_at CHR '','' ''offset_ms,duration_ms,service_name,kind,span_kind,name,status_code,status_message,span_id,parent_span_id,body''
      else if command = ''metrics'' then
        (if view = ''list''
         then split_at CHR '','' (metric_common @ '',monotonic,series_count,point_count,last_received_at'')
         else if view = ''series''
         then split_at CHR '','' (metric_common @ '',attributes,point_count,first_time,last_time'')
         else if view = ''rate''
         then split_at CHR '','' ''time,service_name,resource_id,metric_name,unit,attributes,rate_per_second,rate_reason,gap_seconds''
         else split_at CHR '','' (''time,'' @ metric_common @
           '',attributes,number_int,number_double,aggregate_count,aggregate_sum,aggregate_min,aggregate_max,flags''))
      else [])"

section \<open>The names a projection gives its columns\<close>

text \<open>
  The projection is cut at the commas outside parentheses; the name of an item is its last
  word: the alias, or the item itself. The state is the depth, the word so far and the names.
\<close>

fun flip :: "'a list \<Rightarrow> 'a list \<Rightarrow> 'a list" where
  "flip [] ys = ys"
| "flip (x # xs) ys = flip xs (x # ys)"

lemma flip_rev: "flip xs ys = rev xs @ ys"
  by (induction xs arbitrary: ys) simp_all

fun name_step :: "nat \<times> string \<times> string list \<Rightarrow> char \<Rightarrow> nat \<times> string \<times> string list" where
  "name_step (d, w, ns) c =
     (if c = CHR ''('' then (Suc d, w, ns)
      else if c = CHR '')'' then (d - 1, w, ns)
      else if c = CHR '' '' \<or> c = newline then (d, [], ns)
      else if c = CHR '','' \<and> d = 0 then (d, [], flip w [] # ns)
      else (d, c # w, ns))"

definition projection_names :: "string \<Rightarrow> string list" where
  "projection_names s = (case foldl name_step (0, [], []) s of (d, w, ns) \<Rightarrow> flip ns [flip w []])"

text \<open>Names already found are set aside while the rest is evaluated.\<close>

fun onto :: "'a list \<Rightarrow> 'a list \<Rightarrow> 'a list" where
  "onto [] ys = ys"
| "onto (x # xs) ys = x # onto xs ys"

lemma onto_append: "onto xs ys = xs @ ys"
  by (induction xs) simp_all

lemma name_step_aside:
  "foldl name_step (d, w, ns) s =
     (case foldl name_step (d, w, []) s of (d', w', ns') \<Rightarrow> (d', w', ns' @ ns))"
proof (induction s arbitrary: d w ns)
  case (Cons c s)
  show ?case
    by (subst (1 2) foldl_Cons, subst name_step.simps, subst name_step.simps)
      (use Cons.IH [of _ _ "flip w [] # ns"] Cons.IH [of _ _ "[flip w []]"] Cons.IH [of _ _ ns] in
        \<open>auto split: prod.splits\<close>)
qed simp

lemma name_step_eval:
  "foldl name_step (d, w, n # ns) s =
     (case foldl name_step (d, w, []) s of (d', w', ns') \<Rightarrow> (d', w', onto ns' (n # ns)))"
  unfolding onto_append by (rule name_step_aside)

text \<open>\<open>split_at\<close> as a fold, to evaluate it piece by piece.\<close>

fun split_step :: "char \<Rightarrow> string \<times> string list \<Rightarrow> char \<Rightarrow> string \<times> string list" where
  "split_step sep (w, ns) c = (if c = sep then ([], flip w [] # ns) else (c # w, ns))"

lemma split_at_not_Nil [simp]: "split_at sep s \<noteq> []"
  by (cases s) (auto split: list.split)

lemma split_at_fold:
  "(case foldl (split_step sep) (w, ns) s of (w', ns') \<Rightarrow> flip ns' [flip w' []]) =
     rev ns @ (rev w @ hd (split_at sep s)) # List.tl (split_at sep s)"
proof (induction s arbitrary: w ns)
  case (Cons c s)
  then show ?case by (cases "split_at sep s") (auto simp: flip_rev split: prod.splits)
qed (simp add: flip_rev)

lemma split_step_aside:
  "foldl (split_step sep) (w, ns) s =
     (case foldl (split_step sep) (w, []) s of (w', ns') \<Rightarrow> (w', ns' @ ns))"
proof (induction s arbitrary: w ns)
  case (Cons c s)
  show ?case
    by (subst (1 2) foldl_Cons, subst split_step.simps, subst split_step.simps)
      (use Cons.IH [of _ "flip w [] # ns"] Cons.IH [of _ "[flip w []]"] Cons.IH [of _ ns] in
        \<open>auto split: prod.splits\<close>)
qed simp

lemma split_step_eval:
  "foldl (split_step sep) (w, n # ns) s =
     (case foldl (split_step sep) (w, []) s of (w', ns') \<Rightarrow> (w', onto ns' (n # ns)))"
  unfolding onto_append by (rule split_step_aside)

lemma split_at_eval:
  "split_at sep s = (case foldl (split_step sep) ([], []) s of (w, ns) \<Rightarrow> flip ns [flip w []])"
  using split_at_fold [of sep "[]" "[]" s] by simp

lemmas name_defs = projection_names_def OutputColumns_def command_columns_def
  metric_view_columns_def context_columns_def split_at_eval name_step_eval split_step_eval

lemma log_names: "OutputColumns ''logs'' view b = Inr (projection_names (log_columns b))"
  by (cases b) (simp_all add: name_defs log_columns_def del: append_Cons split_at.simps)

lemma span_names: "OutputColumns ''spans'' view b = Inr (projection_names (span_columns b))"
  by (cases b) (simp_all add: name_defs span_columns_def del: append_Cons split_at.simps)

lemma context_names:
  "foldl name_step (0, [], []) (otelContext spanResource spanScope) =
     (0, ''lru_amehcs_epocs'', [''scope_attributes'', ''scope_version'', ''scope_name'',
        ''resource_schema_url'', ''resource_attributes''])"
  by (simp add: otelContext_def arrayField_def textField_def extract_path_def path_defs
      name_step_eval del: append_Cons)

lemma trace_names:
  "OutputColumns ''trace'' view b = Inr (projection_names (trace_columns b) @ [''offset_ms''])"
  by (cases b) (simp_all add: name_defs trace_columns_def context_names [unfolded spanScope_def spanResource_def] arrayField_def
      extract_path_def spanRecord_def spanScope_def spanResource_def
      del: append_Cons split_at.simps)

lemmas identity_defs = seriesIdentity_def metricIdentity_def

lemma point_names: "OutputColumns ''metrics'' ''points'' b = Inr (projection_names (point_columns b))"
  by (cases b) (simp_all add: name_defs point_columns_def identity_defs del: append_Cons split_at.simps)

lemma rate_names: "OutputColumns ''metrics'' ''rate'' b = Inr (projection_names (rate_columns b))"
  by (cases b) (simp_all add: name_defs rate_columns_def identity_defs del: append_Cons split_at.simps)

lemma list_names:
  "OutputColumns ''metrics'' ''list'' False = Inr (projection_names (discovery_columns ''list''))"
  by (simp add: name_defs discovery_columns_def discovery_identity_def identity_defs del: append_Cons split_at.simps)

lemma series_names:
  "OutputColumns ''metrics'' ''series'' False = Inr (projection_names (discovery_columns ''series''))"
  by (simp add: name_defs discovery_columns_def discovery_identity_def identity_defs del: append_Cons split_at.simps)

section \<open>The catalog is the projection\<close>

text \<open>
  The column catalog names exactly the columns of the SQL projections, in order, for every
  view and with and without the payload, so column discovery cannot drift from the output.
\<close>

lemma catalog_matches_projections:
  "OutputColumns ''logs'' v b = Inr (projection_names (log_columns b)) \<and>
   OutputColumns ''spans'' v b = Inr (projection_names (span_columns b)) \<and>
   OutputColumns ''trace'' v b = Inr (projection_names (trace_columns b) @ [''offset_ms'']) \<and>
   OutputColumns ''metrics'' ''points'' b = Inr (projection_names (point_columns b)) \<and>
   OutputColumns ''metrics'' ''rate'' b = Inr (projection_names (rate_columns b)) \<and>
   OutputColumns ''metrics'' ''list'' False = Inr (projection_names (discovery_columns ''list'')) \<and>
   OutputColumns ''metrics'' ''series'' False = Inr (projection_names (discovery_columns ''series''))"
  by (simp only: log_names span_names trace_names point_names rate_names list_names series_names)

text \<open>The columns of the log and span summaries, each once, are in the catalog.\<close>

lemma summary_logs: "set (summaryColumns ''logs'' v) \<subseteq> set (projr (OutputColumns ''logs'' v False))"
  by (simp add: summaryColumns_def name_defs del: append_Cons split_at.simps)

lemma summary_spans: "set (summaryColumns ''spans'' v) \<subseteq> set (projr (OutputColumns ''spans'' v False))"
  by (simp add: summaryColumns_def name_defs del: append_Cons split_at.simps)

end
