(* ===== verification/SqlGuard.thy ===== *)
theory SqlGuard
  imports GoText
begin

text \<open>
  The guard that admits one SQL statement (\<open>singleStatement\<close> in
  \<^verbatim>\<open>internal/query/query.go\<close>) and the SELECT wrapper around it, against an
  automaton for the quoting and comment rules the guard is written for.
\<close>

definition MaxSQLBytes :: nat where
  "MaxSQLBytes = 65536"

section \<open>The scanner\<close>

text \<open>What follows the first \<open>*/\<close>, if there is one.\<close>

fun after_comment :: "string \<Rightarrow> string option" where
  "after_comment (c # d # cs) =
     (if c = CHR ''*'' \<and> d = CHR ''/'' then Some cs else after_comment (d # cs))"
| "after_comment _ = None"

text \<open>What follows the end of the line; nothing when the text ends before it.\<close>

definition after_line :: "string \<Rightarrow> string" where
  "after_line s = drop 1 (dropWhile (\<lambda>c. c \<noteq> newline) s)"

lemma after_comment_length: "after_comment s = Some r \<Longrightarrow> length r < length s"
  by (induction s rule: after_comment.induct) (auto split: if_splits)

lemma after_line_length: "length (after_line (c # cs)) \<le> length cs"
  using length_dropWhile_le [of "\<lambda>c. c \<noteq> newline" "c # cs"] by (simp add: after_line_def)

definition opens_quote :: "char \<Rightarrow> char option" where
  "opens_quote c =
     (if c = squote \<or> c = CHR 0x22 \<or> c = CHR 0x60 then Some c
      else if c = CHR ''['' then Some (CHR '']'') else None)"

text \<open>
  The loop of \<open>singleStatement\<close> on the text that is left; the first argument is the
  variable \<open>quote\<close>, and the result the error that ends the scan.
\<close>

function scan :: "char option \<Rightarrow> string \<Rightarrow> go_error option" where
  "scan None [] = None"
| "scan (Some q) [] = Some (Msg ''unterminated SQL string or identifier'')"
| "scan (Some q) (c # cs) =
     (if c \<noteq> q then scan (Some q) cs
      else if cs \<noteq> [] \<and> hd cs = q then scan (Some q) (drop 1 cs)
      else scan None cs)"
| "scan None (c # cs) =
     (if c = CHR ''-'' \<and> cs \<noteq> [] \<and> hd cs = CHR ''-'' then scan None (after_line (c # cs))
      else if c = CHR ''/'' \<and> cs \<noteq> [] \<and> hd cs = CHR ''*'' then
        (case after_comment (drop 1 cs) of
           None \<Rightarrow> Some (Msg ''unterminated SQL comment'')
         | Some r \<Rightarrow> scan None r)
      else if opens_quote c \<noteq> None then scan (opens_quote c) cs
      else if c = CHR '';'' then Some (Msg ''only one SELECT or WITH query is allowed'')
      else scan None cs)"
  by pat_completeness auto
termination
  by (relation "measure (\<lambda>(q, s). length s)")
    (use after_line_length in \<open>auto simp: less_Suc_eq_le dest!: after_comment_length\<close>)

definition trim_semicolon :: "string \<Rightarrow> string" where
  "trim_semicolon s = (if s \<noteq> [] \<and> last s = CHR '';'' then butlast s else s)"

definition singleStatement :: "string \<Rightarrow> string result" where
  "singleStatement s =
     (if length s > MaxSQLBytes then Inl (Msg ''SQL exceeds 64 KiB'')
      else
        let t = trim_semicolon (trim_space s) in
        if length t = 0 \<or> length t > MaxSQLBytes \<or> CHR 0x00 \<in> set t
        then Inl (Msg ''SQL must contain one SELECT or WITH query of at most 64 KiB'')
        else (case scan None t of Some e \<Rightarrow> Inl e | None \<Rightarrow> Inr t))"

text \<open>The statement that \<open>Read\<close> executes.\<close>

definition wrap_select :: "string \<Rightarrow> string" where
  "wrap_select t = ''SELECT * FROM ('' @ [newline] @ t @ [newline] @ '') LIMIT ? OFFSET ?''"

section \<open>The reference automaton\<close>

text \<open>
  One step per character. \<open>Closing\<close> is the state after a quote that may turn out to be
  doubled; \<open>Separator\<close> is reached by a semicolon outside strings and comments, and kept.
\<close>

datatype lex =
    Code | Dash | Slash | Line | Block | BlockStar | Within char | Closing char | Separator

definition code_step :: "char \<Rightarrow> lex" where
  "code_step c =
     (if c = CHR ''-'' then Dash else if c = CHR ''/'' then Slash
      else if c = CHR '';'' then Separator
      else (case opens_quote c of Some q \<Rightarrow> Within q | None \<Rightarrow> Code))"

fun lex_step :: "lex \<Rightarrow> char \<Rightarrow> lex" where
  "lex_step Code c = code_step c"
| "lex_step Dash c = (if c = CHR ''-'' then Line else code_step c)"
| "lex_step Slash c = (if c = CHR ''*'' then Block else code_step c)"
| "lex_step Line c = (if c = newline then Code else Line)"
| "lex_step Block c = (if c = CHR ''*'' then BlockStar else Block)"
| "lex_step BlockStar c =
     (if c = CHR ''/'' then Code else if c = CHR ''*'' then BlockStar else Block)"
| "lex_step (Within q) c = (if c = q then Closing q else Within q)"
| "lex_step (Closing q) c = (if c = q then Within q else code_step c)"
| "lex_step Separator c = Separator"

abbreviation lexed :: "lex \<Rightarrow> string \<Rightarrow> lex" where
  "lexed \<equiv> foldl lex_step"

text \<open>A statement may end in code, in a line comment or right after a quoted token.\<close>

fun complete :: "lex \<Rightarrow> bool" where
  "complete Code = True"
| "complete Dash = True"
| "complete Slash = True"
| "complete Line = True"
| "complete (Closing q) = True"
| "complete _ = False"

lemma lexed_Separator [simp]: "lexed Separator s = Separator"
  by (induction s) auto

lemma lexed_line: "lexed Line s = (if newline \<in> set s then lexed Code (after_line s) else Line)"
  by (induction s) (auto simp: after_line_def)

lemma after_line_absent: "newline \<notin> set s \<Longrightarrow> after_line s = []"
  unfolding after_line_def by (subst dropWhile_eq_Nil_conv [THEN iffD2]) auto

lemma complete_line: "complete (lexed Line s) \<longleftrightarrow> complete (lexed Code (after_line s))"
  by (cases "newline \<in> set s") (auto simp: lexed_line after_line_absent)

lemma after_comment_step:
  "after_comment (c # cs) =
     (if c = CHR ''*'' \<and> cs \<noteq> [] \<and> hd cs = CHR ''/'' then Some (drop 1 cs)
      else after_comment cs)"
  by (cases cs) auto

lemma lexed_block:
  "lexed Block s = (case after_comment s of Some r \<Rightarrow> lexed Code r | None \<Rightarrow> lexed Block s)"
  "lexed BlockStar s = (if s \<noteq> [] \<and> hd s = CHR ''/'' then lexed Code (drop 1 s)
     else case after_comment s of Some r \<Rightarrow> lexed Code r | None \<Rightarrow> lexed BlockStar s)"
  "after_comment s = None \<Longrightarrow> lexed Block s \<in> {Block, BlockStar}"
  "after_comment s = None \<Longrightarrow> (s = [] \<or> hd s \<noteq> CHR ''/'') \<Longrightarrow>
     lexed BlockStar s \<in> {Block, BlockStar}"
proof (induction s)
  case (Cons c s)
  {
    case 1
    then show ?case using Cons.IH by (auto simp: after_comment_step split: option.splits if_splits)
  next
    case 2
    then show ?case using Cons.IH by (auto simp: after_comment_step split: option.splits if_splits)
  next
    case 3
    then show ?case using Cons.IH by (auto simp: after_comment_step split: if_splits)
  next
    case 4
    then show ?case using Cons.IH by (auto simp: after_comment_step split: if_splits)
  }
qed auto

lemma complete_block:
  "complete (lexed Block s) \<longleftrightarrow>
     (case after_comment s of Some r \<Rightarrow> complete (lexed Code r) | None \<Rightarrow> False)"
proof (cases "after_comment s")
  case None
  then show ?thesis using lexed_block(3) [of s] by auto
next
  case (Some r)
  then show ?thesis using lexed_block(1) [of s] by simp
qed

lemma lexed_Dash: "lexed Dash (c # cs) = (if c = CHR ''-'' then lexed Line cs else lexed Code (c # cs))"
  by simp

lemma lexed_Slash: "lexed Slash (c # cs) = (if c = CHR ''*'' then lexed Block cs else lexed Code (c # cs))"
  by simp

lemma lexed_Closing: "lexed (Closing q) (c # cs) = (if c = q then lexed (Within q) cs else lexed Code (c # cs))"
  by simp

lemma scan_automaton:
  "scan q s = None \<longleftrightarrow>
     complete (lexed (case q of None \<Rightarrow> Code | Some c \<Rightarrow> Within c) s)"
proof (induction q s rule: scan.induct)
  case (3 q c cs)
  show ?case
  proof (cases cs)
    case Nil
    then show ?thesis using 3 by auto
  next
    case (Cons d ds)
    then show ?thesis using 3 by (auto simp: lexed_Closing simp del: foldl_Cons)
      (auto)
  qed
next
  case (4 c cs)
  show ?case
  proof (cases cs)
    case Nil
    then show ?thesis
      using 4 by (auto simp: code_step_def opens_quote_def split: option.splits)
  next
    case (Cons d ds)
    then show ?thesis
      using 4
      by (auto simp: code_step_def opens_quote_def complete_line complete_block after_line_def
          split: option.splits)
  qed
qed auto

section \<open>What is admitted\<close>

text \<open>
  C15. \<open>singleStatement\<close> admits a text exactly when, trimmed and without one final
  semicolon, it is not empty, within 64 KiB, free of NUL, and the automaton ends on it outside
  every string and block comment without having met a semicolon outside strings and comments;
  it then returns that trimmed text.
\<close>

theorem singleStatement_admits:
  "singleStatement s = Inr t \<longleftrightarrow>
     t = trim_semicolon (trim_space s) \<and> length s \<le> 65536 \<and> t \<noteq> [] \<and> length t \<le> 65536 \<and>
     CHR 0x00 \<notin> set t \<and> complete (lexed Code t)"
  using scan_automaton [of None "trim_semicolon (trim_space s)"]
  by (auto simp: singleStatement_def MaxSQLBytes_def Let_def split: option.splits)

lemma singleStatement_complete: "singleStatement s = Inr t \<Longrightarrow> complete (lexed Code t)"
  using scan_automaton [of None t]
  by (auto simp: singleStatement_def Let_def split: option.splits if_splits)

lemma complete_newline: "complete st \<Longrightarrow> st \<noteq> Closing newline \<Longrightarrow> lex_step st newline = Code"
  by (cases st) (auto simp: code_step_def opens_quote_def)

lemma quote_not_newline: "opens_quote c = Some q \<Longrightarrow> q \<noteq> newline"
  by (auto simp: opens_quote_def split: if_splits)

lemma code_step_not_newline: "code_step c \<noteq> Within newline \<and> code_step c \<noteq> Closing newline"
  using quote_not_newline [of c newline] by (auto simp: code_step_def split: option.splits)

lemma lexed_not_newline:
  "st \<noteq> Within newline \<Longrightarrow> st \<noteq> Closing newline \<Longrightarrow>
     lexed st s \<noteq> Within newline \<and> lexed st s \<noteq> Closing newline"
proof (induction s arbitrary: st)
  case (Cons c s)
  then show ?case
    using code_step_not_newline [of c] by (cases st) auto
qed simp

lemma lexed_wrap_prefix: "lexed Code (''SELECT * FROM ('' @ [newline]) = Code"
  by (simp add: code_step_def opens_quote_def)

lemma lexed_wrap_suffix: "lexed Code '') LIMIT ? OFFSET ?'' = Code"
  by (simp add: code_step_def opens_quote_def)

lemma lexed_prefix_Separator: "lexed Code (u @ v) \<noteq> Separator \<Longrightarrow> lexed Code u \<noteq> Separator"
  by auto



section \<open>A token the scanner does not know\<close>

text \<open>
  SQLite reads \<open>$name(...)\<close> as one parameter token, whatever stands between the
  parentheses. The scanner takes a quote in that suffix for the start of a string, so what
  follows, separators included, is hidden from it until the next quote.
\<close>

lemma parameter_suffix_hides_separator:
  "singleStatement (''SELECT $a('' @ [squote] @ '')); SELECT 2 FROM (SELECT 3 --'' @ [squote]) =
     Inr (''SELECT $a('' @ [squote] @ '')); SELECT 2 FROM (SELECT 3 --'' @ [squote])"
proof -
  let ?s = "''SELECT $a('' @ [squote] @ '')); SELECT 2 FROM (SELECT 3 --'' @ [squote]"
  have "trim_space ?s = ?s"
    by (simp add: trim_space_def trim_front.simps wide_spaces_def ascii_space_def)
  moreover have "scan None ?s = None" by (simp add: opens_quote_def)
  ultimately show ?thesis by (simp add: singleStatement_def MaxSQLBytes_def trim_semicolon_def)
qed

end
