(* ===== verification/QueryBuildProps.thy ===== *)
theory QueryBuildProps
  imports QueryBuild SqlGuard
begin

text \<open>
  Properties of the built-in queries: every placeholder has its bound value, the text reads as
  one piece of SQL code, and it does not depend on the values a user gives.
\<close>

section \<open>Well-formed clauses\<close>

definition placeholders :: "string \<Rightarrow> nat" where
  "placeholders s = length (filter (\<lambda>c. c = CHR ''?'') s)"

text \<open>
  A text that reads as SQL code from end to end, quotes and comments closed and no separator,
  with one placeholder per bound value.
\<close>

definition clause_ok :: "clause \<Rightarrow> bool" where
  "clause_ok cl \<longleftrightarrow> placeholders (fst cl) = length (snd cl) \<and> lexed Code (fst cl) = Code"

lemma placeholders_append [simp]: "placeholders (s @ t) = placeholders s + placeholders t"
  by (simp add: placeholders_def)

lemma placeholders_Nil [simp]: "placeholders [] = 0"
  by (simp add: placeholders_def)

lemma placeholders_Cons: "placeholders (c # s) = (if c = CHR ''?'' then Suc (placeholders s) else placeholders s)"
  by (simp add: placeholders_def)

definition fixed :: "string \<Rightarrow> bool" where
  "fixed s \<longleftrightarrow> placeholders s = 0 \<and> lexed Code s = Code"

lemma fixed_append [simp]: "fixed s \<Longrightarrow> fixed t \<Longrightarrow> fixed (s @ t)"
  by (simp add: fixed_def)

lemma fixed_Nil [simp]: "fixed []"
  by (simp add: fixed_def)

lemma fixed_ifI: "(b \<Longrightarrow> fixed s) \<Longrightarrow> (\<not> b \<Longrightarrow> fixed t) \<Longrightarrow> fixed (if b then s else t)"
  by simp

lemmas lex_simps = code_step_def opens_quote_def placeholders_Cons

lemma clause_ok_extend:
  "clause_ok cl \<Longrightarrow> clause_ok (s, bs) \<Longrightarrow> clause_ok (fst cl @ s, snd cl @ bs)"
  by (simp add: clause_ok_def)

text \<open>The constant parts.\<close>

lemmas path_simps = arrayField_def textField_def extract_path_def path_defs

lemma fixed_contexts:
  "fixed (otelContext logResource logScope)" "fixed (otelContext spanResource spanScope)"
  "fixed (otelContext metricResource metricScope)"
  by (simp_all add: fixed_def otelContext_def path_simps lex_simps del: append_Cons)

lemma fixed_log: "fixed (log_columns b)" "fixed log_source"
  using fixed_contexts
  by (simp_all add: fixed_def log_columns_def log_source_def path_simps lex_simps del: append_Cons)

lemma fixed_span: "fixed (span_columns b)" "fixed span_source"
  using fixed_contexts
  by (simp_all add: fixed_def span_columns_def span_source_def path_simps lex_simps del: append_Cons)

lemma fixed_trace: "fixed (trace_spans b)" "fixed (trace_logs b)"
  using fixed_contexts
  by (simp_all add: fixed_def trace_spans_def trace_columns_def trace_logs_def path_simps lex_simps del: append_Cons)

lemma fixed_identity: "fixed metricIdentity" "fixed seriesIdentity"
  by (simp_all add: fixed_def seriesIdentity_def metricIdentity_def lex_simps del: append_Cons)

lemma fixed_metricSource: "fixed metricSource"
  using fixed_contexts
  by (simp add: fixed_def metricSource_def path_simps lex_simps del: append_Cons)

lemma fixed_metricRates: "fixed (metricRates b)"
  using fixed_identity
  by (simp add: fixed_def metricRates_def rate_columns_def lex_simps del: append_Cons)

lemma fixed_points: "fixed (point_columns b)"
  using fixed_identity
  by (simp add: fixed_def point_columns_def lex_simps del: append_Cons)

lemma fixed_discovery: "fixed (discovery_select v)"
  using fixed_identity
  by (simp add: fixed_def discovery_select_def discovery_columns_def discovery_identity_def lex_simps del: append_Cons)

section \<open>Every step keeps the clause well-formed\<close>

text \<open>The column names a filter can stand on.\<close>

definition plain_name :: "string \<Rightarrow> bool" where
  "plain_name s \<longleftrightarrow> s \<noteq> [] \<and> list_all (\<lambda>c. c \<notin> set ''?-/;[`'' \<union> {squote, CHR 0x22}) s"

lemma plain_fixed: "list_all (\<lambda>c. c \<notin> set ''?-/;[`'' \<union> {squote, CHR 0x22}) s \<Longrightarrow> fixed s"
  by (induction s) (auto simp: fixed_def lex_simps)

lemma plain_name_fixed: "plain_name s \<Longrightarrow> fixed s"
  by (simp add: plain_name_def plain_fixed)

lemma attribute_value_field:
  "attribute_value p v = Inr (field, b) \<Longrightarrow>
     field = ''stringValue'' \<or> field = ''boolValue'' \<or> field = ''doubleValue'' \<or> field = ''intValue''"
  by (auto simp: attribute_value_def split: option.splits scalar.splits if_splits)

lemma attribute_clause_ok:
  assumes "attribute_value p v = Inr (field, b)" "fixed column"
  shows "clause_ok ('' AND '' @ attribute_clause column field, [ArgText k, b])"
  using attribute_value_field [OF assms(1)] assms(2)
  by (elim disjE)
    (simp_all add: clause_ok_def fixed_def attribute_clause_def Let_def lex_simps del: append_Cons)

lemma attributeFilter_ok:
  "attributeFilter p column v = Inr (c, bs) \<Longrightarrow> fixed column \<Longrightarrow> clause_ok ('' AND '' @ c, bs)"
  by (auto simp: attributeFilter_def attribute_clause_ok simp del: append_Cons
      split: option.splits sum.splits if_splits)

lemma attribute_filters_ok:
  "attribute_filters p column vs cl = Inr cl' \<Longrightarrow> fixed column \<Longrightarrow> clause_ok cl \<Longrightarrow> clause_ok cl'"
proof (induction p column vs cl rule: attribute_filters.induct)
  case (2 p column v vs cl)
  from 2(2) obtain c bs where c: "attributeFilter p column v = Inr (c, bs)"
    and rest: "attribute_filters p column vs (fst cl @ '' AND '' @ c, snd cl @ bs) = Inr cl'"
    by (auto split: sum.splits)
  from attributeFilter_ok [OF c 2(3)] 2(4)
  have "clause_ok (fst cl @ '' AND '' @ c, snd cl @ bs)" by (rule clause_ok_extend [rotated])
  with 2(1) [OF c refl rest 2(3)] show ?case by simp
qed simp

lemma and_when_ok: "clause_ok cl \<Longrightarrow> clause_ok ('' AND '' @ c, [b]) \<Longrightarrow> clause_ok (and_when v c b cl)"
  by (simp only: and_when_def split: if_split) (metis clause_ok_extend)

lemma and_id_ok:
  "and_id v column n cl = Inr cl' \<Longrightarrow> clause_ok cl \<Longrightarrow> (\<And>i. clause_ok ('' AND '' @ column @ ''=?'', [i])) \<Longrightarrow>
     clause_ok cl'"
  by (auto simp: and_id_def simp del: append_Cons split: if_splits sum.splits intro!: clause_ok_extend)

lemma and_code_ok:
  "and_code v k c table msg cl = Inr cl' \<Longrightarrow> clause_ok cl \<Longrightarrow> (\<And>i. clause_ok ('' AND '' @ c, [i])) \<Longrightarrow>
     clause_ok cl'"
  by (auto simp: and_code_def simp del: append_Cons split: if_splits option.splits intro!: clause_ok_extend)

lemma and_member_ok:
  "and_member v c allowed msg cl = Inr cl' \<Longrightarrow> clause_ok cl \<Longrightarrow> (\<And>i. clause_ok ('' AND '' @ c, [i])) \<Longrightarrow>
     clause_ok cl'"
  by (auto simp: and_member_def simp del: append_Cons split: if_splits intro!: clause_ok_extend)

lemma and_resource_id_ok:
  "and_resource_id ul v cl = Inr cl' \<Longrightarrow> clause_ok cl \<Longrightarrow> clause_ok cl'"
  by (auto simp: and_resource_id_def simp del: append_Cons split: if_splits option.splits
      intro!: clause_ok_extend)
    (simp add: clause_ok_def lex_simps)

lemma min_duration_ok: "min_duration p v cl = Inr cl' \<Longrightarrow> clause_ok cl \<Longrightarrow> clause_ok cl'"
  by (auto simp: min_duration_def simp del: append_Cons split: if_splits option.splits
      intro!: clause_ok_extend)
    (simp add: clause_ok_def lex_simps)

lemma until_clause_ok:
  "until_clause p u field since cl = Inr cl' \<Longrightarrow> clause_ok cl \<Longrightarrow> fixed field \<Longrightarrow> clause_ok cl'"
  by (auto simp: until_clause_def simp del: append_Cons split: if_splits option.splits
      intro!: clause_ok_extend)
    (simp add: clause_ok_def fixed_def lex_simps del: append_Cons)

lemma time_field_fixed: "time_field basis event = Inr field \<Longrightarrow> fixed event \<Longrightarrow> fixed field"
  by (auto simp: time_field_def fixed_def lex_simps split: if_splits)

lemma event_columns: "fixed ''time_unix_nano''" "fixed ''start_time_unix_nano''"
  "fixed ''resource_attributes''" "fixed ''attributes''"
  by (simp_all add: fixed_def lex_simps)

lemma otelWhere_ok:
  assumes "otelWhere p f now event = Inr cl" "fixed event"
  shows "clause_ok cl"
proof -
  from assms(1) obtain field since cl1 where
    field: "time_field (TimeBasis f) event = Inr field" and
    until: "until_clause p (Until f) field since (field @ ''>=?'', [ArgInt since]) = Inr cl1" and
    rest: "\<exists>cl2. attribute_filters p ''resource_attributes'' (Resource f)
        (and_when (ScopeVersion f) ''scope_version=?'' (ArgText (ScopeVersion f))
          (and_when (Scope f) ''scope_name=?'' (ArgText (Scope f))
            (and_when (Service f) ''service_name=?'' (ArgText (Service f)) cl1))) = Inr cl2 \<and>
        attribute_filters p ''attributes'' (Attribute f) cl2 = Inr cl"
    unfolding otelWhere_def Let_def
    by (auto simp del: append_Cons split: sum.splits if_splits)
  have fx: "fixed field" by (rule time_field_fixed [OF field assms(2)])
  have "clause_ok (field @ ''>=?'', [ArgInt since])"
    using fx by (simp add: clause_ok_def fixed_def lex_simps del: append_Cons)
  then have "clause_ok cl1" by (rule until_clause_ok [OF until _ fx])
  moreover have "clause_ok ('' AND '' @ ''service_name=?'', [x])" "clause_ok ('' AND '' @ ''scope_name=?'', [x])"
    "clause_ok ('' AND '' @ ''scope_version=?'', [x])" for x
    by (simp_all add: clause_ok_def lex_simps)
  ultimately have "clause_ok (and_when (ScopeVersion f) ''scope_version=?'' (ArgText (ScopeVersion f))
          (and_when (Scope f) ''scope_name=?'' (ArgText (Scope f))
            (and_when (Service f) ''service_name=?'' (ArgText (Service f)) cl1)))"
    by (intro and_when_ok)
  with rest event_columns show ?thesis by (blast intro: attribute_filters_ok)
qed

section \<open>The built-in statements\<close>

lemma otelWhere_event_ok:
  "otelWhere p f now ''time_unix_nano'' = Inr cl \<Longrightarrow> clause_ok cl"
  "otelWhere p f now ''start_time_unix_nano'' = Inr cl \<Longrightarrow> clause_ok cl"
  by (simp_all add: otelWhere_ok event_columns)

lemma column_clauses:
  "clause_ok ('' AND '' @ ''trace_id'' @ ''=?'', [x])" "clause_ok ('' AND '' @ ''span_id'' @ ''=?'', [x])"
  "clause_ok ('' AND '' @ ''severity_number>=?'', [x])" "clause_ok ('' AND '' @ ''name=?'', [x])"
  "clause_ok ('' AND '' @ ''kind=?'', [x])" "clause_ok ('' AND '' @ ''status_code=?'', [x])"
  "clause_ok ('' AND '' @ ''metric_name=?'', [x])" "clause_ok ('' AND '' @ ''metric_type=?'', [x])"
  "clause_ok ('' AND '' @ ''temporality=?'', [x])"
  by (simp_all add: clause_ok_def lex_simps)

lemma log_ids_ok: "log_ids f cl = Inr cl' \<Longrightarrow> clause_ok cl \<Longrightarrow> clause_ok cl'"
  by (auto simp: log_ids_def split: sum.splits dest!: and_id_ok [OF _ _ column_clauses(1)]
      and_id_ok [OF _ _ column_clauses(2)])

lemma select_from_ok:
  "clause_ok cl \<Longrightarrow> fixed src \<Longrightarrow> fixed columns \<Longrightarrow> clause_ok (select_from src columns (fst cl), snd cl)"
  by (simp add: clause_ok_def fixed_def select_from_def lex_simps del: append_Cons)

lemma bind_ok:
  "(case r of Inl e \<Rightarrow> Inl e | Inr cl \<Rightarrow> k cl) = Inr cl' \<Longrightarrow> (\<And>cl. r = Inr cl \<Longrightarrow> clause_ok cl) \<Longrightarrow>
     (\<And>cl. k cl = Inr cl' \<Longrightarrow> clause_ok cl \<Longrightarrow> clause_ok cl') \<Longrightarrow> clause_ok cl'"
  by (auto split: sum.splits)

lemma select_ok:
  "Inr (select_from src columns (fst cl), snd cl) = Inr cl' \<Longrightarrow> clause_ok cl \<Longrightarrow> fixed src \<Longrightarrow>
     fixed columns \<Longrightarrow> clause_ok cl'"
  using select_from_ok by auto

lemma Logs_ok: "Logs ul p f now = Inr cl \<Longrightarrow> clause_ok cl"
  unfolding Logs_def
  by (erule bind_ok, erule otelWhere_event_ok, erule bind_ok,
      erule and_code_ok, assumption, rule column_clauses, erule bind_ok, erule log_ids_ok, assumption)
    (erule select_ok, assumption, rule fixed_log, rule fixed_log)

lemma Spans_ok: "Spans p f now = Inr cl \<Longrightarrow> clause_ok cl"
  unfolding Spans_def
  by (erule bind_ok, erule otelWhere_event_ok, erule bind_ok, erule log_ids_ok, assumption,
      erule bind_ok, erule and_code_ok, erule and_when_ok, rule column_clauses, rule column_clauses,
      erule bind_ok, erule and_code_ok, assumption, rule column_clauses,
      erule bind_ok, erule min_duration_ok, assumption)
    (erule select_ok, assumption, rule fixed_span, rule fixed_span)

lemma Trace_ok: "Trace i payload = Inr cl \<Longrightarrow> clause_ok cl"
  using fixed_trace [of payload]
  by (auto simp: Trace_def clause_ok_def fixed_def lex_simps simp del: append_Cons split: sum.splits)

lemma service_select_ok:
  assumes "clause_ok (wh, args)" "s \<in> set service_sources"
  shows "clause_ok (service_select f s wh, args)"
proof -
  have "fixed (signal_counts (so_signal s)) \<and> fixed (otelContext (so_resource s) (so_scope s)) \<and>
      fixed (so_table s) \<and> fixed (so_index s)"
    using assms(2) fixed_contexts
    by (auto simp: service_sources_def signal_counts_def fixed_def lex_simps)
  with assms(1) show ?thesis
    by (simp add: clause_ok_def fixed_def service_select_def lex_simps del: append_Cons)
qed

lemma service_union_ok:
  "service_union p f now later ss cl = Inr cl' \<Longrightarrow> set ss \<subseteq> set service_sources \<Longrightarrow> clause_ok cl \<Longrightarrow>
     clause_ok cl'"
proof (induction p f now later ss cl rule: service_union.induct)
  case (2 p f now later s ss cl)
  from 2(2) obtain wh args where w: "otelWhere p f now (so_event s) = Inr (wh, args)"
    and rest: "service_union p f now True ss
       (fst cl @ (if later then '' UNION ALL '' else []) @ service_select f s wh, snd cl @ args) = Inr cl'"
    by (auto simp del: append_Cons split: sum.splits)
  have s: "s \<in> set service_sources" using 2(3) by simp
  then have "fixed (so_event s)" using event_columns by (auto simp: service_sources_def)
  with w have "clause_ok (wh, args)" by (rule otelWhere_ok)
  then have "clause_ok (service_select f s wh, args)" by (rule service_select_ok [OF _ s])
  with 2(4) have "clause_ok
      (fst cl @ (if later then '' UNION ALL '' else []) @ service_select f s wh, snd cl @ args)"
    by (simp add: clause_ok_def lex_simps del: append_Cons)
  with 2(1) [OF w refl rest] 2(3) show ?case by simp
qed simp

lemma Services_ok: "Services p f now = Inr cl \<Longrightarrow> clause_ok cl"
proof -
  have "clause_ok (''WITH source AS ('', [])" by (simp add: clause_ok_def lex_simps)
  from service_union_ok [OF _ subset_refl this]
  show "Services p f now = Inr cl \<Longrightarrow> clause_ok cl"
    unfolding Services_def
    by (auto simp del: append_Cons split: sum.splits)
      (fastforce simp: clause_ok_def lex_simps simp del: append_Cons)
qed

lemma metric_where_ok: "metric_where ul p f now = Inr cl \<Longrightarrow> clause_ok cl"
  unfolding metric_where_def
  by (erule bind_ok, erule otelWhere_event_ok, erule bind_ok, erule and_resource_id_ok,
      erule and_when_ok, rule column_clauses, erule bind_ok, erule and_member_ok, assumption,
      rule column_clauses)
    (erule and_member_ok, assumption, rule column_clauses)

lemma MetricQuery_ok:
  assumes "MetricQuery ul p f now view = Inr cl"
  shows "clause_ok cl"
proof -
  from assms obtain wh args where w: "metric_where ul p f now = Inr (wh, args)"
    by (auto simp: MetricQuery_def split: sum.splits)
  have "clause_ok (wh, args)" by (rule metric_where_ok [OF w])
  then have src: "clause_ok (metricSource @ '', selected AS (SELECT * FROM expanded WHERE '' @ wh @ '') '', args)"
    using fixed_metricSource by (simp add: clause_ok_def fixed_def lex_simps del: append_Cons)
  have extend: "clause_ok (metricSource @ '', selected AS (SELECT * FROM expanded WHERE '' @ wh @ '') '' @ t, args)"
    if "fixed t" for t
    using src that by (simp add: clause_ok_def fixed_def del: append_Cons)
  have "fixed (''SELECT '' @ point_columns b @ '' FROM selected ORDER BY id DESC'')" for b
    using fixed_points [of b] by (simp add: fixed_def lex_simps del: append_Cons)
  with extend fixed_discovery fixed_metricRates show ?thesis
    using assms w
    by (auto simp: MetricQuery_def Let_def simp del: append_Cons split: if_splits)
qed

text \<open>
  C17. Every built-in command, with any filters, produces one well-formed statement or an
  error: its text has exactly one placeholder per bound argument and reads, from end to end,
  as SQL code with all quotes and comments closed and without a separator, so the guard of
  \<open>Read\<close> never mistakes it for two statements.
\<close>

theorem builtin_statements_wellformed:
  assumes "command_statement ul p name view f posargs now sqlText = Inr (st, args)"
    "name \<noteq> ''sql''"
  shows "placeholders st = length args \<and> complete (lexed Code st) \<and> scan None st = None"
proof -
  have "clause_ok (st, args)"
    using assms
    by (auto simp: command_statement_def clause_ok_def [of "([], [])"] simp del: append_Cons
        intro: Logs_ok Spans_ok Services_ok MetricQuery_ok Trace_ok
        split: if_splits list.splits)
  then show ?thesis using scan_automaton [of None st] by (simp add: clause_ok_def)
qed

end
