(* ===== verification/QueryShape.thy ===== *)
theory QueryShape
  imports QueryBuildProps
begin

text \<open>
  The text of a built-in query depends on which filters are given, not on what they are given:
  values travel only as bound arguments.
\<close>

section \<open>The shape of a set of filters\<close>

text \<open>The OTLP field an attribute filter compares, when the filter is well-formed.\<close>

definition filter_field :: "parsers \<Rightarrow> string \<Rightarrow> string option" where
  "filter_field p filt =
     (case cut CHR ''='' filt of
        None \<Rightarrow> None
      | Some (k, v) \<Rightarrow>
          (case attribute_value p v of Inl e \<Rightarrow> None | Inr (field, b) \<Rightarrow> Some field))"

definition given :: "string list \<Rightarrow> bool list" where
  "given = map (\<lambda>v. v \<noteq> [])"

definition same_shape :: "parsers \<Rightarrow> Filters \<Rightarrow> Filters \<Rightarrow> bool" where
  "same_shape p f g \<longleftrightarrow>
     TimeBasis f = TimeBasis g \<and> Payload f = Payload g \<and>
     given [Until f, Service f, Scope f, ScopeVersion f, Level f, Name f, TraceID f, SpanID f,
       Kind f, Status f, MinDuration f, MetricType f, Temporality f, ResourceID f] =
     given [Until g, Service g, Scope g, ScopeVersion g, Level g, Name g, TraceID g, SpanID g,
       Kind g, Status g, MinDuration g, MetricType g, Temporality g, ResourceID g] \<and>
     map (filter_field p) (Resource f) = map (filter_field p) (Resource g) \<and>
     map (filter_field p) (Attribute f) = map (filter_field p) (Attribute g)"

text \<open>Two results agree on the text when both are accepted.\<close>

definition same_text :: "clause result \<Rightarrow> clause result \<Rightarrow> bool" where
  "same_text r r' \<longleftrightarrow> (\<forall>cl cl'. r = Inr cl \<longrightarrow> r' = Inr cl' \<longrightarrow> fst cl = fst cl')"

lemma same_textI: "(\<And>cl cl'. r = Inr cl \<Longrightarrow> r' = Inr cl' \<Longrightarrow> fst cl = fst cl') \<Longrightarrow> same_text r r'"
  by (simp add: same_text_def)

lemma same_text_Inl [simp]: "same_text (Inl e) r" "same_text r (Inl e)"
  by (simp_all add: same_text_def)

lemma same_text_Inr [simp]: "same_text (Inr cl) (Inr cl') \<longleftrightarrow> fst cl = fst cl'"
  by (simp add: same_text_def)

lemma same_text_bind:
  "same_text r r' \<Longrightarrow>
     (\<And>cl cl'. fst cl = fst cl' \<Longrightarrow> same_text (k cl) (k' cl')) \<Longrightarrow>
     same_text (case r of Inl e \<Rightarrow> Inl e | Inr cl \<Rightarrow> k cl)
       (case r' of Inl e \<Rightarrow> Inl e | Inr cl \<Rightarrow> k' cl)"
  by (cases r; cases r') simp_all

lemma and_when_text:
  "fst cl = fst cl' \<Longrightarrow> (v = []) = (v' = []) \<Longrightarrow>
     fst (and_when v c b cl) = fst (and_when v' c b' cl')"
  by (simp add: and_when_def)

lemma step_texts:
  assumes "fst cl = fst cl'" "(v = []) = (v' = [])"
  shows "same_text (and_id v c n cl) (and_id v' c n cl')"
    and "same_text (and_code v k c table msg cl) (and_code v' k' c table msg cl')"
    and "same_text (and_member v c allowed msg cl) (and_member v' c allowed msg cl')"
    and "same_text (and_resource_id ul v cl) (and_resource_id ul v' cl')"
    and "same_text (min_duration p v cl) (min_duration p v' cl')"
    and "same_text (until_clause p v field since cl) (until_clause p v' field since' cl')"
  using assms
  by (auto simp: same_text_def and_id_def and_code_def and_member_def and_resource_id_def
      min_duration_def until_clause_def simp del: append_Cons
      split: if_splits option.splits sum.splits)

lemma attribute_filters_text:
  "fst cl = fst cl' \<Longrightarrow> map (filter_field p) vs = map (filter_field p) vs' \<Longrightarrow>
     same_text (attribute_filters p column vs cl) (attribute_filters p column vs' cl')"
proof (induction vs arbitrary: vs' cl cl')
  case (Cons v vs)
  then obtain v' ws where vs': "vs' = v' # ws" by (cases vs') auto
  with Cons.prems(2) have eq: "filter_field p v = filter_field p v'"
    "map (filter_field p) vs = map (filter_field p) ws" by simp_all
  show ?case
  proof (cases "attributeFilter p column v"; cases "attributeFilter p column v'")
    fix a b
    assume a: "attributeFilter p column v = Inr a" and b: "attributeFilter p column v' = Inr b"
    have "fst a = fst b"
      using a b eq(1)
      by (auto simp: attributeFilter_def filter_field_def simp del: append_Cons
          split: option.splits sum.splits if_splits)
    then show ?thesis
      using a b vs' Cons.prems(1) Cons.IH [OF _ eq(2)]
      by (simp add: split_beta del: append_Cons)
  qed (simp_all add: vs')
qed simp

lemma same_shape_parts:
  assumes "same_shape p f g"
  shows "TimeBasis f = TimeBasis g" "Payload f = Payload g"
    "(Until f = []) = (Until g = [])" "(Service f = []) = (Service g = [])"
    "(Scope f = []) = (Scope g = [])" "(ScopeVersion f = []) = (ScopeVersion g = [])"
    "(Level f = []) = (Level g = [])" "(Name f = []) = (Name g = [])"
    "(TraceID f = []) = (TraceID g = [])" "(SpanID f = []) = (SpanID g = [])"
    "(Kind f = []) = (Kind g = [])" "(Status f = []) = (Status g = [])"
    "(MinDuration f = []) = (MinDuration g = [])" "(MetricType f = []) = (MetricType g = [])"
    "(Temporality f = []) = (Temporality g = [])" "(ResourceID f = []) = (ResourceID g = [])"
    "map (filter_field p) (Resource f) = map (filter_field p) (Resource g)"
    "map (filter_field p) (Attribute f) = map (filter_field p) (Attribute g)"
  using assms by (simp_all add: same_shape_def given_def)

lemma otelWhere_text:
  assumes "same_shape p f g"
  shows "same_text (otelWhere p f now event) (otelWhere p g now' event)"
proof (rule same_textI)
  note sh = same_shape_parts [OF assms]
  fix cl cl'
  assume a: "otelWhere p f now event = Inr cl" and b: "otelWhere p g now' event = Inr cl'"
  from a obtain field since cl1 cl2 where
    fa: "time_field (TimeBasis f) event = Inr field" and
    ua: "until_clause p (Until f) field since (field @ ''>=?'', [ArgInt since]) = Inr cl1" and
    ra: "attribute_filters p ''resource_attributes'' (Resource f)
        (and_when (ScopeVersion f) ''scope_version=?'' (ArgText (ScopeVersion f))
          (and_when (Scope f) ''scope_name=?'' (ArgText (Scope f))
            (and_when (Service f) ''service_name=?'' (ArgText (Service f)) cl1))) = Inr cl2" and
    la: "attribute_filters p ''attributes'' (Attribute f) cl2 = Inr cl"
    unfolding otelWhere_def Let_def by (auto simp del: append_Cons split: sum.splits if_splits)
  from b fa sh(1) obtain since' cl1' cl2' where
    ub: "until_clause p (Until g) field since' (field @ ''>=?'', [ArgInt since']) = Inr cl1'" and
    rb: "attribute_filters p ''resource_attributes'' (Resource g)
        (and_when (ScopeVersion g) ''scope_version=?'' (ArgText (ScopeVersion g))
          (and_when (Scope g) ''scope_name=?'' (ArgText (Scope g))
            (and_when (Service g) ''service_name=?'' (ArgText (Service g)) cl1'))) = Inr cl2'" and
    lb: "attribute_filters p ''attributes'' (Attribute g) cl2' = Inr cl'"
    unfolding otelWhere_def Let_def by (auto simp del: append_Cons split: sum.splits if_splits)
  have "fst cl1 = fst cl1'"
    using step_texts(6) [of "(field @ ''>=?'', [ArgInt since])" "(field @ ''>=?'', [ArgInt since'])", OF _ sh(3),
        of p field since since'] ua ub
    by simp
  then have "fst cl2 = fst cl2'"
    using attribute_filters_text [OF and_when_text [OF and_when_text [OF and_when_text [OF _ sh(4)] sh(5)] sh(6)] sh(17)]
      ra rb by (metis same_text_Inr)
  then show "fst cl = fst cl'"
    using attribute_filters_text [OF _ sh(18)] la lb by (metis same_text_Inr)
qed

lemma log_ids_text:
  assumes "same_shape p f g" "fst cl = fst cl'"
  shows "same_text (log_ids f cl) (log_ids g cl')"
  unfolding log_ids_def
  by (intro same_text_bind step_texts assms same_shape_parts [OF assms(1)])

lemma Logs_text:
  assumes "same_shape p f g"
  shows "same_text (Logs ul p f now) (Logs ul p g now')"
  unfolding Logs_def same_shape_parts(2) [OF assms]
  by (intro same_text_bind otelWhere_text [OF assms] step_texts log_ids_text [OF assms]
      same_shape_parts [OF assms]) simp_all

lemma Spans_text:
  assumes "same_shape p f g"
  shows "same_text (Spans p f now) (Spans p g now')"
  unfolding Spans_def same_shape_parts(2) [OF assms]
  by (intro same_text_bind otelWhere_text [OF assms] step_texts log_ids_text [OF assms] and_when_text
      same_shape_parts [OF assms]) simp_all

lemma service_union_text:
  assumes "same_shape p f g"
  shows "fst cl = fst cl' \<Longrightarrow>
    same_text (service_union p f now later ss cl) (service_union p g now' later ss cl')"
proof (induction ss arbitrary: later cl cl')
  case (Cons s ss)
  have "service_select f s wh = service_select g s wh" for wh
    by (simp add: service_select_def same_shape_parts(1) [OF assms])
  then show ?case
    using Cons
    by (auto intro!: same_text_bind otelWhere_text assms simp: split_beta simp del: append_Cons)
qed simp

lemma Services_text:
  assumes "same_shape p f g"
  shows "same_text (Services p f now) (Services p g now')"
  unfolding Services_def
  by (intro same_text_bind service_union_text [OF assms]) simp_all

lemma MetricQuery_text:
  assumes "same_shape p f g"
  shows "same_text (MetricQuery ul p f now view) (MetricQuery ul p g now' view)"
proof -
  have "same_text (metric_where ul p f now) (metric_where ul p g now')"
    unfolding metric_where_def
    by (intro same_text_bind otelWhere_text [OF assms] step_texts and_when_text
        same_shape_parts [OF assms])
  then show ?thesis
    unfolding MetricQuery_def Let_def same_shape_parts(2) [OF assms]
    by (intro same_text_bind) (auto simp: same_text_def)
qed

text \<open>
  C18. Filter values cannot change the statement: for every built-in command, two sets of
  filters in which the same filters are given (attribute filters of the same OTLP type), with
  any values and at any time, yield the same SQL text whenever both are accepted.
\<close>

theorem filters_do_not_reach_sql_text:
  assumes "same_shape p f g" "name \<noteq> ''sql''"
    "command_statement ul p name view f posargs now sqlText = Inr (st, args)"
    "command_statement ul p name view g posargs' now' sqlText' = Inr (st', args')"
  shows "st = st'"
proof -
  have "same_text (Trace i b) (Trace j b)" for i j b
    by (auto simp: Trace_def same_text_def split: sum.splits)
  then have "same_text (command_statement ul p name view f posargs now sqlText)
      (command_statement ul p name view g posargs' now' sqlText')"
    using Logs_text [OF assms(1)] Spans_text [OF assms(1)] Services_text [OF assms(1)]
      MetricQuery_text [OF assms(1)] same_shape_parts(2) [OF assms(1)] assms(2)
    by (simp add: command_statement_def split: list.split)
  with assms(3,4) show ?thesis by simp
qed

section \<open>A concrete query\<close>

definition some_parsers :: parsers where
  "some_parsers = \<lparr>ps_duration = (\<lambda>_. Some 900000000000), ps_time = (\<lambda>_. None),
     ps_json = (\<lambda>_. None), ps_float = (\<lambda>_. None)\<rparr>"

definition service_filter :: "string \<Rightarrow> Filters" where
  "service_filter s = \<lparr>Service = s, Since = ''15m'', Until = [], TimeBasis = ''received'', Level = [],
     Name = [], Scope = [], ScopeVersion = [], TraceID = [], SpanID = [], Kind = [], Status = [],
     MinDuration = [], MetricType = [], Temporality = [], ResourceID = [], Resource = [],
     Attribute = [], Payload = False\<rparr>"

lemma service_query:
  assumes "s \<noteq> []"
  shows "command_statement ul some_parsers ''logs'' [] (service_filter s) [] 900000000007 sqlText =
    Inr (select_from log_source (log_columns False) ''received_at_unix_nano>=? AND service_name=?'',
      [ArgInt 7, ArgText s])"
  using assms
  by (simp add: command_statement_def Logs_def otelWhere_def time_field_def cutoff_def
      until_clause_def and_when_def and_code_def log_ids_def and_id_def some_parsers_def
      service_filter_def wrap64_def)

theorem builtin_statements_wellformed_witness:
  "placeholders (select_from log_source (log_columns False)
     ''received_at_unix_nano>=? AND service_name=?'') = length [ArgInt 7, ArgText ''api'']"
  using builtin_statements_wellformed [OF service_query [of "''api''"]] by simp

theorem filters_do_not_reach_sql_text_witness:
  "fst (projr (command_statement id some_parsers ''logs'' [] (service_filter ''api'') [] 900000000007 (Inr []))) =
   fst (projr (command_statement id some_parsers ''logs'' [] (service_filter ''1; DROP'') [] 900000000007 (Inr [])))"
  (is "fst (projr ?a) = fst (projr ?b)")
proof (rule filters_do_not_reach_sql_text)
  show "same_shape some_parsers (service_filter ''api'') (service_filter ''1; DROP'')"
    by (simp add: same_shape_def given_def service_filter_def)
  show "?a = Inr (fst (projr ?a), snd (projr ?a))" "?b = Inr (fst (projr ?b), snd (projr ?b))"
    by (simp_all add: service_query)
qed simp

end
