(* ===== verification/JsonText.thy ===== *)
theory JsonText
  imports GoText
begin

text \<open>
  UTF-8 as Go reads it, and the output of \<open>encoding/json\<close>: the escaping of strings with
  HTML escaping on, and \<open>json.Marshal\<close> of decoded values, where objects are Go maps and
  are written with their keys sorted.
\<close>

section \<open>UTF-8\<close>

definition continuation :: "char \<Rightarrow> bool" where
  "continuation c \<longleftrightarrow> 128 \<le> byte c \<and> byte c < 192"

text \<open>
  \<open>utf8.DecodeRune\<close>: the code point and its width; \<open>None\<close> for an invalid sequence,
  which Go reads as U+FFFD of width 1.
\<close>

definition second_ok :: "nat \<Rightarrow> char \<Rightarrow> bool" where
  "second_ok b0 c \<longleftrightarrow> continuation c \<and>
     (b0 = 224 \<longrightarrow> 160 \<le> byte c) \<and> (b0 = 237 \<longrightarrow> byte c < 160) \<and>
     (b0 = 240 \<longrightarrow> 144 \<le> byte c) \<and> (b0 = 244 \<longrightarrow> byte c < 144)"

fun decode_rune :: "string \<Rightarrow> (nat \<times> nat) option" where
  "decode_rune [] = None"
| "decode_rune (a # cs) =
     (let b0 = byte a in
      if b0 < 128 then Some (b0, 1)
      else (case cs of
          [] \<Rightarrow> None
        | c1 # cs1 \<Rightarrow>
            if \<not> second_ok b0 c1 then None
            else if 194 \<le> b0 \<and> b0 < 224 then Some ((b0 - 192) * 64 + (byte c1 - 128), 2)
            else (case cs1 of
                [] \<Rightarrow> None
              | c2 # cs2 \<Rightarrow>
                  if \<not> continuation c2 then None
                  else if 224 \<le> b0 \<and> b0 < 240
                  then Some (((b0 - 224) * 64 + (byte c1 - 128)) * 64 + (byte c2 - 128), 3)
                  else (case cs2 of
                      [] \<Rightarrow> None
                    | c3 # _ \<Rightarrow>
                        if continuation c3 \<and> 240 \<le> b0 \<and> b0 < 245
                        then Some ((((b0 - 240) * 64 + (byte c1 - 128)) * 64 + (byte c2 - 128)) * 64
                          + (byte c3 - 128), 4)
                        else None))))"

lemma decode_rune_width: "decode_rune s = Some (r, w) \<Longrightarrow> 1 \<le> w \<and> w \<le> length s"
  by (cases s) (auto simp: Let_def split: if_splits list.splits)

lemma decode_rune_ascii: "byte c < 128 \<Longrightarrow> decode_rune (c # cs) = Some (byte c, 1)"
  by simp

declare decode_rune.simps [simp del]

text \<open>The code points of \<open>for _, r := range s\<close>.\<close>

function runes :: "string \<Rightarrow> nat list" where
  "runes [] = []"
| "runes (c # cs) =
     (case decode_rune (c # cs) of
        None \<Rightarrow> 65533 # runes cs
      | Some (r, w) \<Rightarrow> r # runes (drop w (c # cs)))"
  by pat_completeness auto
termination
  by (relation "measure length") (auto dest: decode_rune_width)

text \<open>\<open>utf8.AppendRune\<close> of a code point a string can yield.\<close>

definition encode_rune :: "nat \<Rightarrow> string" where
  "encode_rune r =
     map char_of
       (if r < 128 then [r]
        else if r < 2048 then [192 + r div 64, 128 + r mod 64]
        else if r < 65536 then [224 + r div 4096, 128 + r div 64 mod 64, 128 + r mod 64]
        else [240 + r div 262144, 128 + r div 4096 mod 64, 128 + r div 64 mod 64, 128 + r mod 64])"

section \<open>JSON strings\<close>

abbreviation backslash :: char where
  "backslash \<equiv> CHR 0x5C"

abbreviation dquote :: char where
  "dquote \<equiv> CHR 0x22"

definition unicode_escape :: "nat \<Rightarrow> string" where
  "unicode_escape n =
     [backslash, CHR ''u'', hex_digit (n div 4096 mod 16), hex_digit (n div 256 mod 16),
      hex_digit (n div 16 mod 16), hex_digit (n mod 16)]"

text \<open>One byte below 128.\<close>

definition json_escape :: "char \<Rightarrow> string" where
  "json_escape c =
     (if c = backslash \<or> c = dquote then [backslash, c]
      else if c = CHR 0x08 then [backslash, CHR ''b'']
      else if c = CHR 0x0C then [backslash, CHR ''f'']
      else if c = CHR 0x0A then [backslash, CHR ''n'']
      else if c = CHR 0x0D then [backslash, CHR ''r'']
      else if c = CHR 0x09 then [backslash, CHR ''t'']
      else if byte c < 32 \<or> c = CHR ''<'' \<or> c = CHR ''>'' \<or> c = CHR ''&'' then unicode_escape (byte c)
      else [c])"

function json_chars :: "string \<Rightarrow> string" where
  "json_chars [] = []"
| "json_chars (c # cs) =
     (if byte c < 128 then json_escape c @ json_chars cs
      else (case decode_rune (c # cs) of
              None \<Rightarrow> unicode_escape 65533 @ json_chars cs
            | Some (r, w) \<Rightarrow>
                (if r = 8232 \<or> r = 8233 then unicode_escape r else take w (c # cs)) @
                json_chars (drop w (c # cs))))"
  by pat_completeness auto
termination
  by (relation "measure length") (auto dest: decode_rune_width)

definition json_string :: "string \<Rightarrow> string" where
  "json_string s = [dquote] @ json_chars s @ [dquote]"

text \<open>Text that needs no escape.\<close>

definition plain_json :: "string \<Rightarrow> bool" where
  "plain_json s \<longleftrightarrow> list_all (\<lambda>c. byte c < 128 \<and> json_escape c = [c]) s"

lemma json_chars_plain: "plain_json s \<Longrightarrow> json_chars s = s"
  by (induction s) (auto simp: plain_json_def)

lemma json_string_plain: "plain_json s \<Longrightarrow> json_string s = [dquote] @ s @ [dquote]"
  by (simp add: json_string_def json_chars_plain)

lemma json_string_length: "2 \<le> length (json_string s)"
  by (simp add: json_string_def)

section \<open>JSON values\<close>

text \<open>
  A value decoded with \<open>UseNumber\<close>: a number is its text; an object is a Go map, here the
  list of its entries with distinct keys in no particular order.
\<close>

datatype json =
    JNull
  | JBool bool
  | JNum string
  | JStr string
  | JArr "json list"
  | JObj "(string \<times> json) list"

text \<open>\<open>json.Marshal\<close> of such a value.\<close>

fun marshal :: "json \<Rightarrow> string" where
  "marshal JNull = ''null''"
| "marshal (JBool b) = (if b then ''true'' else ''false'')"
| "marshal (JNum n) = n"
| "marshal (JStr s) = json_string s"
| "marshal (JArr vs) = ''['' @ join '','' (map marshal vs) @ '']''"
| "marshal (JObj es) =
     ''{'' @ join '','' (map (\<lambda>(k, v). json_string k @ '':'' @ v)
       (sort_key fst (map (\<lambda>(k, v). (k, marshal v)) es))) @ ''}''"

lemma length_join: "length (join sep xs) = sum_list (map length xs) + (length xs - 1) * length sep"
proof (induction sep xs rule: join.induct)
  case (3 sep x y ys)
  then show ?case by simp
qed simp_all

end
