(* ===== verification/QueryRead.thy ===== *)
theory QueryRead
  imports SqlGuard JsonText
begin

text \<open>
  Bounded reads (\<open>Options.Validate\<close>, \<open>Read\<close>, \<open>emptyField\<close>, \<open>formatValue\<close> in
  \<^verbatim>\<open>internal/query/query.go\<close>). What SQLite yields for the statement, its columns and
  all its rows, comes from the environment, as do the failures of each call; the LIMIT and OFFSET
  of the wrapper are applied here. Formatting of times and floats, compaction of raw JSON and
  JSON validity are parameters.
\<close>

section \<open>Options and results\<close>

record Options =
  ColumnsOnly :: bool
  IncludeEmpty :: bool
  o_Columns :: "string list"
  o_Path :: string
  Limit :: int
  Offset :: int
  MaxBytes :: int
  Timeout :: int

text \<open>
  A value the driver returns or \<open>formatValue\<close> makes of it; \<open>CRaw\<close> is a
  \<open>json.RawMessage\<close>.
\<close>

datatype cell = CNull | CInt int | CReal "64 word" | CText string | CBlob string | CBool bool | CRaw string

type_synonym row = "(string \<times> cell) list"

record Result =
  r_Columns :: "string list"
  r_Rows :: "row list"
  Count :: int
  Truncated :: bool
  Reason :: string
  NextOffset :: "int option"

definition options_validate :: "Options \<Rightarrow> go_error option" where
  "options_validate opts =
     (if o_Path opts = [] then Some (Msg ''database path is required (--db or LOGAL_DB_PATH)'')
      else if Limit opts < 1 \<or> Limit opts > 10000 then Some (Msg ''limit must be between 1 and 10000'')
      else if Offset opts < 0 \<or> Offset opts > 1000000
      then Some (Msg ''offset must be between 0 and 1000000'')
      else if MaxBytes opts < 1024 \<or> MaxBytes opts > 16777216
      then Some (Msg ''max-bytes must be between 1024 and 16777216'')
      else if Timeout opts \<le> 0 \<or> Timeout opts > 30000000000
      then Some (Msg ''timeout must be positive and at most 30s'')
      else None)"

section \<open>The write barrier\<close>

text \<open>
  The authorizer: SQLITE_SELECT, SQLITE_READ, SQLITE_RECURSIVE, and functions other than
  \<open>load_extension\<close>. \<open>fold_eq\<close> is \<open>strings.EqualFold\<close>.
\<close>

definition authorize :: "(string \<Rightarrow> string \<Rightarrow> bool) \<Rightarrow> int \<Rightarrow> string \<Rightarrow> bool" where
  "authorize fold_eq operation name =
     (if operation = 21 \<or> operation = 20 \<or> operation = 33 then True
      else if operation = 31 then \<not> fold_eq name ''load_extension''
      else False)"

section \<open>Formatting\<close>

record codec =
  cd_time :: "int \<Rightarrow> string"
  cd_valid :: "string \<Rightarrow> bool"
  cd_real :: "64 word \<Rightarrow> string result"
  cd_raw :: "string \<Rightarrow> string"

definition time_columns :: "string list" where
  "time_columns = [''received_at'', ''time'', ''start_time'', ''end_time'', ''first_time'',
     ''last_time'', ''last_received_at'', ''interval_start'', ''interval_end'', ''observed_time'']"

definition json_columns :: "string list" where
  "json_columns = [''body'', ''payload'', ''resource_attributes'', ''scope_attributes'',
     ''attributes'', ''events'', ''links'', ''bucket_counts'', ''explicit_bounds'', ''positive'',
     ''negative'', ''quantile_values'', ''exemplars'']"

definition formatValue :: "codec \<Rightarrow> string \<Rightarrow> cell \<Rightarrow> cell" where
  "formatValue cd column v =
     (if column = ''monotonic'' then (case v of CInt n \<Rightarrow> CBool (n \<noteq> 0) | _ \<Rightarrow> v)
      else if column \<in> set time_columns then
        (case v of CInt n \<Rightarrow> if n = 0 then CNull else CText (cd_time cd n) | _ \<Rightarrow> v)
      else if column \<in> set json_columns then
        (case v of CText t \<Rightarrow> if cd_valid cd t then CRaw t else v | _ \<Rightarrow> v)
      else v)"

definition emptyField :: "cell \<Rightarrow> bool" where
  "emptyField v =
     (case v of
        CNull \<Rightarrow> True
      | CText s \<Rightarrow> s = []
      | CRaw s \<Rightarrow>
          (let raw = trim_space s in
           if raw = ''null'' \<or> raw = [dquote, dquote] then True
           else if length raw \<ge> 2 \<and> (hd raw = CHR ''['' \<and> last raw = CHR '']'' \<or>
                                      hd raw = CHR ''{'' \<and> last raw = CHR ''}'')
           then trim_space (butlast (drop 1 raw)) = []
           else False)
      | _ \<Rightarrow> False)"

text \<open>\<open>json.Marshal\<close> of a cell and of a row, which is a map: sorted keys.\<close>

fun encode_cell :: "codec \<Rightarrow> cell \<Rightarrow> string result" where
  "encode_cell cd CNull = Inr ''null''"
| "encode_cell cd (CInt n) = Inr (show_int n)"
| "encode_cell cd (CReal x) = cd_real cd x"
| "encode_cell cd (CText s) = Inr (json_string s)"
| "encode_cell cd (CBlob s) = Inr ([dquote] @ b64_encode s @ [dquote])"
| "encode_cell cd (CBool b) = Inr (if b then ''true'' else ''false'')"
| "encode_cell cd (CRaw s) = Inr (cd_raw cd s)"

fun encode_fields :: "codec \<Rightarrow> row \<Rightarrow> string list result" where
  "encode_fields cd [] = Inr []"
| "encode_fields cd ((k, v) # fs) =
     (case encode_cell cd v of
        Inl e \<Rightarrow> Inl e
      | Inr s \<Rightarrow>
          (case encode_fields cd fs of
             Inl e \<Rightarrow> Inl e
           | Inr ss \<Rightarrow> Inr ((json_string k @ '':'' @ s) # ss)))"

definition encode_row :: "codec \<Rightarrow> row \<Rightarrow> string result" where
  "encode_row cd fs =
     (case encode_fields cd (sort_key fst fs) of
        Inl e \<Rightarrow> Inl e
      | Inr ss \<Rightarrow> Inr (''{'' @ join '','' ss @ ''}''))"

text \<open>
  The encoding of a result whose rows encode as given, without the final newline. Fields that
  are empty are omitted where the tags say so.
\<close>

definition encode_result :: "Result \<Rightarrow> string list \<Rightarrow> string" where
  "encode_result r rows =
     ''{'' @ json_string ''columns'' @ '':['' @ join '','' (map json_string (r_Columns r)) @ '']'' @
     '','' @ json_string ''rows'' @ '':['' @ join '','' rows @ '']'' @
     '','' @ json_string ''count'' @ '':'' @ show_int (Count r) @
     '','' @ json_string ''truncated'' @ '':'' @ (if Truncated r then ''true'' else ''false'') @
     (if Reason r = [] then []
      else '','' @ json_string ''truncation_reason'' @ '':'' @ json_string (Reason r)) @
     (case NextOffset r of
        None \<Rightarrow> []
      | Some n \<Rightarrow> '','' @ json_string ''next_offset'' @ '':'' @ show_int n) @ ''}''"

definition empty_page :: "string list \<Rightarrow> Result" where
  "empty_page columns = \<lparr>r_Columns = columns, r_Rows = [], Count = 0, Truncated = False,
     Reason = [], NextOffset = None\<rparr>"

section \<open>Reading\<close>

record read_env =
  re_open :: "go_error option"
  re_conn :: "go_error option"
  re_setup :: "go_error option"
  re_query :: "go_error option"
  re_columns :: "string list result"
  re_table :: "cell list list"
  re_scan :: "nat \<Rightarrow> go_error option"
  re_rows_err :: "go_error option"
  re_ctx :: "go_error option"

text \<open>The first column that occurs twice.\<close>

fun first_duplicate :: "string list \<Rightarrow> string list \<Rightarrow> string option" where
  "first_duplicate seen [] = None"
| "first_duplicate seen (c # cs) =
     (if c \<in> set seen then Some c else first_duplicate (c # seen) cs)"

fun check_requested :: "string list \<Rightarrow> string list \<Rightarrow> string list \<Rightarrow> go_error option" where
  "check_requested columns requested [] = None"
| "check_requested columns requested (c # cs) =
     (if c \<notin> set columns
      then Some (Msg (''unknown column '' @ go_quote c @ ''; available columns: '' @ join '', '' columns))
      else if c \<in> set requested then Some (Msg (''duplicate requested column '' @ go_quote c))
      else check_requested columns (c # requested) cs)"

definition selected_columns :: "Options \<Rightarrow> string list \<Rightarrow> string list" where
  "selected_columns opts columns = (if o_Columns opts \<noteq> [] then o_Columns opts else columns)"

text \<open>The row a result shows for one row of values.\<close>

definition cell_of :: "codec \<Rightarrow> bool \<Rightarrow> string \<Rightarrow> cell \<Rightarrow> cell" where
  "cell_of cd fmt column v =
     (let v = (case v of CBlob b \<Rightarrow> CText (hex_encode b) | _ \<Rightarrow> v)
      in if fmt then formatValue cd column v else v)"

definition row_of :: "codec \<Rightarrow> bool \<Rightarrow> Options \<Rightarrow> string list \<Rightarrow> cell list \<Rightarrow> row" where
  "row_of cd fmt opts columns values =
     filter (\<lambda>(c, v). IncludeEmpty opts \<or> \<not> emptyField v)
       (map (\<lambda>(c, v). (c, cell_of cd fmt c v))
         (filter (\<lambda>(c, v). c \<in> set (selected_columns opts columns)) (zip columns values)))"

definition new_names :: "row \<Rightarrow> string list \<Rightarrow> string list" where
  "new_names r visible = filter (\<lambda>c. c \<notin> set visible) (map fst r)"

definition column_bytes :: "Options \<Rightarrow> row \<Rightarrow> string list \<Rightarrow> int" where
  "column_bytes opts r visible =
     (if IncludeEmpty opts then 0
      else int (sum_list (map (\<lambda>c. length (json_string c) + 1) (new_names r visible))))"

text \<open>
  The row loop: the rows read so far with their encodings, the names shown and the bytes used;
  the result adds the reason for stopping early, empty when the rows ran out.
\<close>

record scan_state =
  ss_rows :: "row list"
  ss_texts :: "string list"
  ss_visible :: "string list"
  ss_used :: int

fun read_rows ::
    "codec \<Rightarrow> bool \<Rightarrow> Options \<Rightarrow> string list \<Rightarrow> (nat \<Rightarrow> go_error option) \<Rightarrow> nat \<Rightarrow> cell list list
      \<Rightarrow> scan_state \<Rightarrow> (scan_state \<times> string) result" where
  "read_rows cd fmt opts columns fault i [] st = Inr (st, [])"
| "read_rows cd fmt opts columns fault i (values # rest) st =
     (if int (length (ss_rows st)) = Limit opts then Inr (st, ''row_limit'')
      else
     (case fault i of
        Some e \<Rightarrow> Inl e
      | None \<Rightarrow>
          let r = row_of cd fmt opts columns values in
     (case encode_row cd r of
        Inl e \<Rightarrow> Inl e
      | Inr text \<Rightarrow>
          let cost = int (length text) + 1 + column_bytes opts r (ss_visible st) in
          if ss_used st + cost > MaxBytes opts
          then (if ss_rows st = []
                then Inl (Msg ''first row exceeds output budget; increase --max-bytes or choose fewer --columns'')
                else Inr (st, ''byte_limit''))
          else read_rows cd fmt opts columns fault (Suc i) rest
            (st\<lparr>ss_rows := ss_rows st @ [r], ss_texts := ss_texts st @ [text],
               ss_visible := new_names r (ss_visible st) @ ss_visible st,
               ss_used := ss_used st + cost\<rparr>))))"

text \<open>The rows the wrapped statement yields.\<close>

definition page :: "Options \<Rightarrow> cell list list \<Rightarrow> cell list list" where
  "page opts table = take (nat (Limit opts) + 1) (drop (nat (Offset opts)) table)"

definition finish_read :: "Options \<Rightarrow> string list \<Rightarrow> scan_state \<Rightarrow> string \<Rightarrow> Result" where
  "finish_read opts selected st reason =
     \<lparr>r_Columns = (if IncludeEmpty opts then selected
                   else filter (\<lambda>c. c \<in> set (ss_visible st)) selected),
      r_Rows = ss_rows st, Count = int (length (ss_rows st)), Truncated = (reason \<noteq> []),
      Reason = reason,
      NextOffset = (if reason \<noteq> [] then Some (Offset opts + int (length (ss_rows st))) else None)\<rparr>"

text \<open>
  After the query has been accepted. The second component of the result is the encoding of its
  rows, which the result determines.
\<close>

definition read_result ::
    "codec \<Rightarrow> bool \<Rightarrow> Options \<Rightarrow> read_env \<Rightarrow> string list \<Rightarrow> (Result \<times> string list) result" where
  "read_result cd fmt opts env columns =
     (case first_duplicate [] columns of
        Some c \<Rightarrow> Inl (Msg (''duplicate column '' @ go_quote c @ ''; use distinct SQL aliases''))
      | None \<Rightarrow>
     if ColumnsOnly opts then
       (if int (length (encode_result (empty_page columns) [])) + 1 > MaxBytes opts
        then Inl (Msg ''column names exceed output budget'')
        else Inr (empty_page columns, []))
     else
     (case check_requested columns [] (o_Columns opts) of
        Some e \<Rightarrow> Inl e
      | None \<Rightarrow>
          let selected = selected_columns opts columns;
              header = encode_result (empty_page (if IncludeEmpty opts then selected else [])) [];
              used = int (length header) + 128
          in
          if used > MaxBytes opts then Inl (Msg ''column names exceed output budget'')
          else
     (case read_rows cd fmt opts columns (re_scan env) 0 (page opts (re_table env))
         \<lparr>ss_rows = [], ss_texts = [], ss_visible = [], ss_used = used\<rparr> of
        Inl e \<Rightarrow> Inl e
      | Inr (st, reason) \<Rightarrow>
     (case re_rows_err env of
        Some e \<Rightarrow> Inl e
      | None \<Rightarrow>
     (case re_ctx env of
        Some e \<Rightarrow> Inl e
      | None \<Rightarrow> Inr (finish_read opts selected st reason, ss_texts st))))))"

definition Read ::
    "codec \<Rightarrow> Options \<Rightarrow> string \<Rightarrow> bool \<Rightarrow> read_env \<Rightarrow> (Result \<times> string list) result" where
  "Read cd opts statement fmt env =
     (case options_validate opts of
        Some e \<Rightarrow> Inl e
      | None \<Rightarrow>
     (case singleStatement statement of
        Inl e \<Rightarrow> Inl e
      | Inr st \<Rightarrow>
     (case re_open env of
        Some e \<Rightarrow> Inl e
      | None \<Rightarrow>
     (case re_conn env of
        Some e \<Rightarrow> Inl e
      | None \<Rightarrow>
     (case re_setup env of
        Some e \<Rightarrow> Inl e
      | None \<Rightarrow>
     (case re_query env of
        Some e \<Rightarrow> Inl e
      | None \<Rightarrow>
     (case re_columns env of
        Inl e \<Rightarrow> Inl e
      | Inr columns \<Rightarrow> read_result cd fmt opts env columns)))))))"

end
