(* ===== verification/QueryReadProps.thy ===== *)
theory QueryReadProps
  imports QueryRead
begin

text \<open>
  What \<open>Read\<close> promises: the encoded result fits the byte budget, and a page shows a
  contiguous piece of the query's rows and says where the next one starts.
\<close>

section \<open>The row loop\<close>

definition names_cost :: "string list \<Rightarrow> int" where
  "names_cost cs = int (sum_list (map (\<lambda>c. length (json_string c) + 1) cs))"

definition texts_cost :: "string list \<Rightarrow> int" where
  "texts_cost ts = int (sum_list (map (\<lambda>t. length t + 1) ts))"

lemma cost_simps [simp]:
  "names_cost [] = 0" "texts_cost [] = 0" "names_cost (xs @ ys) = names_cost xs + names_cost ys"
  "texts_cost (ts @ us) = texts_cost ts + texts_cost us" "texts_cost [t] = int (length t) + 1"
  by (simp_all add: names_cost_def texts_cost_def)

lemma first_duplicate_None: "first_duplicate seen cs = None \<longleftrightarrow> distinct cs \<and> set cs \<inter> set seen = {}"
  by (induction seen cs rule: first_duplicate.induct) auto

lemma check_requested_None:
  "check_requested columns requested cs = None \<longleftrightarrow>
     set cs \<subseteq> set columns \<and> distinct cs \<and> set cs \<inter> set requested = {}"
  by (induction columns requested cs rule: check_requested.induct) auto

lemma row_of_names: "map fst (row_of cd fmt opts columns vals) =
    map fst (filter (\<lambda>(c, v). c \<in> set (selected_columns opts columns) \<and>
      (IncludeEmpty opts \<or> \<not> emptyField (cell_of cd fmt c v))) (zip columns vals))"
  by (simp add: row_of_def filter_map comp_def case_prod_unfold conj_commute)

lemma row_of_distinct: "distinct columns \<Longrightarrow> distinct (map fst (row_of cd fmt opts columns vals))"
  unfolding row_of_names
  by (intro distinct_map_filter) (simp add: map_fst_zip_take)

definition loop_ok ::
    "codec \<Rightarrow> bool \<Rightarrow> Options \<Rightarrow> string list \<Rightarrow> int \<Rightarrow> cell list list \<Rightarrow> scan_state \<Rightarrow> bool" where
  "loop_ok cd fmt opts columns used0 sofar st \<longleftrightarrow>
     ss_rows st = map (row_of cd fmt opts columns) sofar \<and>
     list_all2 (\<lambda>r t. encode_row cd r = Inr t) (ss_rows st) (ss_texts st) \<and>
     distinct (ss_visible st) \<and> int (length sofar) \<le> Limit opts \<and>
     ss_used st = used0 + texts_cost (ss_texts st) +
       (if IncludeEmpty opts then 0 else names_cost (ss_visible st)) \<and>
     ss_used st \<le> MaxBytes opts"

lemma loop_ok_texts:
  "loop_ok cd fmt opts columns used0 sofar st \<Longrightarrow>
     list_all2 (\<lambda>row t. encode_row cd row = Inr t) (ss_rows st) (ss_texts st)"
  unfolding loop_ok_def by (elim conjE) assumption

lemma new_names_distinct:
  "distinct (map fst r) \<Longrightarrow> distinct visible \<Longrightarrow> distinct (new_names r visible @ visible)"
  by (auto simp: new_names_def)

lemma column_bytes_cost:
  "column_bytes opts r visible = (if IncludeEmpty opts then 0 else names_cost (new_names r visible))"
  by (simp add: column_bytes_def names_cost_def)

lemma read_rows_step:
  assumes "loop_ok cd fmt opts columns used0 sofar st" "int (length (ss_rows st)) \<noteq> Limit opts"
    "r = row_of cd fmt opts columns vals" "encode_row cd r = Inr enc" "distinct columns"
    "ss_used st + (int (length enc) + 1 + column_bytes opts r (ss_visible st)) \<le> MaxBytes opts"
  shows "loop_ok cd fmt opts columns used0 (sofar @ [vals])
    (st\<lparr>ss_rows := ss_rows st @ [r], ss_texts := ss_texts st @ [enc],
        ss_visible := new_names r (ss_visible st) @ ss_visible st,
        ss_used := ss_used st + (int (length enc) + 1 + column_bytes opts r (ss_visible st))\<rparr>)"
  using assms new_names_distinct [of r "ss_visible st"] row_of_distinct [OF assms(5)]
  by (auto simp: loop_ok_def column_bytes_cost list_all2_appendI)

lemma read_rows_spec:
  "read_rows cd fmt opts columns fault i rest st = Inr (st', reason) \<Longrightarrow>
     loop_ok cd fmt opts columns used0 sofar st \<Longrightarrow> distinct columns \<Longrightarrow> 1 \<le> Limit opts \<Longrightarrow>
     \<exists>n. loop_ok cd fmt opts columns used0 (sofar @ take n rest) st' \<and> n \<le> length rest \<and>
       (reason = [] \<longleftrightarrow> n = length rest) \<and> (reason \<noteq> [] \<longrightarrow> ss_rows st' \<noteq> []) \<and>
       (reason = [] \<or> reason = ''row_limit'' \<or> reason = ''byte_limit'')"
proof (induction rest arbitrary: i st sofar)
  case Nil
  then show ?case by auto
next
  case (Cons vals rest)
  let ?r = "row_of cd fmt opts columns vals"
  show ?case
  proof (cases "int (length (ss_rows st)) = Limit opts")
    case True
    with Cons.prems show ?thesis by (intro exI [of _ 0]) auto
  next
    case False
    with Cons.prems(1) obtain enc where enc: "fault i = None" "encode_row cd ?r = Inr enc"
      by (auto simp: Let_def split: option.splits sum.splits)
    let ?cost = "int (length enc) + 1 + column_bytes opts ?r (ss_visible st)"
    show ?thesis
    proof (cases "ss_used st + ?cost > MaxBytes opts")
      case True
      with Cons.prems False enc show ?thesis
        by (intro exI [of _ 0]) (auto simp: Let_def split: if_splits)
    next
      case fits: False
      from read_rows_step [OF Cons.prems(2) False refl enc(2) Cons.prems(3)] fits
      have ok: "loop_ok cd fmt opts columns used0 (sofar @ [vals])
        (st\<lparr>ss_rows := ss_rows st @ [?r], ss_texts := ss_texts st @ [enc],
            ss_visible := new_names ?r (ss_visible st) @ ss_visible st,
            ss_used := ss_used st + ?cost\<rparr>)" by simp
      have "read_rows cd fmt opts columns fault (Suc i) rest
          (st\<lparr>ss_rows := ss_rows st @ [?r], ss_texts := ss_texts st @ [enc],
            ss_visible := new_names ?r (ss_visible st) @ ss_visible st,
            ss_used := ss_used st + ?cost\<rparr>) = Inr (st', reason)"
        using Cons.prems(1) False enc fits by (simp add: Let_def)
      from Cons.IH [OF this ok Cons.prems(3,4)] obtain n where
        "loop_ok cd fmt opts columns used0 ((sofar @ [vals]) @ take n rest) st' \<and> n \<le> length rest \<and>
         (reason = [] \<longleftrightarrow> n = length rest) \<and> (reason \<noteq> [] \<longrightarrow> ss_rows st' \<noteq> []) \<and>
         (reason = [] \<or> reason = ''row_limit'' \<or> reason = ''byte_limit'')" by blast
      then show ?thesis by (intro exI [of _ "Suc n"]) auto
    qed
  qed
qed

section \<open>The size of a result\<close>

lemma length_show_nat: "n < 10 ^ k \<Longrightarrow> 0 < k \<Longrightarrow> length (show_nat n) \<le> k"
proof (induction k arbitrary: n)
  case (Suc k)
  show ?case
  proof (cases "n < 10")
    case True
    then show ?thesis by (simp add: show_nat.simps [of n])
  next
    case False
    with Suc.prems have "0 < k" by (cases k) auto
    moreover have "n div 10 < 10 ^ k"
      using Suc.prems(1) by (simp add: div_less_iff_less_mult mult.commute)
    ultimately have "length (show_nat (n div 10)) \<le> k" by (rule Suc.IH [rotated])
    with False show ?thesis by (simp add: show_nat.simps [of n])
  qed
qed simp

lemma length_show_int: "0 \<le> i \<Longrightarrow> i < 10 ^ k \<Longrightarrow> 0 < k \<Longrightarrow> length (show_int i) \<le> k"
  using length_show_nat [of "nat i" k] by (simp add: show_int_def nat_less_iff)

lemma json_escape_plain_eval: "plain_json (c # cs) \<longleftrightarrow> byte c < 128 \<and> json_escape c = [c] \<and> plain_json cs"
  by (simp add: plain_json_def)

lemma plain_keys:
  "length (json_string ''truncation_reason'') = 19" "length (json_string ''next_offset'') = 13"
  "length (json_string ''row_limit'') = 11" "length (json_string ''byte_limit'') = 12"
  by (simp_all add: json_string_def json_escape_def byte_def unicode_escape_def)

text \<open>The part of the encoding that does not depend on columns, rows and the page.\<close>

definition frame_bytes :: int where
  "frame_bytes = int (length (encode_result (empty_page []) [])) - 6"

lemma length_encode:
  "int (length (encode_result r ts)) = frame_bytes +
     int (length (join '','' (map json_string (r_Columns r)))) + int (length (join '','' ts)) +
     int (length (show_int (Count r))) + (if Truncated r then 4 else 5) +
     (if Reason r = [] then 0 else 21 + int (length (json_string (Reason r)))) +
     (case NextOffset r of None \<Rightarrow> 0 | Some n \<Rightarrow> 15 + int (length (show_int n)))"
proof -
  have "length (show_int 0) = 1" by (simp add: show_int_def show_nat.simps [of 0])
  then show ?thesis
    by (simp add: encode_result_def frame_bytes_def empty_page_def plain_keys split: option.split)
qed

lemma join_cost: "int (length (join '','' ts)) \<le> texts_cost ts"
proof -
  have "sum_list (map (\<lambda>t. length t + 1) ts) = sum_list (map length ts) + length ts"
    by (induction ts) auto
  then show ?thesis unfolding length_join texts_cost_def by simp
qed

lemma join_names_cost: "int (length (join '','' (map json_string cs))) \<le> names_cost cs"
  using join_cost [of "map json_string cs"] by (simp add: texts_cost_def names_cost_def comp_def)

lemma names_cost_subset:
  assumes "distinct xs" "distinct ys" "set xs \<subseteq> set ys"
  shows "names_cost xs \<le> names_cost ys"
proof -
  let ?f = "\<lambda>c. length (json_string c) + 1"
  have "sum ?f (set xs) \<le> sum ?f (set ys)"
    using assms(3) by (intro sum_mono2) auto
  then show ?thesis
    using assms(1,2) by (simp only: names_cost_def sum_list_distinct_conv_sum_set zle_int)
qed

section \<open>What a successful read returns\<close>

lemma Read_Inr:
  assumes "Read cd opts statement fmt env = Inr (r, ts)"
  obtains columns where "options_validate opts = None" "re_columns env = Inr columns"
    "read_result cd fmt opts env columns = Inr (r, ts)"
  using assms by (auto simp: Read_def split: option.splits sum.splits)

lemma validated_options:
  "options_validate opts = None \<Longrightarrow> 1 \<le> Limit opts \<and> Limit opts \<le> 10000 \<and> 0 \<le> Offset opts \<and>
     Offset opts \<le> 1000000 \<and> 1024 \<le> MaxBytes opts"
  by (auto simp: options_validate_def split: if_splits)

definition header_columns :: "Options \<Rightarrow> string list \<Rightarrow> string list" where
  "header_columns opts columns =
     (if IncludeEmpty opts then selected_columns opts columns else [])"

lemma read_result_Inr:
  assumes "read_result cd fmt opts env columns = Inr (r, ts)" "\<not> ColumnsOnly opts"
    "1 \<le> Limit opts"
  obtains n st reason where "distinct columns" "distinct (selected_columns opts columns)"
    "set (selected_columns opts columns) \<subseteq> set columns"
    "loop_ok cd fmt opts columns
       (int (length (encode_result (empty_page (header_columns opts columns)) [])) + 128)
       (take n (page opts (re_table env))) st"
    "n \<le> length (page opts (re_table env))" "reason = [] \<longleftrightarrow> n = length (page opts (re_table env))"
    "reason \<noteq> [] \<longrightarrow> ss_rows st \<noteq> []" "reason = [] \<or> reason = ''row_limit'' \<or> reason = ''byte_limit''"
    "r = finish_read opts (selected_columns opts columns) st reason" "ts = ss_texts st"
proof -
  let ?used = "int (length (encode_result (empty_page (header_columns opts columns)) [])) + 128"
  let ?st0 = "\<lparr>ss_rows = [], ss_texts = [], ss_visible = [], ss_used = ?used\<rparr>"
  from assms(1,2) obtain st reason where h: "first_duplicate [] columns = None"
    "check_requested columns [] (o_Columns opts) = None" "?used \<le> MaxBytes opts"
    "read_rows cd fmt opts columns (re_scan env) 0 (page opts (re_table env)) ?st0 = Inr (st, reason)"
    "r = finish_read opts (selected_columns opts columns) st reason" "ts = ss_texts st"
    unfolding read_result_def header_columns_def Let_def
    by (auto split: option.splits sum.splits if_splits)
  have d: "distinct columns" using h(1) by (simp add: first_duplicate_None)
  have sel: "distinct (selected_columns opts columns)" "set (selected_columns opts columns) \<subseteq> set columns"
    using h(2) d by (auto simp: check_requested_None selected_columns_def)
  have "loop_ok cd fmt opts columns ?used [] ?st0"
    using h(3) assms(3) by (simp add: loop_ok_def)
  from read_rows_spec [OF h(4) this d assms(3)] obtain n where
    "loop_ok cd fmt opts columns ?used (take n (page opts (re_table env))) st"
    "n \<le> length (page opts (re_table env))" "reason = [] \<longleftrightarrow> n = length (page opts (re_table env))"
    "reason \<noteq> [] \<longrightarrow> ss_rows st \<noteq> []" "reason = [] \<or> reason = ''row_limit'' \<or> reason = ''byte_limit''"
    by auto
  then show ?thesis using that d sel h(5,6) by blast
qed

lemma finish_read_fits:
  assumes "loop_ok cd fmt opts columns
      (int (length (encode_result (empty_page (header_columns opts columns)) [])) + 128) sofar st"
    "options_validate opts = None" "distinct (selected_columns opts columns)"
    "reason = [] \<or> reason = ''row_limit'' \<or> reason = ''byte_limit''"
  shows "int (length (encode_result (finish_read opts (selected_columns opts columns) st reason)
    (ss_texts st))) + 1 \<le> MaxBytes opts"
proof -
  let ?sel = "selected_columns opts columns"
  let ?r = "finish_read opts ?sel st reason"
  let ?n = "int (length (ss_rows st))"
  note v = validated_options [OF assms(2)]
  have n: "0 \<le> ?n" "?n \<le> Limit opts" using assms(1) by (auto simp: loop_ok_def)
  have count: "length (show_int ?n) \<le> 5" using n v by (intro length_show_int) auto
  have nxt: "length (show_int (Offset opts + ?n)) \<le> 7" using n v by (intro length_show_int) auto
  have cols: "int (length (join '','' (map json_string (r_Columns ?r)))) \<le>
      int (length (join '','' (map json_string (header_columns opts columns)))) +
      (if IncludeEmpty opts then 0 else names_cost (ss_visible st))"
  proof (cases "IncludeEmpty opts")
    case False
    have "names_cost (r_Columns ?r) \<le> names_cost (ss_visible st)"
      using assms(1,3) False by (intro names_cost_subset) (auto simp: finish_read_def loop_ok_def)
    with False join_names_cost [of "r_Columns ?r"] show ?thesis by (simp add: header_columns_def)
  qed (simp add: finish_read_def header_columns_def)
  have head: "int (length (encode_result (empty_page (header_columns opts columns)) [])) =
      frame_bytes + int (length (join '','' (map json_string (header_columns opts columns)))) + 6"
    unfolding length_encode by (simp add: empty_page_def show_int_def show_nat.simps [of 0])
  have tail: "(if Reason ?r = [] then 0 else 21 + int (length (json_string (Reason ?r)))) +
      (case NextOffset ?r of None \<Rightarrow> 0 | Some k \<Rightarrow> 15 + int (length (show_int k))) \<le> 55"
    using assms(4) nxt by (elim disjE) (simp_all add: finish_read_def plain_keys)
  have "int (length (encode_result ?r (ss_texts st))) \<le>
      frame_bytes + int (length (join '','' (map json_string (r_Columns ?r)))) +
      texts_cost (ss_texts st) + 5 + 5 + 55"
  proof -
    have "int (length (show_int (Count ?r))) \<le> 5" using count by (simp add: finish_read_def)
    moreover have "(if Truncated ?r then 4 else 5) \<le> (5::int)" by simp
    ultimately show ?thesis
      unfolding length_encode using tail join_cost [of "ss_texts st"] by linarith
  qed
  with cols head assms(1) show ?thesis by (auto simp: loop_ok_def split: if_splits)
qed

lemma Read_budget:
  assumes "Read cd opts statement fmt env = Inr (r, ts)"
  shows "int (length (encode_result r ts)) + 1 \<le> MaxBytes opts \<and>
    list_all2 (\<lambda>row t. encode_row cd row = Inr t) (r_Rows r) ts"
  using assms
proof (rule Read_Inr)
  fix columns
  assume v: "options_validate opts = None" and rr: "read_result cd fmt opts env columns = Inr (r, ts)"
  show ?thesis
  proof (cases "ColumnsOnly opts")
    case True
    with rr show ?thesis
      by (auto simp: read_result_def empty_page_def split: option.splits if_splits)
  next
    case False
    have "1 \<le> Limit opts" using validated_options [OF v] by simp
    from rr False this show ?thesis
    proof (rule read_result_Inr)
      fix n st reason
      assume ok: "loop_ok cd fmt opts columns
        (int (length (encode_result (empty_page (header_columns opts columns)) [])) + 128)
        (take n (page opts (re_table env))) st"
        and sel: "distinct (selected_columns opts columns)"
        and reason: "reason = [] \<or> reason = ''row_limit'' \<or> reason = ''byte_limit''"
        and r: "r = finish_read opts (selected_columns opts columns) st reason" "ts = ss_texts st"
      have "list_all2 (\<lambda>row t. encode_row cd row = Inr t) (ss_rows st) (ss_texts st)"
        using ok by (rule loop_ok_texts)
      then have "list_all2 (\<lambda>row t. encode_row cd row = Inr t) (r_Rows r) ts"
        unfolding r by (simp add: finish_read_def)
      with finish_read_fits [OF ok v sel reason] r show ?thesis by simp
    qed
  qed
qed

text \<open>The reason is empty or one of two constants, and a truncated result has a next offset.\<close>

lemma Read_metadata:
  assumes "Read cd opts statement fmt env = Inr (r, ts)"
  shows "(Reason r = [] \<or> Reason r = ''row_limit'' \<or> Reason r = ''byte_limit'') \<and>
    (Truncated r \<longrightarrow> NextOffset r \<noteq> None)"
  using assms
proof (rule Read_Inr)
  fix columns
  assume v: "options_validate opts = None" and rr: "read_result cd fmt opts env columns = Inr (r, ts)"
  show ?thesis
  proof (cases "ColumnsOnly opts")
    case True
    with rr show ?thesis
      by (auto simp: read_result_def empty_page_def split: option.splits if_splits)
  next
    case False
    have "1 \<le> Limit opts" using validated_options [OF v] by simp
    from rr False this show ?thesis
      by (rule read_result_Inr) (auto simp: finish_read_def)
  qed
qed

text \<open>
  C20. A result that \<open>Read\<close> returns fits the byte budget: its JSON encoding, with the
  metadata fields and the final newline, is at most \<open>MaxBytes\<close> long, whatever the
  columns, rows and values, so the formatted output of a successful read is never refused.
\<close>

theorem Read_fits_budget:
  assumes "Read cd opts statement fmt env = Inr (r, ts)"
  shows "int (length (encode_result r ts)) + 1 \<le> MaxBytes opts \<and>
    list_all2 (\<lambda>row t. encode_row cd row = Inr t) (r_Rows r) ts"
  by (rule Read_budget [OF assms])

section \<open>Pages\<close>

lemma Read_page:
  assumes "Read cd opts statement fmt env = Inr (r, ts)" "\<not> ColumnsOnly opts"
  shows "\<exists>columns. re_columns env = Inr columns \<and> 0 \<le> Offset opts \<and>
    (let rest = drop (nat (Offset opts)) (re_table env) in
     r_Rows r = map (row_of cd fmt opts columns) (take (nat (Count r)) rest) \<and>
     0 \<le> Count r \<and> Count r \<le> Limit opts \<and> nat (Count r) \<le> length rest \<and>
     (Truncated r \<longleftrightarrow> nat (Count r) < length rest) \<and> (Truncated r \<longrightarrow> 0 < Count r) \<and>
     NextOffset r = (if Truncated r then Some (Offset opts + Count r) else None))"
  using assms(1)
proof (rule Read_Inr)
  fix columns
  assume v: "options_validate opts = None" and c: "re_columns env = Inr columns"
    and rr: "read_result cd fmt opts env columns = Inr (r, ts)"
  let ?rest = "drop (nat (Offset opts)) (re_table env)"
  have lim: "1 \<le> Limit opts" "0 \<le> Offset opts" using validated_options [OF v] by simp_all
  from rr assms(2) lim(1) show ?thesis
  proof (rule read_result_Inr)
    fix n st reason
    assume ok: "loop_ok cd fmt opts columns
        (int (length (encode_result (empty_page (header_columns opts columns)) [])) + 128)
        (take n (page opts (re_table env))) st"
      and n: "n \<le> length (page opts (re_table env))"
        "reason = [] \<longleftrightarrow> n = length (page opts (re_table env))"
      and some: "reason \<noteq> [] \<longrightarrow> ss_rows st \<noteq> []"
      and r: "r = finish_read opts (selected_columns opts columns) st reason"
    have rows: "ss_rows st = map (row_of cd fmt opts columns) (take n (page opts (re_table env)))"
      using ok by (simp only: loop_ok_def)
    have count: "Count r = int n" using rows n(1) by (simp add: r finish_read_def)
    have nlim: "int n \<le> Limit opts" using ok n(1) by (simp add: loop_ok_def)
    have page: "page opts (re_table env) = take (nat (Limit opts) + 1) ?rest" by (simp add: page_def)
    have len: "n \<le> length ?rest" "reason = [] \<longleftrightarrow> n = length ?rest"
      using n nlim lim unfolding page by auto
    have take: "take n (page opts (re_table env)) = take n ?rest"
      using nlim lim by (simp add: page min_def)
    have pos: "reason \<noteq> [] \<Longrightarrow> 0 < n" using some rows by (cases n) auto
    have "r_Rows r = map (row_of cd fmt opts columns) (take n ?rest)"
      unfolding take [symmetric] rows [symmetric] by (simp add: r finish_read_def)
    moreover have "Truncated r = (reason \<noteq> [])"
      "NextOffset r = (if reason \<noteq> [] then Some (Offset opts + Count r) else None)"
      by (simp_all add: r finish_read_def)
    ultimately show ?thesis
      using c count nlim len pos lim(2) by (auto simp: Let_def)
  qed
qed

text \<open>
  C21. A page is a contiguous piece of the query's rows: it shows, row for row and in order, the
  \<open>Count\<close> rows from the offset on. It is marked truncated exactly when rows remain
  after it; then it is not empty and \<open>NextOffset\<close> is the offset of the first of them.
\<close>

theorem Read_returns_contiguous_page:
  assumes "Read cd opts statement fmt env = Inr (r, ts)" "\<not> ColumnsOnly opts"
  shows "\<exists>columns. re_columns env = Inr columns \<and>
    (let rest = drop (nat (Offset opts)) (re_table env) in
     r_Rows r = map (row_of cd fmt opts columns) (take (nat (Count r)) rest) \<and>
     0 \<le> Count r \<and> Count r \<le> Limit opts \<and> nat (Count r) \<le> length rest \<and>
     (Truncated r \<longleftrightarrow> nat (Count r) < length rest) \<and> (Truncated r \<longrightarrow> 0 < Count r) \<and>
     NextOffset r = (if Truncated r then Some (Offset opts + Count r) else None))"
  using Read_page [OF assms] by (auto simp: Let_def)

text \<open>
  A client that follows \<open>next_offset\<close> from page to page; \<open>None\<close> when it gives up
  after n pages.
\<close>

fun read_pages ::
    "codec \<Rightarrow> string \<Rightarrow> bool \<Rightarrow> (nat \<Rightarrow> read_env) \<Rightarrow> nat \<Rightarrow> nat \<Rightarrow> Options \<Rightarrow> row list result option" where
  "read_pages cd statement fmt envs k 0 opts = None"
| "read_pages cd statement fmt envs k (Suc n) opts =
     (case Read cd opts statement fmt (envs k) of
        Inl e \<Rightarrow> Some (Inl e)
      | Inr (r, ts) \<Rightarrow>
          (case NextOffset r of
             None \<Rightarrow> Some (Inr (r_Rows r))
           | Some off \<Rightarrow>
               (case read_pages cd statement fmt envs (Suc k) n (opts\<lparr>Offset := off\<rparr>) of
                  None \<Rightarrow> None
                | Some (Inl e) \<Rightarrow> Some (Inl e)
                | Some (Inr rows) \<Rightarrow> Some (Inr (r_Rows r @ rows)))))"

lemma row_of_offset: "row_of cd fmt (opts\<lparr>Offset := off\<rparr>) columns = row_of cd fmt opts columns"
  by (rule ext) (simp add: row_of_def selected_columns_def)

lemma read_pages_all:
  assumes "\<And>k. re_table (envs k) = table" "\<And>k. re_columns (envs k) = Inr columns"
  shows "\<not> ColumnsOnly opts \<Longrightarrow> 0 \<le> Offset opts \<Longrightarrow>
    length (drop (nat (Offset opts)) table) < n \<Longrightarrow>
    \<exists>res. read_pages cd statement fmt envs k n opts = Some res \<and>
      (\<forall>rows. res = Inr rows \<longrightarrow>
         rows = map (row_of cd fmt opts columns) (drop (nat (Offset opts)) table))"
proof (induction n arbitrary: k opts)
  case (Suc n)
  show ?case
  proof (cases "Read cd opts statement fmt (envs k)")
    case (Inr x)
    then obtain r ts where rd: "Read cd opts statement fmt (envs k) = Inr (r, ts)" by (cases x) auto
    let ?rest = "drop (nat (Offset opts)) table"
    from Read_page [OF rd Suc.prems(1)] assms have pg:
      "r_Rows r = map (row_of cd fmt opts columns) (take (nat (Count r)) ?rest)"
      "0 \<le> Count r" "nat (Count r) \<le> length ?rest"
      "Truncated r \<longleftrightarrow> nat (Count r) < length ?rest" "Truncated r \<longrightarrow> 0 < Count r"
      "NextOffset r = (if Truncated r then Some (Offset opts + Count r) else None)"
      by (auto simp: Let_def)
    show ?thesis
    proof (cases "Truncated r")
      case False
      with pg have "nat (Count r) = length ?rest" by simp
      with pg(1) have "r_Rows r = map (row_of cd fmt opts columns) ?rest" by simp
      with rd pg(6) False show ?thesis by simp
    next
      case True
      let ?next = "opts\<lparr>Offset := Offset opts + Count r\<rparr>"
      have drop: "drop (nat (Offset ?next)) table = drop (nat (Count r)) ?rest"
        using pg(2) Suc.prems(2) by (simp add: nat_add_distrib add.commute)
      have "length (drop (nat (Offset ?next)) table) < n"
        using Suc.prems(3) pg(4,5) True unfolding drop by auto
      with Suc.IH [of ?next "Suc k"] Suc.prems(1,2) pg(2) obtain res where
        res: "read_pages cd statement fmt envs (Suc k) n ?next = Some res"
        "\<And>rows. res = Inr rows \<Longrightarrow> rows = map (row_of cd fmt ?next columns) (drop (nat (Offset ?next)) table)"
        by auto
      have "map (row_of cd fmt opts columns) ?rest =
          r_Rows r @ map (row_of cd fmt opts columns) (drop (nat (Count r)) ?rest)"
        unfolding pg(1) map_append [symmetric] by (simp only: append_take_drop_id)
      with res rd pg(6) True drop row_of_offset show ?thesis
        by (cases res) (simp_all add: row_of_offset)
    qed
  qed simp
qed simp

text \<open>
  C22. Following \<open>next_offset\<close> over unchanged data ends after at most one page per row and
  one more, and, unless a page fails, yields every row of the query from the first offset on
  exactly once and in order.
\<close>

theorem pages_cover_all_rows:
  assumes "\<And>k. re_table (envs k) = table" "\<And>k. re_columns (envs k) = Inr columns"
    "\<not> ColumnsOnly opts" "0 \<le> Offset opts"
  shows "\<exists>res. read_pages cd statement fmt envs 0 (Suc (length table)) opts = Some res \<and>
    (\<forall>rows. res = Inr rows \<longrightarrow>
       rows = map (row_of cd fmt opts columns) (drop (nat (Offset opts)) table))"
  by (rule read_pages_all [OF assms(1,2,3,4)]) simp_all

section \<open>A concrete query\<close>

definition plain_codec :: codec where
  "plain_codec = \<lparr>cd_time = show_int, cd_valid = (\<lambda>_. False), cd_real = (\<lambda>_. Inl (Msg [])),
     cd_raw = id\<rparr>"

definition two_rows :: read_env where
  "two_rows = \<lparr>re_open = None, re_conn = None, re_setup = None, re_query = None,
     re_columns = Inr [''id''], re_table = [[CInt 1], [CInt 2]], re_scan = (\<lambda>_. None),
     re_rows_err = None, re_ctx = None\<rparr>"

definition one_per_page :: Options where
  "one_per_page = \<lparr>ColumnsOnly = False, IncludeEmpty = False, o_Columns = [], o_Path = ''t.db'',
     Limit = 1, Offset = 0, MaxBytes = 1024, Timeout = 2000000000\<rparr>"

lemma select_admitted: "singleStatement ''SELECT id'' = Inr ''SELECT id''"
proof -
  have "trim_space ''SELECT id'' = ''SELECT id''"
    by (simp add: trim_space_def trim_front.simps wide_spaces_def ascii_space_def)
  moreover have "scan None ''SELECT id'' = None" by (simp add: opens_quote_def)
  ultimately show ?thesis by (simp add: singleStatement_def MaxSQLBytes_def trim_semicolon_def)
qed

lemma id_string: "json_string ''id'' = [dquote, CHR ''i'', CHR ''d'', dquote]"
  by (simp add: json_string_def json_escape_def byte_def)

lemma empty_header_length: "length (encode_result (empty_page []) []) = 52"
proof -
  have "json_string ''columns'' = [dquote] @ ''columns'' @ [dquote]"
    "json_string ''rows'' = [dquote] @ ''rows'' @ [dquote]"
    "json_string ''count'' = [dquote] @ ''count'' @ [dquote]"
    "json_string ''truncated'' = [dquote] @ ''truncated'' @ [dquote]"
    by (simp_all add: json_string_def json_escape_def byte_def)
  then show ?thesis
    by (simp add: encode_result_def empty_page_def show_int_def show_nat.simps [of 0])
qed

lemma show_one: "show_nat (Suc 0) = ''1''"
  by code_simp

lemma one_per_page_fields:
  "\<not> ColumnsOnly one_per_page" "\<not> IncludeEmpty one_per_page" "o_Columns one_per_page = []"
  "Limit one_per_page = 1" "Offset one_per_page = 0" "MaxBytes one_per_page = 1024"
  by (simp_all add: one_per_page_def)

lemma two_rows_fields:
  "re_open two_rows = None" "re_conn two_rows = None" "re_setup two_rows = None"
  "re_query two_rows = None" "re_columns two_rows = Inr [''id'']"
  "re_table two_rows = [[CInt 1], [CInt 2]]" "re_scan two_rows k = None"
  "re_rows_err two_rows = None" "re_ctx two_rows = None"
  by (simp_all add: two_rows_def)

lemma first_page:
  "Read plain_codec one_per_page ''SELECT id'' False two_rows =
     Inr (\<lparr>r_Columns = [''id''], r_Rows = [[(''id'', CInt 1)]], Count = 1, Truncated = True,
       Reason = ''row_limit'', NextOffset = Some 1\<rparr>,
       [''{'' @ json_string ''id'' @ '':1}''])"
proof -
  have "options_validate one_per_page = None" by (simp add: options_validate_def one_per_page_def)
  then show ?thesis
    by (simp add: Read_def select_admitted two_rows_fields read_result_def one_per_page_fields
        selected_columns_def page_def row_of_def cell_of_def emptyField_def encode_row_def
        column_bytes_def new_names_def finish_read_def id_string plain_codec_def show_int_def
        show_one empty_header_length Let_def)
qed

theorem Read_fits_budget_witness:
  "int (length (encode_result (fst (projr (Read plain_codec one_per_page ''SELECT id'' False two_rows)))
     (snd (projr (Read plain_codec one_per_page ''SELECT id'' False two_rows))))) + 1 \<le> 1024"
  using Read_fits_budget [OF first_page] by (simp add: first_page one_per_page_fields)

theorem Read_returns_contiguous_page_witness:
  "\<exists>columns. re_columns two_rows = Inr columns \<and>
     [[(''id'', CInt 1)]] = map (row_of plain_codec False one_per_page columns) (take 1 (re_table two_rows))"
  using Read_returns_contiguous_page [OF first_page]
  by (auto simp: one_per_page_fields Let_def)

theorem pages_cover_all_rows_witness:
  "\<exists>res. read_pages plain_codec ''SELECT id'' False (\<lambda>_. two_rows) 0 3 one_per_page = Some res \<and>
     (\<forall>rows. res = Inr rows \<longrightarrow> rows = [[(''id'', CInt 1)], [(''id'', CInt 2)]])"
proof -
  have "row_of plain_codec False one_per_page [''id''] [CInt n] = [(''id'', CInt n)]" for n
    by (simp add: row_of_def selected_columns_def one_per_page_def cell_of_def emptyField_def)
  moreover have "re_table two_rows = [[CInt 1], [CInt 2]]" "re_columns two_rows = Inr [''id'']"
    by (simp_all add: two_rows_def)
  ultimately show ?thesis
    using pages_cover_all_rows [of "\<lambda>_. two_rows" "[[CInt 1], [CInt 2]]" "[''id'']" one_per_page
        plain_codec "''SELECT id''" False]
    by (simp add: one_per_page_def numeral_3_eq_3)
qed

end
