(* ===== verification/Status.thy ===== *)
theory Status
  imports StoreClear JsonText
begin

text \<open>
  The status extension (\<^verbatim>\<open>internal/status/status.go\<close>, \<^verbatim>\<open>clear.go\<close>): the
  ingestion gate with its permits, the HTTP and gRPC interceptors, the readiness, status and
  clear handlers, the activity log and the shutdown of the server. Parsing of addresses, media
  types and JSON bodies is left to parameters, as is the loopback test of an address.
\<close>

section \<open>Configuration and state\<close>

record StatusConfig =
  sc_Store :: string
  sc_Endpoint :: string
  MaxInFlight :: int

definition default_status_config :: StatusConfig where
  "default_status_config =
     \<lparr>sc_Store = ''logal_store'', sc_Endpoint = ''127.0.0.1:13133'', MaxInFlight = 8\<rparr>"

text \<open>
  \<open>split_host\<close> is \<open>net.SplitHostPort\<close>; \<open>store_id\<close> says whether a text parses
  as a component id of the store's type.
\<close>

definition status_config_validate ::
    "(string \<Rightarrow> (string \<times> string) result) \<Rightarrow> (string \<Rightarrow> bool) \<Rightarrow> StatusConfig \<Rightarrow> go_error option" where
  "status_config_validate split_host store_id c =
     (if MaxInFlight c \<le> 0 then Some (Msg ''max_in_flight_requests must be positive'')
      else (case split_host (sc_Endpoint c) of
              Inl e \<Rightarrow> Some (WrapErr ''invalid status endpoint: '' e [])
            | Inr _ \<Rightarrow>
                if \<not> store_id (sc_Store c)
                then Some (Msg ''store must identify a logal_store extension'') else None))"

text \<open>
  Where a request stands between the operations of \<open>acquire\<close> and \<open>release\<close>:
  \<open>Admitted\<close> holds a permit that is not counted yet, \<open>Releasing\<close> has returned its
  permit and is still counted.
\<close>

datatype phase = Arriving | Admitted | Serving | Releasing | Finished | Refused

text \<open>
  \<open>g_permits\<close> is the number of tokens in the channel \<open>permits\<close>; \<open>g_store\<close> and
  \<open>g_disk\<close> are what \<open>OperationalSnapshot\<close> sees when it is asked.
\<close>

record gate =
  g_cfg :: StatusConfig
  pipelineReady :: bool
  g_store :: "Store option"
  g_disk :: disk
  g_permits :: nat
  inFlight :: int
  rejected :: u64
  requests :: "phase multiset"

definition gate_open :: "gate \<Rightarrow> bool" where
  "gate_open g \<longleftrightarrow> pipelineReady g \<and>
     (case g_store g of None \<Rightarrow> False | Some s \<Rightarrow> Ready (OperationalSnapshot (g_disk g) s))"

text \<open>The capacity of the channel made by \<open>make(chan struct{}, MaxInFlight)\<close>.\<close>

definition capacity :: "gate \<Rightarrow> nat" where
  "capacity g = nat (MaxInFlight (g_cfg g))"

section \<open>The permits\<close>

definition acquire :: "gate \<Rightarrow> unit result \<times> gate" where
  "acquire g =
     (if \<not> gate_open g
      then (Inl (Msg ''logal is not ready''), g\<lparr>rejected := rejected g + 1\<rparr>)
      else if g_permits g < capacity g
      then (Inr (), g\<lparr>g_permits := g_permits g + 1, inFlight := inFlight g + 1\<rparr>)
      else (Inl (Msg ''logal ingestion is saturated''), g\<lparr>rejected := rejected g + 1\<rparr>))"

definition release :: "gate \<Rightarrow> gate" where
  "release g = g\<lparr>g_permits := g_permits g - 1, inFlight := inFlight g - 1\<rparr>"

definition moved :: "phase \<Rightarrow> phase \<Rightarrow> gate \<Rightarrow> phase multiset" where
  "moved p q g = add_mset q (requests g - {#p#})"

text \<open>
  The atomic operations of concurrent requests. A receive from an empty channel would block,
  so \<open>give_permit\<close> needs a token. \<open>outside\<close> is any change of the pipeline state, of
  the store and of the disk.
\<close>

inductive gate_step :: "gate \<Rightarrow> gate \<Rightarrow> bool" where
  arrive: "gate_step g (g\<lparr>requests := add_mset Arriving (requests g)\<rparr>)"
| refuse: "Arriving \<in># requests g \<Longrightarrow> \<not> gate_open g \<or> \<not> g_permits g < capacity g \<Longrightarrow>
     gate_step g (g\<lparr>rejected := rejected g + 1, requests := moved Arriving Refused g\<rparr>)"
| take_permit: "Arriving \<in># requests g \<Longrightarrow> gate_open g \<Longrightarrow> g_permits g < capacity g \<Longrightarrow>
     gate_step g (g\<lparr>g_permits := g_permits g + 1, requests := moved Arriving Admitted g\<rparr>)"
| count_in: "Admitted \<in># requests g \<Longrightarrow>
     gate_step g (g\<lparr>inFlight := inFlight g + 1, requests := moved Admitted Serving g\<rparr>)"
| give_permit: "Serving \<in># requests g \<Longrightarrow> 0 < g_permits g \<Longrightarrow>
     gate_step g (g\<lparr>g_permits := g_permits g - 1, requests := moved Serving Releasing g\<rparr>)"
| count_out: "Releasing \<in># requests g \<Longrightarrow>
     gate_step g (g\<lparr>inFlight := inFlight g - 1, requests := moved Releasing Finished g\<rparr>)"
| outside: "gate_step g (g\<lparr>pipelineReady := b, g_store := st, g_disk := dk\<rparr>)"

inductive_cases gate_stepE: "gate_step g g'"

definition new_gate :: "StatusConfig \<Rightarrow> disk \<Rightarrow> gate" where
  "new_gate c dk = \<lparr>g_cfg = c, pipelineReady = False, g_store = None, g_disk = dk, g_permits = 0,
     inFlight = 0, rejected = 0, requests = {#}\<rparr>"

text \<open>Tokens and counters are exactly the requests in the phases between the operations.\<close>

definition gate_inv :: "gate \<Rightarrow> bool" where
  "gate_inv g \<longleftrightarrow>
     g_permits g = count (requests g) Admitted + count (requests g) Serving \<and>
     inFlight g = int (count (requests g) Serving + count (requests g) Releasing) \<and>
     rejected g = of_nat (count (requests g) Refused) \<and> g_permits g \<le> capacity g"

lemma count_moved:
  "p \<in># requests g \<Longrightarrow> count (moved p q g) r =
     (if r = q then 1 else 0) + (if r = p then count (requests g) p - 1 else count (requests g) r)"
  by (auto simp: moved_def)

lemma gate_step_inv: "gate_step g g' \<Longrightarrow> gate_inv g \<Longrightarrow> gate_inv g' \<and> g_cfg g' = g_cfg g"
proof (induction rule: gate_step.induct)
  case (arrive g)
  then show ?case by (auto simp: gate_inv_def capacity_def)
next
  case (refuse g)
  then show ?case by (auto simp: gate_inv_def capacity_def count_moved)
next
  case (take_permit g)
  then show ?case by (auto simp: gate_inv_def capacity_def count_moved)
next
  case (count_in g)
  then obtain k where "count (requests g) Admitted = Suc k"
    by (metis count_greater_zero_iff gr0_implies_Suc)
  with count_in show ?case by (auto simp: gate_inv_def capacity_def count_moved)
next
  case (give_permit g)
  then obtain k where "count (requests g) Serving = Suc k"
    by (metis count_greater_zero_iff gr0_implies_Suc)
  with give_permit show ?case by (auto simp: gate_inv_def capacity_def count_moved)
next
  case (count_out g)
  then obtain k where "count (requests g) Releasing = Suc k"
    by (metis count_greater_zero_iff gr0_implies_Suc)
  with count_out show ?case by (auto simp: gate_inv_def capacity_def count_moved)
next
  case (outside g b st dk)
  then show ?case by (auto simp: gate_inv_def capacity_def)
qed

lemma gate_run_inv:
  "gate_step\<^sup>*\<^sup>* g g' \<Longrightarrow> gate_inv g \<Longrightarrow> gate_inv g' \<and> g_cfg g' = g_cfg g"
  by (induction rule: rtranclp_induct) (use gate_step_inv in fastforce)+

lemma gate_inv_new: "gate_inv (new_gate c dk)"
  by (simp add: gate_inv_def new_gate_def)

text \<open>
  C23. However the operations of concurrent requests interleave, and whatever happens to the
  pipeline, the store and the disk meanwhile: at most \<open>MaxInFlight\<close> handlers run at a
  time; a handler that ends always finds its token, so \<open>release\<close> never blocks; when no
  request is between the operations, no token and no count is left over; and the rejection
  counter is the number of refused requests.
\<close>

theorem gate_limits_handlers:
  assumes "gate_step\<^sup>*\<^sup>* (new_gate c dk) g"
  shows "int (count (requests g) Serving) \<le> max 0 (MaxInFlight c) \<and>
    (Serving \<in># requests g \<longrightarrow> 0 < g_permits g) \<and>
    (set_mset (requests g) \<subseteq> {Arriving, Finished, Refused} \<longrightarrow> g_permits g = 0 \<and> inFlight g = 0) \<and>
    rejected g = of_nat (count (requests g) Refused)"
proof -
  from gate_run_inv [OF assms gate_inv_new] have inv: "gate_inv g" "g_cfg g = c"
    by (auto simp: new_gate_def)
  have zero: "count (requests g) p = 0" if "set_mset (requests g) \<subseteq> {Arriving, Finished, Refused}"
    "p \<in> {Admitted, Serving, Releasing}" for p
    using that by (auto simp: count_eq_zero_iff)
  have "0 < count (requests g) Serving" if "Serving \<in># requests g" using that by simp
  with inv zero show ?thesis by (auto simp: gate_inv_def capacity_def)
qed

text \<open>The sequential operations are the steps of one request.\<close>

lemma acquire_steps:
  assumes "Arriving \<in># requests g"
  shows "case acquire g of
      (Inl e, g') \<Rightarrow> gate_step g (g'\<lparr>requests := moved Arriving Refused g\<rparr>)
    | (Inr _, g') \<Rightarrow>
        gate_step\<^sup>*\<^sup>* g (g'\<lparr>requests := add_mset Serving (requests g - {#Arriving#})\<rparr>)"
proof (cases "gate_open g \<and> g_permits g < capacity g")
  case True
  let ?g1 = "g\<lparr>g_permits := g_permits g + 1, requests := moved Arriving Admitted g\<rparr>"
  have "gate_step g ?g1" using assms True by (blast intro: take_permit)
  moreover have "gate_step ?g1 (?g1\<lparr>inFlight := inFlight ?g1 + 1, requests := moved Admitted Serving ?g1\<rparr>)"
    by (rule count_in) (simp add: moved_def)
  ultimately show ?thesis
    using True by (auto simp: acquire_def moved_def intro: converse_rtranclp_into_rtranclp)
next
  case False
  with refuse [OF assms] show ?thesis by (auto simp: acquire_def)
qed

end
