(* ===== verification/StatusHandlers.thy ===== *)
theory StatusHandlers
  imports Status
begin

text \<open>
  The interceptors, the handlers of the status endpoint, the activity log and the shutdown
  (\<^verbatim>\<open>internal/status/status.go\<close>, \<^verbatim>\<open>internal/status/clear.go\<close>).
\<close>

section \<open>Interceptors\<close>

record response =
  code :: nat
  headers :: "(string \<times> string) list"
  body :: string

text \<open>\<open>http.Error\<close>\<close>

definition http_error :: "(string \<times> string) list \<Rightarrow> string \<Rightarrow> nat \<Rightarrow> response" where
  "http_error hs message status =
     \<lparr>code = status,
      headers = hs @ [(''Content-Type'', ''text/plain; charset=utf-8''),
        (''X-Content-Type-Options'', ''nosniff'')],
      body = message @ [newline]\<rparr>"

definition ingest_paths :: "string list" where
  "ingest_paths = [''/v1/logs'', ''/v1/traces'', ''/v1/metrics'']"

text \<open>
  An intercepted request is answered here or handed to the next handler, with a permit that
  the deferred \<open>release\<close> returns or without one.
\<close>

datatype 'r intercepted = Answered 'r | Passed | PassedWithPermit

definition intercept_http ::
    "string \<Rightarrow> string \<Rightarrow> gate \<Rightarrow> response intercepted \<times> gate" where
  "intercept_http verb path g =
     (if verb \<noteq> ''POST'' \<or> path \<notin> set ingest_paths then (Passed, g)
      else (case acquire g of
              (Inl e, g') \<Rightarrow> (Answered (http_error [(''Retry-After'', ''1'')] (err_text e) 503), g')
            | (Inr _, g') \<Rightarrow> (PassedWithPermit, g')))"

definition export_methods :: "string list" where
  "export_methods =
     [''/opentelemetry.proto.collector.logs.v1.LogsService/Export'',
      ''/opentelemetry.proto.collector.trace.v1.TraceService/Export'',
      ''/opentelemetry.proto.collector.metrics.v1.MetricsService/Export'']"

definition intercept_grpc :: "string \<Rightarrow> gate \<Rightarrow> go_error intercepted \<times> gate" where
  "intercept_grpc fullMethod g =
     (if fullMethod \<in> set export_methods
      then (case acquire g of
              (Inl e, g') \<Rightarrow> (Answered (StatusError Unavailable (err_text e)), g')
            | (Inr _, g') \<Rightarrow> (PassedWithPermit, g'))
      else (Passed, g))"

section \<open>Readiness and status\<close>

definition accepting :: "gate \<Rightarrow> Snapshot \<Rightarrow> bool" where
  "accepting g snap \<longleftrightarrow> pipelineReady g \<and> Ready snap \<and> inFlight g < MaxInFlight (g_cfg g)"

definition ok_response :: response where
  "ok_response = \<lparr>code = 200, headers = [], body = ''ok'' @ [newline]\<rparr>"

text \<open>The handler reads the store it was started with.\<close>

definition handleReady :: "Store \<Rightarrow> gate \<Rightarrow> response" where
  "handleReady s g =
     (if \<not> accepting g (OperationalSnapshot (g_disk g) s) then http_error [] ''not ready'' 503
      else ok_response)"

record status_report =
  sr_ready :: bool
  sr_pipeline_ready :: bool
  sr_in_flight :: int
  sr_limit :: int
  sr_rejected_requests :: u64
  sr_store :: Snapshot

definition handleStatus :: "snapshot_env \<Rightarrow> Store \<Rightarrow> gate \<Rightarrow> status_report" where
  "handleStatus env s g =
     (let snap = StoreSnapshot env s in
      \<lparr>sr_ready = accepting g snap, sr_pipeline_ready = pipelineReady g,
       sr_in_flight = inFlight g, sr_limit = MaxInFlight (g_cfg g),
       sr_rejected_requests = rejected g, sr_store = snap\<rparr>)"

text \<open>
  C24. Between the operations of other requests, \<open>/readyz\<close> answers 200 exactly when an
  export would get a permit and the store would admit its write: the probe, the gate and the
  admission test of the store agree. Otherwise it answers 503.
\<close>

theorem readyz_means_admission:
  assumes "gate_inv g" "set_mset (requests g) \<subseteq> {Arriving, Serving, Finished, Refused}"
    "g_store g = Some s" "db s \<noteq> None"
  shows "(code (handleReady s g) = 200 \<longleftrightarrow>
      fst (acquire g) = Inr () \<and> admissionErrorLocked (g_disk g) s = None) \<and>
    (code (handleReady s g) = 200 \<or> code (handleReady s g) = 503)"
proof -
  have "count (requests g) p = 0" if "p \<in> {Admitted, Releasing}" for p
    using assms(2) that by (auto simp: count_eq_zero_iff)
  then have "inFlight g = int (g_permits g)"
    using assms(1) by (simp add: gate_inv_def)
  moreover have "admissionErrorLocked (g_disk g) s = None \<longleftrightarrow> Ready (OperationalSnapshot (g_disk g) s)"
    using assms(4) by (auto simp: admissionErrorLocked_def snapshot_ready_iff not_le not_less
        split: if_splits)
  ultimately show ?thesis
    using assms(3)
    by (auto simp: handleReady_def accepting_def acquire_def gate_open_def capacity_def
        http_error_def ok_response_def)
qed

section \<open>Clear\<close>

record clear_request =
  cr_method :: string
  cr_remote :: string
  cr_origin :: string
  cr_confirm :: string
  cr_content_type :: string

text \<open>
  The parsers: host of an address, loopback test, media type, the first JSON value decoded
  into the request struct (its \<open>database\<close> field), and whether nothing follows it.
\<close>

record clear_parsers =
  cp_host :: "string \<Rightarrow> string result"
  cp_loopback :: "string \<Rightarrow> bool"
  cp_media :: "string \<Rightarrow> string result"
  cp_database :: "string result"
  cp_at_end :: bool

text \<open>The guards in the order of the code: the answer that ends the request, or the path.\<close>

definition clear_guard :: "clear_parsers \<Rightarrow> clear_request \<Rightarrow> gate \<Rightarrow> response + string" where
  "clear_guard p r g =
     (if cr_method r \<noteq> ''POST''
      then Inl (http_error [(''Allow'', ''POST'')] ''clear requires POST'' 405)
      else if (case cp_host p (cr_remote r) of Inl _ \<Rightarrow> True | Inr peer \<Rightarrow> \<not> cp_loopback p peer) \<or>
              cr_origin r \<noteq> [] \<or> cr_confirm r \<noteq> ''clear''
      then Inl (http_error [] ''clear requires a local CLI request'' 403)
      else if (case cp_media p (cr_content_type r) of
                 Inl _ \<Rightarrow> True | Inr m \<Rightarrow> m \<noteq> ''application/json'')
      then Inl (http_error [] ''clear requires application/json'' 415)
      else
     (case cp_database p of
        Inl _ \<Rightarrow> Inl (http_error [] ''clear requires a JSON object with the database path'' 400)
      | Inr database \<Rightarrow>
          if database = [] then Inl (http_error [] ''clear requires a JSON object with the database path'' 400)
          else if \<not> cp_at_end p
          then Inl (http_error [] ''clear requires exactly one JSON object'' 400)
          else if \<not> pipelineReady g \<or> g_store g = None
          then Inl (http_error [] ''collector is not running'' 503)
          else Inr database))"

text \<open>
  \<open>encode\<close> is the JSON encoding of a result; the store after the request is the second
  component.
\<close>

definition handleClear ::
    "(ClearResult \<Rightarrow> string) \<Rightarrow> clear_parsers \<Rightarrow> clear_env \<Rightarrow> clear_request \<Rightarrow> gate \<Rightarrow> response \<times> Store option"
    where
  "handleClear encode p env r g =
     (case clear_guard p r g of
        Inl answer \<Rightarrow> (answer, g_store g)
      | Inr database \<Rightarrow>
          (case g_store g of
             None \<Rightarrow> (http_error [] ''collector is not running'' 503, None)
           | Some s \<Rightarrow>
               (case Clear env database s of
                  (Inl e, s') \<Rightarrow>
                    (http_error [] (err_text e) (if errors_is e DatabaseMismatch then 409 else 503),
                     Some s')
                | (Inr res, s') \<Rightarrow>
                    (\<lparr>code = 200, headers = [(''Content-Type'', ''application/json'')],
                      body = encode res @ [newline]\<rparr>, Some s'))))"

lemma http_error_code [simp]: "code (http_error hs m n) = n"
  by (simp add: http_error_def)

text \<open>
  C25. Telemetry is deleted over HTTP only by a confirmed POST from a loopback peer without an
  Origin, with a JSON body that names the database of this running collector; exactly then the
  answer is 200. Every other request leaves the stored rows and all counters as they were.
\<close>

theorem handleClear_guards:
  "case handleClear encode p env r g of (a, st) \<Rightarrow>
     (code a = 200 \<longrightarrow>
        cr_method r = ''POST'' \<and> cr_origin r = [] \<and> cr_confirm r = ''clear'' \<and>
        (\<exists>peer. cp_host p (cr_remote r) = Inr peer \<and> cp_loopback p peer) \<and>
        cp_media p (cr_content_type r) = Inr ''application/json'' \<and> cp_at_end p \<and> pipelineReady g \<and>
        (\<exists>s s' path res. g_store g = Some s \<and> st = Some s' \<and> cp_database p = Inr path \<and> path \<noteq> [] \<and>
           Clear env path s = (Inr res, s') \<and> ce_eval env path = Inr (Database res) \<and>
           db s' = Some empty_database)) \<and>
     (code a \<noteq> 200 \<longrightarrow> code a \<in> {400, 403, 405, 409, 415, 503} \<and>
        (case (g_store g, st) of
           (Some s, Some s') \<Rightarrow> same_data s s'
         | (x, y) \<Rightarrow> x = None \<and> y = None))"
proof (cases "clear_guard p r g")
  case (Inl answer)
  then have "code answer \<in> {400, 403, 405, 415, 503}"
    by (auto simp: clear_guard_def split: if_splits sum.splits)
  with Inl show ?thesis
    by (auto simp: handleClear_def same_data_def split: option.split)
next
  case (Inr path)
  then have guard: "cr_method r = ''POST'' \<and> cr_origin r = [] \<and> cr_confirm r = ''clear'' \<and>
      (\<exists>peer. cp_host p (cr_remote r) = Inr peer \<and> cp_loopback p peer) \<and>
      cp_media p (cr_content_type r) = Inr ''application/json'' \<and> cp_at_end p \<and> pipelineReady g \<and>
      cp_database p = Inr path \<and> path \<noteq> [] \<and> g_store g \<noteq> None"
    by (auto simp: clear_guard_def split: if_splits sum.splits)
  then obtain s where s: "g_store g = Some s" by auto
  obtain res s' where c: "Clear env path s = (res, s')" by (cases "Clear env path s")
  show ?thesis
  proof (cases res)
    case (Inl e)
    with Inr s c Clear_Inl [of env path s e s'] show ?thesis by (simp add: handleClear_def)
  next
    case (Inr res')
    with c have c': "Clear env path s = (Inr res', s')" by simp
    then have "ce_eval env path = Inr (Database res') \<and> db s' = Some empty_database"
      by (rule Clear_Inr) simp
    with \<open>clear_guard p r g = Inr path\<close> guard s c' show ?thesis by (simp add: handleClear_def)
  qed
qed

section \<open>Activity log\<close>

record activityState =
  a_store :: Snapshot
  a_pipelineReady :: bool
  a_inFlight :: int
  a_rejected :: u64

definition currentActivityState :: "Store \<Rightarrow> gate \<Rightarrow> activityState" where
  "currentActivityState s g =
     \<lparr>a_store = OperationalSnapshot (g_disk g) s, a_pipelineReady = pipelineReady g,
      a_inFlight = inFlight g, a_rejected = rejected g\<rparr>"

definition activityChanged :: "activityState \<Rightarrow> activityState \<Rightarrow> bool" where
  "activityChanged p c \<longleftrightarrow>
     CommittedMetrics (a_store p) \<noteq> CommittedMetrics (a_store c) \<or>
     DeletedMetrics (a_store p) \<noteq> DeletedMetrics (a_store c) \<or>
     CommittedLogs (a_store p) \<noteq> CommittedLogs (a_store c) \<or>
     CommittedSpans (a_store p) \<noteq> CommittedSpans (a_store c) \<or>
     DeletedLogs (a_store p) \<noteq> DeletedLogs (a_store c) \<or>
     DeletedSpans (a_store p) \<noteq> DeletedSpans (a_store c) \<or>
     Ready (a_store p) \<noteq> Ready (a_store c) \<or>
     LastError (a_store p) \<noteq> LastError (a_store c) \<or>
     a_pipelineReady p \<noteq> a_pipelineReady c \<or> a_rejected p \<noteq> a_rejected c"

definition counterDelta :: "u64 \<Rightarrow> u64 \<Rightarrow> u64" where
  "counterDelta previous current = (if current < previous then current else current - previous)"

text \<open>The fields of one log line and its level.\<close>

record activity_line =
  al_warn :: bool
  al_metrics_written :: u64
  al_metrics_total :: u64
  al_metrics_deleted :: u64
  al_ready :: bool
  al_logs_written :: u64
  al_spans_written :: u64
  al_logs_total :: u64
  al_spans_total :: u64
  al_logs_deleted :: u64
  al_spans_deleted :: u64
  al_rejected :: u64
  al_in_flight :: int
  al_database_bytes :: int
  al_wal_bytes :: int
  al_free_bytes :: u64
  al_last_error :: "string option"

definition logActivity :: "StatusConfig \<Rightarrow> activityState \<Rightarrow> activityState \<Rightarrow> activity_line" where
  "logActivity cf p c =
     \<lparr>al_warn = (\<not> a_pipelineReady c \<or> \<not> Ready (a_store c) \<or> a_rejected c > a_rejected p),
      al_metrics_written = counterDelta (CommittedMetrics (a_store p)) (CommittedMetrics (a_store c)),
      al_metrics_total = CommittedMetrics (a_store c),
      al_metrics_deleted = counterDelta (DeletedMetrics (a_store p)) (DeletedMetrics (a_store c)),
      al_ready = (a_pipelineReady c \<and> Ready (a_store c) \<and> a_inFlight c < MaxInFlight cf),
      al_logs_written = counterDelta (CommittedLogs (a_store p)) (CommittedLogs (a_store c)),
      al_spans_written = counterDelta (CommittedSpans (a_store p)) (CommittedSpans (a_store c)),
      al_logs_total = CommittedLogs (a_store c), al_spans_total = CommittedSpans (a_store c),
      al_logs_deleted = counterDelta (DeletedLogs (a_store p)) (DeletedLogs (a_store c)),
      al_spans_deleted = counterDelta (DeletedSpans (a_store p)) (DeletedSpans (a_store c)),
      al_rejected = counterDelta (a_rejected p) (a_rejected c), al_in_flight = a_inFlight c,
      al_database_bytes = DatabaseBytes (a_store c), al_wal_bytes = WALBytes (a_store c),
      al_free_bytes = FreeBytes (a_store c),
      al_last_error = (if LastError (a_store c) \<noteq> [] then Some (LastError (a_store c)) else None)\<rparr>"

definition idleInterval :: int where
  "idleInterval = 60000000000"

text \<open>
  The loop over the ticks of the timer until the stop: each tick has its time and the state
  found then. The result is the lines written, in order.
\<close>

fun activityLoop ::
    "StatusConfig \<Rightarrow> activityState \<Rightarrow> int \<Rightarrow> (int \<times> activityState) list \<Rightarrow> activity_line list" where
  "activityLoop cf previous lastReport [] = []"
| "activityLoop cf previous lastReport ((now, current) # ticks) =
     (if activityChanged previous current \<or> now - lastReport \<ge> idleInterval
      then logActivity cf previous current # activityLoop cf current now ticks
      else activityLoop cf previous lastReport ticks)"

text \<open>What a counter of the lines adds up to.\<close>

definition reported :: "(activity_line \<Rightarrow> u64) \<Rightarrow> activity_line list \<Rightarrow> u64" where
  "reported field ls = sum_list (map field ls)"

definition counters :: "activityState \<Rightarrow> u64 list" where
  "counters a = [CommittedLogs (a_store a), CommittedSpans (a_store a), CommittedMetrics (a_store a),
     DeletedLogs (a_store a), DeletedSpans (a_store a), DeletedMetrics (a_store a), a_rejected a]"

definition line_counters :: "(activity_line \<Rightarrow> u64) list" where
  "line_counters = [al_logs_written, al_spans_written, al_metrics_written, al_logs_deleted,
     al_spans_deleted, al_metrics_deleted, al_rejected]"

text \<open>Along the ticks no counter decreases.\<close>

fun counters_grow :: "activityState \<Rightarrow> (int \<times> activityState) list \<Rightarrow> bool" where
  "counters_grow p [] = True"
| "counters_grow p ((now, c) # ticks) =
     (list_all2 (\<le>) (counters p) (counters c) \<and> counters_grow c ticks)"

lemma unchanged_counters: "\<not> activityChanged p c \<Longrightarrow> counters c = counters p"
  by (simp add: activityChanged_def counters_def)

lemma line_counters_delta:
  "list_all2 (\<le>) (counters p) (counters c) \<Longrightarrow>
     map (\<lambda>f. f (logActivity cf p c)) line_counters = map2 (-) (counters c) (counters p)"
  by (auto simp: counters_def line_counters_def logActivity_def counterDelta_def not_less)

lemma counters_grow_cong: "counters p = counters q \<Longrightarrow> counters_grow p ticks = counters_grow q ticks"
  by (cases ticks) auto

lemma activityLoop_counters:
  "counters_grow previous ticks \<Longrightarrow>
     map (\<lambda>f. reported f (activityLoop cf previous lastReport ticks)) line_counters =
       map2 (-) (counters (if ticks = [] then previous else snd (last ticks))) (counters previous)"
proof (induction cf previous lastReport ticks rule: activityLoop.induct)
  case (1 cf previous lastReport)
  then show ?case by (simp add: reported_def counters_def line_counters_def)
next
  case (2 cf previous lastReport now current ticks)
  let ?final = "if ticks = [] then current else snd (last ticks)"
  from 2(3) have grow: "list_all2 (\<le>) (counters previous) (counters current)"
    "counters_grow current ticks" by simp_all
  show ?case
  proof (cases "activityChanged previous current \<or> now - lastReport \<ge> idleInterval")
    case True
    from 2(1) [OF True grow(2)] line_counters_delta [OF grow(1), of cf] True
    show ?thesis by (simp add: reported_def counters_def line_counters_def)
  next
    case False
    then have same: "counters current = counters previous" by (simp add: unchanged_counters)
    with grow(2) have "counters_grow previous ticks" using counters_grow_cong by blast
    from 2(2) [OF False this] False same show ?thesis by (cases "ticks = []") simp_all
  qed
qed

text \<open>
  C26. The activity log loses and repeats nothing: while no counter of the store or of the gate
  goes down, the written, deleted and rejected amounts of the lines add up, counter by counter,
  to the growth from the start of the loop to its last tick.
\<close>

theorem activity_log_adds_up:
  assumes "counters_grow start ticks" "ticks \<noteq> []"
  shows "map (\<lambda>f. reported f (activityLoop cf start t0 ticks)) line_counters =
    map2 (-) (counters (snd (last ticks))) (counters start)"
  using activityLoop_counters [OF assms(1), of cf t0] assms(2) by simp

section \<open>Start and shutdown of the server\<close>

text \<open>
  \<open>server\<close> and \<open>reporting\<close> of the extension, and how often the stop channel has
  been closed; a second close would panic.
\<close>

record server_state =
  sv_ready :: bool
  sv_server :: bool
  sv_reporting :: bool
  sv_closed :: nat

record server_env =
  se_find :: "go_error option"
  se_listen :: "go_error option"
  se_done :: "go_error option"
  se_shutdown :: "go_error option"
  se_close :: "go_error option"

definition status_start :: "server_env \<Rightarrow> server_state \<Rightarrow> unit result \<times> server_state" where
  "status_start env v =
     (case se_find env of
        Some e \<Rightarrow> (Inl e, v)
      | None \<Rightarrow>
          let v = v\<lparr>sv_server := True\<rparr> in
          (case se_listen env of
             Some e \<Rightarrow> (Inl e, v)
           | None \<Rightarrow> (Inr (), v\<lparr>sv_reporting := True\<rparr>)))"

text \<open>\<open>se_done\<close> is the outcome of the wait for the activity loop.\<close>

definition status_shutdown :: "server_env \<Rightarrow> server_state \<Rightarrow> go_error list \<times> server_state" where
  "status_shutdown env v =
     (let v = v\<lparr>sv_ready := False\<rparr>;
          (stopErr, v) = (if sv_reporting v
            then (se_done env, v\<lparr>sv_reporting := False, sv_closed := sv_closed v + 1\<rparr>)
            else (None, v))
      in if \<not> sv_server v then (List.map_filter id [stopErr], v)
         else (case se_shutdown env of
                 Some e \<Rightarrow> (List.map_filter id [stopErr, Some e, se_close env], v)
               | None \<Rightarrow> (List.map_filter id [stopErr], v)))"

lemma shutdown_once:
  "sv_closed (snd (status_shutdown env' (snd (status_shutdown env v)))) =
     sv_closed (snd (status_shutdown env v))"
  by (simp add: status_shutdown_def Let_def split: option.split)

end
