(* ===== verification/StatusWitnesses.thy ===== *)
theory StatusWitnesses
  imports StatusHandlers StoreWitnesses
begin

text \<open>
  The properties of the status extension at a running gate with one request in its handler, a
  ready store and a disk with room.
\<close>

definition open_gate :: gate where
  "open_gate = (new_gate default_status_config roomy_disk)
     \<lparr>pipelineReady := True, g_store := Some (open_store empty_database)\<rparr>"

definition serving_gate :: gate where
  "serving_gate = open_gate\<lparr>g_permits := 1, inFlight := 1, requests := {#Serving#}\<rparr>"

lemma open_gate_open: "gate_open open_gate"
proof -
  have "Ready (OperationalSnapshot roomy_disk (open_store empty_database))"
    using roomy_admits [of empty_database]
    by (auto simp: admissionErrorLocked_def snapshot_ready_iff not_le not_less split: if_splits)
  then show ?thesis by (simp add: gate_open_def open_gate_def new_gate_def)
qed

lemma serving_gate_run: "gate_step\<^sup>*\<^sup>* (new_gate default_status_config roomy_disk) serving_gate"
proof -
  let ?g1 = "open_gate\<lparr>requests := {#Arriving#}\<rparr>"
  let ?g2 = "?g1\<lparr>g_permits := 1, requests := {#Admitted#}\<rparr>"
  have a: "gate_step (new_gate default_status_config roomy_disk) open_gate"
    using outside [where g = "new_gate default_status_config roomy_disk" and b = True
        and st = "Some (open_store empty_database)" and dk = roomy_disk]
    by (simp add: open_gate_def new_gate_def)
  have b: "gate_step open_gate ?g1"
    using arrive [of open_gate] by (simp add: open_gate_def new_gate_def)
  have op: "gate_open ?g1" using open_gate_open by (auto simp: gate_open_def split: option.splits)
  have c: "gate_step ?g1 ?g2"
    using take_permit [of ?g1, OF _ op]
    by (simp add: moved_def open_gate_def new_gate_def capacity_def default_status_config_def)
  have d: "gate_step ?g2 serving_gate"
    using count_in [of ?g2]
    by (simp add: moved_def serving_gate_def open_gate_def new_gate_def)
  from a b c d show ?thesis by (meson converse_rtranclp_into_rtranclp rtranclp.rtrancl_refl)
qed

theorem gate_limits_handlers_witness:
  "count (requests serving_gate) Serving = 1 \<and> 0 < g_permits serving_gate"
  using gate_limits_handlers [OF serving_gate_run] by (simp add: serving_gate_def)

theorem readyz_means_admission_witness:
  "code (handleReady (open_store empty_database) serving_gate) = 200"
proof -
  have op: "gate_open serving_gate"
    using open_gate_open by (auto simp: gate_open_def serving_gate_def split: option.splits)
  have "gate_inv serving_gate"
    using gate_run_inv [OF serving_gate_run gate_inv_new] by simp
  moreover have "g_store serving_gate = Some (open_store empty_database)"
    "g_disk serving_gate = roomy_disk" "fst (acquire serving_gate) = Inr ()"
    using op by (simp_all add: acquire_def serving_gate_def open_gate_def new_gate_def capacity_def
        default_status_config_def)
  moreover have "set_mset (requests serving_gate) \<subseteq> {Arriving, Serving, Finished, Refused}"
    by (simp add: serving_gate_def)
  ultimately show ?thesis
    using readyz_means_admission [of serving_gate "open_store empty_database"]
    by (simp add: open_store_state roomy_admits)
qed

definition remote_request :: clear_request where
  "remote_request = \<lparr>cr_method = ''POST'', cr_remote = ''10.0.0.9:4000'', cr_origin = [],
     cr_confirm = ''clear'', cr_content_type = ''application/json''\<rparr>"

definition some_clear_parsers :: clear_parsers where
  "some_clear_parsers = \<lparr>cp_host = (\<lambda>s. Inr s), cp_loopback = (\<lambda>_. False), cp_media = (\<lambda>s. Inr s),
     cp_database = Inr ''/d/logal.db'', cp_at_end = True\<rparr>"

theorem handleClear_guards_witness:
  "\<forall>env. code (fst (handleClear (\<lambda>_. []) some_clear_parsers env remote_request open_gate)) \<noteq> 200"
proof
  fix env
  show "code (fst (handleClear (\<lambda>_. []) some_clear_parsers env remote_request open_gate)) \<noteq> 200"
  using handleClear_guards [where encode = "\<lambda>_. []" and p = some_clear_parsers and env = env
      and r = remote_request and g = open_gate]
  by (auto simp: some_clear_parsers_def split: prod.splits)
qed

definition busy_state :: "u64 \<Rightarrow> activityState" where
  "busy_state n = currentActivityState ((open_store empty_database)\<lparr>committedLogs := n\<rparr>) open_gate"

theorem activity_log_adds_up_witness:
  "map (\<lambda>f. reported f (activityLoop default_status_config (busy_state 0) 0
      [(10, busy_state 4), (20, busy_state 9)])) line_counters = [9, 0, 0, 0, 0, 0, 0]"
proof -
  have counters: "counters (busy_state n) = [n, 0, 0, 0, 0, 0, 0]" for n
    by (simp add: counters_def busy_state_def currentActivityState_def OperationalSnapshot_def
        open_store_def new_store_def open_gate_def new_gate_def)
  have "counters_grow (busy_state 0) [(10, busy_state 4), (20, busy_state 9)]"
    by (simp add: counters)
  from activity_log_adds_up [OF this, of default_status_config 0] show ?thesis
    by (simp add: counters)
qed

end
