(* ===== verification/Canonical.thy ===== *)
theory Canonical
  imports JsonText
begin

text \<open>
  Canonical payloads (\<open>canonicalPayload\<close>, \<open>canonicalize\<close> in
  \<^verbatim>\<open>internal/exporter/exporter.go\<close>). The code sorts the entry lists of a decoded
  document in place; here the sorted document is returned, and \<open>None\<close> stands for the panic
  of a type assertion on an entry that is not an object.
\<close>

section \<open>Sorting of entry lists\<close>

definition attribute_list :: "string \<Rightarrow> string \<Rightarrow> bool" where
  "attribute_list parent key \<longleftrightarrow>
     key = ''attributes'' \<or> key = ''filteredAttributes'' \<or> key = ''metadata'' \<or>
     (parent = ''kvlistValue'' \<and> key = ''values'')"

fun is_object :: "json \<Rightarrow> bool" where
  "is_object (JObj es) = True"
| "is_object v = False"

text \<open>\<open>entry["key"].(string)\<close>, empty when it is missing or not a string.\<close>

fun entry_key :: "json \<Rightarrow> string" where
  "entry_key (JObj es) = (case map_of es ''key'' of Some (JStr s) \<Rightarrow> s | _ \<Rightarrow> [])"
| "entry_key v = []"

text \<open>
  \<open>sort.SliceStable\<close> calls the comparison, which asserts that both entries are objects, as
  soon as there are two entries, and on every entry.
\<close>

definition sort_entries :: "json \<Rightarrow> json option" where
  "sort_entries v =
     (case v of
        JArr entries \<Rightarrow>
          if 2 \<le> length entries \<and> \<not> list_all is_object entries then None
          else Some (JArr (sort_key entry_key entries))
      | _ \<Rightarrow> Some v)"

text \<open>All results, or none when one is missing.\<close>

fun all_some :: "'a option list \<Rightarrow> 'a list option" where
  "all_some [] = Some []"
| "all_some (x # xs) =
     (case x of None \<Rightarrow> None | Some y \<Rightarrow> (case all_some xs of None \<Rightarrow> None | Some ys \<Rightarrow> Some (y # ys)))"

lemma size_list_sort [simp]: "size_list f (sort_key k xs) = size_list f xs"
proof -
  have "size_list f xs = sum_mset (image_mset (\<lambda>x. Suc (f x)) (mset xs))" for xs
    by (induction xs) auto
  then show ?thesis by simp
qed

lemma sort_entries_size: "sort_entries v = Some w \<Longrightarrow> size w = size v"
  by (auto simp: sort_entries_def split: json.splits if_splits)

lemma entry_size: "(k, v) \<in> set es \<Longrightarrow> size v < size (JObj es)"
  by (induction es) auto

lemma item_size: "v \<in> set vs \<Longrightarrow> size v < size (JArr vs)"
  by (induction vs) auto

lemma field_smaller:
  assumes "((k::string), v) \<in> set es" "(if b then sort_entries v else Some v) = Some w"
  shows "size w < Suc (size_list (size_prod (\<lambda>x. 0) size) es)"
proof -
  have "size w = size v" using assms(2) sort_entries_size by (auto split: if_splits)
  with entry_size [OF assms(1)] show ?thesis by simp
qed

function canonicalize :: "string \<Rightarrow> json \<Rightarrow> json option" where
  "canonicalize parent (JObj es) =
     map_option JObj (all_some (map
       (\<lambda>(k, v). map_option (\<lambda>w. (k, w))
          (case (if attribute_list parent k then sort_entries v else Some v) of
             None \<Rightarrow> None
           | Some w \<Rightarrow> canonicalize k w)) es))"
| "canonicalize parent (JArr vs) = map_option JArr (all_some (map (canonicalize parent) vs))"
| "canonicalize parent JNull = Some JNull"
| "canonicalize parent (JBool b) = Some (JBool b)"
| "canonicalize parent (JNum n) = Some (JNum n)"
| "canonicalize parent (JStr s) = Some (JStr s)"
  by pat_completeness auto
termination
  by (relation "measure (\<lambda>(p, v). size v)")
    (auto simp: field_smaller dest: item_size)

text \<open>
  \<open>decode\<close> is the JSON decoder with \<open>UseNumber\<close>. A panic would end the process; it is
  kept apart from the errors as \<open>None\<close>.
\<close>

definition canonicalPayload :: "(string \<Rightarrow> json result) \<Rightarrow> string result \<Rightarrow> string result option" where
  "canonicalPayload decode payload =
     (case payload of
        Inl e \<Rightarrow> Some (Inl e)
      | Inr p \<Rightarrow>
          (case decode p of
             Inl e \<Rightarrow> Some (Inl e)
           | Inr v \<Rightarrow> map_option (\<lambda>w. Inr (marshal w)) (canonicalize [] v)))"

section \<open>The order of entries does not matter\<close>

text \<open>
  Two documents that differ at most in the order of entries of attribute lists, at any depth.
  The keys of a list that is reordered are distinct.
\<close>

inductive reordered :: "string \<Rightarrow> json \<Rightarrow> json \<Rightarrow> bool" where
  same: "reordered p v v"
| items: "list_all2 (reordered p) vs ws \<Longrightarrow> reordered p (JArr vs) (JArr ws)"
| fields: "list_all2 (\<lambda>e f. fst e = fst f \<and>
      (reordered (fst e) (snd e) (snd f) \<or>
       attribute_list p (fst e) \<and>
       (\<exists>vs us ws. snd e = JArr vs \<and> snd f = JArr ws \<and> mset us = mset vs \<and>
          distinct (map entry_key vs) \<and> list_all is_object vs \<and> list_all2 (reordered (fst e)) us ws)))
      es fs \<Longrightarrow> reordered p (JObj es) (JObj fs)"

inductive_cases reordered_ObjE: "reordered p (JObj es) w"
inductive_cases reordered_ArrE: "reordered p (JArr vs) w"
inductive_cases reordered_StrE: "reordered p (JStr s) w"

lemma reordered_string: "reordered p v w \<Longrightarrow> v = JStr s \<longleftrightarrow> w = JStr s"
  by (auto elim: reordered.cases)

lemma reordered_object: "reordered p v w \<Longrightarrow> is_object v = is_object w"
  by (auto elim: reordered.cases)

fun string_of :: "json \<Rightarrow> string" where
  "string_of (JStr s) = s"
| "string_of v = []"

lemma entry_key_Cons:
  "entry_key (JObj (e # es)) = (if fst e = ''key'' then string_of (snd e) else entry_key (JObj es))"
  by (cases "snd e") auto

lemma string_of_eq:
  assumes "\<And>s. v = JStr s \<longleftrightarrow> w = JStr s"
  shows "string_of v = string_of w"
proof (cases "\<exists>s. v = JStr s")
  case True
  then obtain s where v: "v = JStr s" by blast
  then have "w = JStr s" using assms by blast
  with v show ?thesis by simp
next
  case False
  then have "\<nexists>s. w = JStr s" using assms by blast
  with False show ?thesis by (cases v; cases w) simp_all
qed

lemma entry_key_fields:
  "list_all2 (\<lambda>e f. fst e = fst f \<and> (fst e = ''key'' \<longrightarrow> (\<forall>s. snd e = JStr s \<longleftrightarrow> snd f = JStr s))) es fs \<Longrightarrow>
     entry_key (JObj es) = entry_key (JObj fs)"
proof (induction rule: list_all2_induct)
  case (Cons e es f fs)
  have "fst e = ''key'' \<Longrightarrow> string_of (snd e) = string_of (snd f)"
    using string_of_eq [of "snd e" "snd f"] Cons.hyps(1) by blast
  moreover have "fst e = fst f" using Cons.hyps(1) by blast
  ultimately show ?case using Cons.IH unfolding entry_key_Cons by presburger
qed simp

lemma not_key_list: "attribute_list p k \<Longrightarrow> k \<noteq> ''key''"
  by (auto simp: attribute_list_def)

lemma reordered_key:
  assumes "reordered p v w"
  shows "entry_key v = entry_key w"
  using assms
proof (rule reordered.cases)
  fix q es fs
  assume eq: "v = JObj es" "w = JObj fs"
  assume fields: "list_all2 (\<lambda>e f. fst e = fst f \<and>
      (reordered (fst e) (snd e) (snd f) \<or>
       attribute_list q (fst e) \<and>
       (\<exists>vs us ws. snd e = JArr vs \<and> snd f = JArr ws \<and> mset us = mset vs \<and>
          distinct (map entry_key vs) \<and> list_all is_object vs \<and> list_all2 (reordered (fst e)) us ws)))
      es fs"
  have "list_all2 (\<lambda>e f. fst e = fst f \<and> (fst e = ''key'' \<longrightarrow> (\<forall>s. snd e = JStr s \<longleftrightarrow> snd f = JStr s))) es fs"
    using fields by (rule list_all2_mono) (metis not_key_list reordered_string)
  then show "entry_key v = entry_key w" unfolding eq by (rule entry_key_fields)
qed auto

lemma sort_key_pairs:
  assumes "list_all2 (\<lambda>a b. R a b \<and> f a = g b) xs ys"
  shows "list_all2 (\<lambda>a b. R a b \<and> f a = g b) (sort_key f xs) (sort_key g ys)"
proof -
  have insort: "list_all2 (\<lambda>a b. R a b \<and> f a = g b) us vs \<Longrightarrow> R a b \<and> f a = g b \<Longrightarrow>
      list_all2 (\<lambda>a b. R a b \<and> f a = g b) (insort_key f a us) (insort_key g b vs)" for us vs a b
    by (induction us vs rule: list_all2_induct) auto
  show ?thesis
    using assms by (induction rule: list_all2_induct) (auto intro!: insort)
qed

lemma sort_key_perm:
  assumes "mset us = mset vs" "distinct (map f vs)"
  shows "sort_key f us = sort_key f vs"
proof (rule sort_key_inj_key_eq)
  show "mset us = mset (sort_key f vs)" using assms(1) by simp
  show "inj_on f (set us)"
    using assms by (metis distinct_map mset_eq_setD)
  show "sorted (map f (sort_key f vs))" by simp
qed

section \<open>Canonical forms\<close>

text \<open>What a field of an object becomes.\<close>

definition canonical_field :: "string \<Rightarrow> string \<Rightarrow> json \<Rightarrow> json option" where
  "canonical_field parent k v =
     (case (if attribute_list parent k then sort_entries v else Some v) of
        None \<Rightarrow> None | Some w \<Rightarrow> canonicalize k w)"

lemma canonicalize_object:
  "canonicalize p (JObj es) =
     map_option JObj (all_some (map (\<lambda>e. map_option (Pair (fst e)) (canonical_field p (fst e) (snd e))) es))"
  by (simp add: canonical_field_def split_beta')

definition agree :: "string \<Rightarrow> json \<Rightarrow> json \<Rightarrow> bool" where
  "agree k v w \<longleftrightarrow> (canonicalize k v = canonicalize k w \<and> is_object v = is_object w) \<and>
     entry_key v = entry_key w"

lemma agree_maps: "list_all2 (agree k) vs ws \<Longrightarrow> map (canonicalize k) vs = map (canonicalize k) ws"
  by (induction rule: list_all2_induct) (auto simp: agree_def)

lemma agree_objects: "list_all2 (agree k) vs ws \<Longrightarrow> list_all is_object vs = list_all is_object ws"
  by (induction rule: list_all2_induct) (auto simp: agree_def)

lemma agree_sort:
  "list_all2 (agree k) vs ws \<Longrightarrow> list_all2 (agree k) (sort_key entry_key vs) (sort_key entry_key ws)"
  using sort_key_pairs [of "\<lambda>v w. canonicalize k v = canonicalize k w \<and> is_object v = is_object w"
      entry_key entry_key vs ws]
  unfolding agree_def [abs_def] .

lemma agree_array:
  assumes "list_all2 (agree k) vs ws"
  shows "canonical_field p k (JArr vs) = canonical_field p k (JArr ws)"
  using agree_maps [OF assms] agree_maps [OF agree_sort [OF assms]] agree_objects [OF assms]
    list_all2_lengthD [OF assms]
  by (simp add: canonical_field_def sort_entries_def)

lemma permuted_array:
  assumes "attribute_list p k" "mset us = mset vs" "distinct (map entry_key vs)"
  shows "canonical_field p k (JArr us) = canonical_field p k (JArr vs)"
proof -
  have "sort_key entry_key us = sort_key entry_key vs" by (rule sort_key_perm [OF assms(2,3)])
  moreover have "length us = length vs" using assms(2) by (metis size_mset)
  moreover have "list_all is_object us = list_all is_object vs"
    using assms(2) by (metis list.pred_set mset_eq_setD)
  ultimately show ?thesis using assms(1) by (simp add: canonical_field_def sort_entries_def)
qed

text \<open>What the induction carries: equal results, and items that agree one by one.\<close>

definition similar :: "string \<Rightarrow> json \<Rightarrow> json \<Rightarrow> bool" where
  "similar p v w \<longleftrightarrow> canonicalize p v = canonicalize p w \<and>
     (v = w \<or> (\<exists>vs ws. v = JArr vs \<and> w = JArr ws \<and> list_all2 (agree p) vs ws) \<or>
      (\<exists>es fs. v = JObj es \<and> w = JObj fs))"

lemma sort_entries_not_array: "(\<And>vs. v \<noteq> JArr vs) \<Longrightarrow> sort_entries v = Some v"
  by (cases v) (auto simp: sort_entries_def)

lemma similar_field: "similar k v w \<Longrightarrow> canonical_field p k v = canonical_field p k w"
proof -
  assume sim: "similar k v w"
  consider "v = w" | (arr) vs ws where "v = JArr vs" "w = JArr ws" "list_all2 (agree k) vs ws"
    | (obj) es fs where "v = JObj es" "w = JObj fs"
    using sim unfolding similar_def by blast
  then show ?thesis
  proof cases
    case arr
    then show ?thesis using agree_array by simp
  next
    case obj
    then show ?thesis
      using sim sort_entries_not_array [of v] sort_entries_not_array [of w]
      unfolding canonical_field_def similar_def by simp
  qed simp
qed

lemma reordered_agree: "reordered p v w \<Longrightarrow> similar p v w \<Longrightarrow> agree p v w"
  using reordered_key reordered_object by (auto simp: agree_def similar_def)

lemma reordered_similar: "reordered p v w \<Longrightarrow> similar p v w"
proof (induction rule: reordered.induct)
  case (same p v)
  then show ?case by (simp add: similar_def)
next
  case (items p vs ws)
  have "list_all2 (agree p) vs ws"
    using items by (rule list_all2_mono) (auto intro: reordered_agree)
  then show ?case using agree_maps by (simp add: similar_def)
next
  case (fields p es fs)
  have field: "canonical_field p k v = canonical_field p k w"
    if "attribute_list p k" "v = JArr vs" "w = JArr ws" "mset us = mset vs"
      "distinct (map entry_key vs)" "list_all2 (\<lambda>a b. reordered k a b \<and> similar k a b) us ws"
    for k v w vs us ws
  proof -
    have "list_all2 (agree k) us ws"
      using that(6) by (rule list_all2_mono) (auto intro: reordered_agree)
    from agree_array [OF this] permuted_array [OF that(1,4,5)] that(2,3) show ?thesis by simp
  qed
  have "list_all2 (\<lambda>e f. fst e = fst f \<and>
      canonical_field p (fst e) (snd e) = canonical_field p (fst e) (snd f)) es fs"
    using fields by (rule list_all2_mono) (use similar_field field in blast)
  then have "map (\<lambda>e. map_option (Pair (fst e)) (canonical_field p (fst e) (snd e))) es =
      map (\<lambda>e. map_option (Pair (fst e)) (canonical_field p (fst e) (snd e))) fs"
    by (induction rule: list_all2_induct) auto
  then show ?case unfolding similar_def canonicalize_object by simp
qed

text \<open>
  C27. The order in which a client lists attributes does not matter to deduplication: two
  payloads whose documents differ at most in the order of the entries of attribute lists with
  distinct keys, at any depth, have the same canonical payload, or fail alike.
\<close>

theorem canonicalPayload_order_free:
  assumes "decode p = Inr v" "decode q = Inr w" "reordered [] v w"
  shows "canonicalPayload decode (Inr p) = canonicalPayload decode (Inr q)"
  using reordered_similar [OF assms(3)] assms(1,2) by (simp add: canonicalPayload_def similar_def)

definition entry :: "string \<Rightarrow> string \<Rightarrow> json" where
  "entry k v = JObj [(''key'', JStr k), (''value'', JObj [(''stringValue'', JStr v)])]"

definition document :: "json list \<Rightarrow> json" where
  "document entries = JObj [(''attributes'', JArr entries)]"

lemma document_reordered:
  "reordered [] (document [entry ''b'' ''1'', entry ''a'' ''2''])
     (document [entry ''a'' ''2'', entry ''b'' ''1''])"
  unfolding document_def
proof (rule reordered.fields)
  let ?vs = "[entry ''b'' ''1'', entry ''a'' ''2'']" and ?ws = "[entry ''a'' ''2'', entry ''b'' ''1'']"
  have "attribute_list [] ''attributes''" "mset ?ws = mset ?vs" "distinct (map entry_key ?vs)"
    "list_all is_object ?vs" "list_all2 (reordered ''attributes'') ?ws ?ws"
    by (auto simp: attribute_list_def entry_def intro: reordered.same)
  then show "list_all2 (\<lambda>e f. fst e = fst f \<and>
      (reordered (fst e) (snd e) (snd f) \<or> attribute_list [] (fst e) \<and>
       (\<exists>vs us ws. snd e = JArr vs \<and> snd f = JArr ws \<and> mset us = mset vs \<and>
          distinct (map entry_key vs) \<and> list_all is_object vs \<and> list_all2 (reordered (fst e)) us ws)))
      [(''attributes'', JArr ?vs)] [(''attributes'', JArr ?ws)]"
    unfolding list.rel_inject(2) list_all2_Cons list_all2_Nil fst_conv snd_conv by blast
qed

theorem canonicalPayload_order_free_witness:
  "let decode = (\<lambda>s. if s = ''p'' then Inr (document [entry ''b'' ''1'', entry ''a'' ''2''])
                      else Inr (document [entry ''a'' ''2'', entry ''b'' ''1'']))
   in canonicalPayload decode (Inr ''p'') = canonicalPayload decode (Inr ''q'')"
  unfolding Let_def
  by (rule canonicalPayload_order_free [OF _ _ document_reordered]) simp_all

end
