(* ===== verification/Tagging.thy ===== *)
theory Tagging
  imports Redaction JsonText
begin

text \<open>
  The tagged JSON form of a log body (\<open>taggedValue\<close> in
  \<^verbatim>\<open>internal/exporter/exporter.go\<close>): every value is an object with one key that names its
  type, so integers, doubles, bytes and strings stay apart. \<open>json.Marshal\<close>'s text of a
  finite double is the parameter \<open>fmt\<close>.
\<close>

section \<open>Doubles\<close>

text \<open>The bit patterns with all exponent bits set.\<close>

definition exponent_mask :: "64 word" where
  "exponent_mask = 0x7FF0000000000000"

definition mantissa_mask :: "64 word" where
  "mantissa_mask = 0x000FFFFFFFFFFFFF"

definition positive_infinity :: "64 word" where
  "positive_infinity = 0x7FF0000000000000"

definition negative_infinity :: "64 word" where
  "negative_infinity = 0xFFF0000000000000"

definition quiet_nan :: "64 word" where
  "quiet_nan = 0x7FF8000000000001"

definition is_NaN :: "64 word \<Rightarrow> bool" where
  "is_NaN x \<longleftrightarrow> and x exponent_mask = exponent_mask \<and> and x mantissa_mask \<noteq> 0"

definition is_Inf :: "64 word \<Rightarrow> bool" where
  "is_Inf x \<longleftrightarrow> x = positive_infinity \<or> x = negative_infinity"

lemma infinities: "positive_infinity \<noteq> negative_infinity" "\<not> is_NaN positive_infinity"
  "\<not> is_NaN negative_infinity" "is_NaN quiet_nan"
  by (simp_all add: is_NaN_def positive_infinity_def negative_infinity_def exponent_mask_def
      mantissa_mask_def quiet_nan_def)

section \<open>Tagging\<close>

definition tagged_double :: "(64 word \<Rightarrow> string) \<Rightarrow> 64 word \<Rightarrow> json" where
  "tagged_double fmt x =
     (if is_NaN x then JStr ''NaN''
      else if x = positive_infinity then JStr ''+Infinity''
      else if x = negative_infinity then JStr ''-Infinity''
      else JNum (fmt x))"

fun taggedValue :: "(64 word \<Rightarrow> string) \<Rightarrow> Value \<Rightarrow> json" where
  "taggedValue fmt VEmpty = JObj [(''empty'', JBool True)]"
| "taggedValue fmt (VStr s) = JObj [(''string'', JStr s)]"
| "taggedValue fmt (VBool b) = JObj [(''bool'', JBool b)]"
| "taggedValue fmt (VInt i) = JObj [(''int'', JStr (show_int i))]"
| "taggedValue fmt (VDouble x) = JObj [(''double'', tagged_double fmt x)]"
| "taggedValue fmt (VBytes b) = JObj [(''bytes'', JStr (b64_encode b))]"
| "taggedValue fmt (VSlice vs) = JObj [(''array'', JArr (map (taggedValue fmt) vs))]"
| "taggedValue fmt (VMap es) =
     JObj [(''map'', JArr (map (\<lambda>e. JObj [(''key'', JStr (fst e)), (''value'', taggedValue fmt (snd e))]) es))]"

section \<open>Reading the tagged form back\<close>

text \<open>
  A reader of the stored form, by the tag alone. Nothing in the program reads the form back;
  this is the specification that the form is complete.
\<close>

definition read_double :: "(string \<Rightarrow> 64 word) \<Rightarrow> json \<Rightarrow> 64 word" where
  "read_double parse v =
     (case v of
        JNum n \<Rightarrow> parse n
      | JStr s \<Rightarrow> if s = ''+Infinity'' then positive_infinity
                 else if s = ''-Infinity'' then negative_infinity else quiet_nan
      | _ \<Rightarrow> quiet_nan)"

fun read_text :: "json \<Rightarrow> string" where
  "read_text (JStr s) = s"
| "read_text v = []"

fun untag :: "(string \<Rightarrow> 64 word) \<Rightarrow> json \<Rightarrow> Value" where
  "untag parse (JObj [(tag, JArr items)]) =
     (if tag = ''array'' then VSlice (map (untag parse) items)
      else VMap (map (\<lambda>item. case item of
             JObj [(k, key), (v, value)] \<Rightarrow> (read_text key, untag parse value) | _ \<Rightarrow> ([], VEmpty)) items))"
| "untag parse (JObj [(tag, JBool b)]) = (if tag = ''bool'' then VBool b else VEmpty)"
| "untag parse (JObj [(tag, JNum n)]) = VDouble (parse n)"
| "untag parse (JObj [(tag, JStr s)]) =
     (if tag = ''string'' then VStr s
      else if tag = ''int'' then VInt (read_int s)
      else if tag = ''bytes'' then VBytes (the (b64_decode s))
      else VDouble (read_double parse (JStr s)))"
| "untag parse v = VEmpty"

text \<open>All NaN payloads are one: the value with every NaN replaced by the same one.\<close>

fun one_nan :: "Value \<Rightarrow> Value" where
  "one_nan (VDouble x) = VDouble (if is_NaN x then quiet_nan else x)"
| "one_nan (VSlice vs) = VSlice (map one_nan vs)"
| "one_nan (VMap es) = VMap (map (\<lambda>e. (fst e, one_nan (snd e))) es)"
| "one_nan v = v"

text \<open>
  C33. The tagged form of a body loses nothing but NaN payloads: given that the number format
  of finite doubles can be parsed back, reading the tag and the content gives the value again,
  at any depth, so two bodies with the same stored form are the same values of the same types.
\<close>

theorem untag_taggedValue:
  assumes "\<And>x. \<not> is_NaN x \<Longrightarrow> \<not> is_Inf x \<Longrightarrow> parse (fmt x) = x"
  shows "untag parse (taggedValue fmt v) = one_nan v"
proof (induction v rule: Value_induct)
  case (scalar v)
  then show ?case
    using assms
    by (cases v) (auto simp: tagged_double_def read_double_def is_Inf_def read_show_int b64_decode_encode infinities)
next
  case (slice vs)
  then show ?case by simp
next
  case (map es)
  then show ?case by auto
qed

text \<open>A number format of the bit pattern stands for the one of the library.\<close>

theorem untag_taggedValue_witness:
  "untag (\<lambda>s. of_int (read_int s)) (taggedValue (\<lambda>x. show_int (uint x))
     (VMap [(''n'', VInt (-3)), (''x'', VSlice [VDouble 5, VDouble quiet_nan]), (''b'', VBytes ''ab'')])) =
   VMap [(''n'', VInt (-3)), (''x'', VSlice [VDouble 5, VDouble quiet_nan]), (''b'', VBytes ''ab'')]"
proof -
  have "\<not> is_NaN 5" by (simp add: is_NaN_def exponent_mask_def)
  then show ?thesis
    by (subst untag_taggedValue) (simp_all add: read_show_int infinities)
qed

end
