(* ===== verification/Otlp.thy ===== *)
theory Otlp
  imports StoreInsertProps Canonical Tagging
begin

text \<open>
  What the three exporters share (\<^verbatim>\<open>internal/exporter/exporter.go\<close>): the shape of OTLP
  requests, the walk over resources and scopes with its validation, the payload budget, the
  copy and redaction of one item with its resource and scope, and the translation of errors to
  gRPC codes. The three \<open>Consume\<close> functions have the same loops around different items;
  the loops are stated once, with the noun of their messages as an argument. \<open>None\<close> is a
  panic of \<open>canonicalize\<close>.
\<close>

section \<open>Configuration\<close>

text \<open>
  The configured store id; \<open>store_id\<close> says whether a text parses as a component id of
  the store's type. \<open>Start\<close> looks the store up among the extensions.
\<close>

record ExporterConfig =
  xc_Store :: string

definition default_exporter_config :: ExporterConfig where
  "default_exporter_config = \<lparr>xc_Store = ''logal_store''\<rparr>"

definition exporter_validate :: "(string \<Rightarrow> bool) \<Rightarrow> ExporterConfig \<Rightarrow> go_error option" where
  "exporter_validate store_id c =
     (if \<not> store_id (xc_Store c) then Some (Msg ''store must identify a logal_store extension'') else None)"

definition exporter_start :: "(string \<times> 'store option) list \<Rightarrow> ExporterConfig \<Rightarrow> 'store result" where
  "exporter_start extensions c = Find extensions (xc_Store c)"

section \<open>Requests\<close>

record Resource =
  r_attributes :: attrs
  r_dropped :: nat

record Scope =
  scope_name :: string
  scope_version :: string
  scope_attributes :: attrs
  scope_dropped :: nat

text \<open>\<open>ScopeLogs\<close>, \<open>ScopeSpans\<close>, \<open>ScopeMetrics\<close>, and the same for resources.\<close>

record 'd Scoped =
  sd_scope :: Scope
  sd_url :: string
  sd_items :: "'d list"

record 'd Resourced =
  rd_resource :: Resource
  rd_url :: string
  rd_scopes :: "'d Scoped list"

definition item_count :: "'d Resourced list \<Rightarrow> nat" where
  "item_count data = sum_list (map (\<lambda>rs. sum_list (map (\<lambda>sc. length (sd_items sc)) (rd_scopes rs))) data)"

section \<open>The surroundings of a request\<close>

text \<open>
  The clock, \<open>ctx.Err()\<close> before each record, \<open>strings.ToLower\<close> outside ASCII,
  SHA-256, the JSON decoder with \<open>UseNumber\<close>, and the JSON text of a double.
\<close>

record export_env =
  ee_now :: int
  ee_ctx :: "nat \<Rightarrow> go_error option"
  ee_lower :: "string \<Rightarrow> string"
  ee_sha :: "string \<Rightarrow> string"
  ee_decode :: "string \<Rightarrow> json result"
  ee_fmt :: "64 word \<Rightarrow> string"

definition invalid :: "string \<Rightarrow> go_error" where
  "invalid message = StatusError InvalidArgument message"

text \<open>\<open>status.FromContextError\<close> looks for the deadline first.\<close>

definition exportError :: "go_error \<Rightarrow> go_error" where
  "exportError e =
     (if errors_is e Canceled \<or> errors_is e DeadlineExceeded
      then StatusError (if errors_is e DeadlineExceeded then DeadlineExceededCode else CanceledCode) (err_text e)
      else StatusError Unavailable (err_text e))"

definition maxPersistedRequestBytes :: nat where
  "maxPersistedRequestBytes = 67108864"

definition max_timestamp :: int where
  "max_timestamp = 9223372036854775807"

section \<open>Small helpers\<close>

fun first :: "string list \<Rightarrow> string" where
  "first [] = []"
| "first (v # vs) = (if v \<noteq> [] then v else first vs)"

definition id_empty :: "string \<Rightarrow> bool" where
  "id_empty i \<longleftrightarrow> list_all (\<lambda>c. c = CHR 0x00) i"

definition nonZeroTraceID :: "string \<Rightarrow> string" where
  "nonZeroTraceID i = (if id_empty i then [] else i)"

definition nonZeroSpanID :: "string \<Rightarrow> string" where
  "nonZeroSpanID i = (if id_empty i then [] else i)"

definition service_name :: "attrs \<Rightarrow> string" where
  "service_name m =
     (let s = attributeString m ''service.name'' in if s = [] then ''unknown_service'' else s)"

section \<open>One item with its resource and scope\<close>

definition redact_resource :: "(string \<Rightarrow> string) \<Rightarrow> Resource \<Rightarrow> Resource" where
  "redact_resource ul r = r\<lparr>r_attributes := redactMap ul (r_attributes r)\<rparr>"

definition redact_scope :: "(string \<Rightarrow> string) \<Rightarrow> Scope \<Rightarrow> Scope" where
  "redact_scope ul s = s\<lparr>scope_attributes := redactMap ul (scope_attributes s)\<rparr>"

text \<open>The request that holds one redacted item.\<close>

definition single_request ::
    "(string \<Rightarrow> string) \<Rightarrow> 'd Resourced \<Rightarrow> 'd Scoped \<Rightarrow> 'd \<Rightarrow> 'd Resourced list" where
  "single_request ul rs sc d =
     [\<lparr>rd_resource = redact_resource ul (rd_resource rs), rd_url = rd_url rs,
       rd_scopes = [\<lparr>sd_scope = redact_scope ul (sd_scope sc), sd_url = sd_url sc, sd_items = [d]\<rparr>]\<rparr>]"

section \<open>The walk\<close>

record 'r export_state =
  x_checked :: nat
  x_bytes :: nat
  x_records :: "'r list"

definition export_start :: "'r export_state" where
  "export_start = \<lparr>x_checked = 0, x_bytes = 0, x_records = []\<rparr>"

text \<open>A loop whose body may return an error or panic.\<close>

fun each :: "('a \<Rightarrow> 's \<Rightarrow> 's result option) \<Rightarrow> 'a list \<Rightarrow> 's \<Rightarrow> 's result option" where
  "each f [] st = Some (Inr st)"
| "each f (x # xs) st =
     (case f x st of Some (Inr st') \<Rightarrow> each f xs st' | stop \<Rightarrow> stop)"

type_synonym ('d, 'r) export_item =
  "string \<Rightarrow> 'd Resourced \<Rightarrow> 'd Scoped \<Rightarrow> 'd \<Rightarrow> 'r export_state \<Rightarrow> 'r export_state result option"

definition walk_scope ::
    "string \<Rightarrow> ('d, 'r) export_item \<Rightarrow> string \<Rightarrow> 'd Resourced \<Rightarrow> 'd Scoped \<Rightarrow> 'r export_state
      \<Rightarrow> 'r export_state result option" where
  "walk_scope noun item service rs sc st =
     (case validateMap (scope_attributes (sd_scope sc)) of
        Some e \<Rightarrow> Some (Inl (invalid (''invalid '' @ noun @ '' scope attributes: '' @ err_text e)))
      | None \<Rightarrow> each (item service rs sc) (sd_items sc) st)"

definition walk_resource ::
    "string \<Rightarrow> ('d, 'r) export_item \<Rightarrow> 'd Resourced \<Rightarrow> 'r export_state \<Rightarrow> 'r export_state result option" where
  "walk_resource noun item rs st =
     (case validateMap (r_attributes (rd_resource rs)) of
        Some e \<Rightarrow> Some (Inl (invalid (''invalid '' @ noun @ '' resource attributes: '' @ err_text e)))
      | None \<Rightarrow> each (walk_scope noun item (service_name (r_attributes (rd_resource rs))) rs) (rd_scopes rs) st)"

definition walk ::
    "string \<Rightarrow> ('d, 'r) export_item \<Rightarrow> 'd Resourced list \<Rightarrow> 'r export_state result option" where
  "walk noun item data = each (walk_resource noun item) data export_start"

section \<open>Lemmas on loops\<close>

lemma each_cong:
  assumes "\<And>x st. x \<in> set xs \<Longrightarrow> f x st = g (h x) st"
  shows "each f xs st = each g (map h xs) st"
  using assms
proof (induction xs arbitrary: st)
  case (Cons x xs)
  then show ?case by (auto split: option.split sum.split)
qed simp

text \<open>An invariant of the body holds after the loop.\<close>

lemma each_inv:
  assumes "each f xs st = Some (Inr st')" "P st"
    and "\<And>x s s'. x \<in> set xs \<Longrightarrow> f x s = Some (Inr s') \<Longrightarrow> P s \<Longrightarrow> P s'"
  shows "P st'"
  using assms
proof (induction xs arbitrary: st)
  case (Cons x xs)
  from Cons.prems(1) obtain s where s: "f x st = Some (Inr s)" "each f xs s = Some (Inr st')"
    by (auto split: option.splits sum.splits)
  then show ?case using Cons by (metis list.set_intros)
qed simp

lemma each_error:
  assumes "each f xs st = Some (Inl e)"
  shows "\<exists>x s. x \<in> set xs \<and> f x s = Some (Inl e)"
  using assms
proof (induction xs arbitrary: st)
  case (Cons x xs)
  show ?case
  proof (cases "f x st = Some (Inl e)")
    case True
    then show ?thesis by auto
  next
    case False
    with Cons.prems obtain s where "each f xs s = Some (Inl e)"
      by (auto split: option.splits sum.splits)
    with Cons.IH show ?thesis by (metis list.set_intros(2))
  qed
qed simp

lemma walk_inv:
  assumes "walk noun item data = Some (Inr st)" "P export_start"
    and "\<And>service rs sc d s s'. item service rs sc d s = Some (Inr s') \<Longrightarrow> P s \<Longrightarrow> P s'"
  shows "P st"
  using assms(1) unfolding walk_def
proof (rule each_inv)
  fix rs s s'
  assume "walk_resource noun item rs s = Some (Inr s')" "P s"
  then show "P s'" unfolding walk_resource_def
    by (auto split: option.splits elim!: each_inv simp: walk_scope_def intro: assms(3))
qed (rule assms(2))

lemma walk_error:
  assumes "walk noun item data = Some (Inl e)"
    and "\<And>service rs sc d s e'. item service rs sc d s = Some (Inl e') \<Longrightarrow> P e'"
    and "\<And>m. P (invalid m)"
  shows "P e"
proof -
  from assms(1) obtain rs s where "walk_resource noun item rs s = Some (Inl e)"
    unfolding walk_def by (auto dest: each_error)
  then consider (invalid) m where "e = invalid m"
    | (scope) service sc s where "walk_scope noun item service rs sc s = Some (Inl e)"
    unfolding walk_resource_def by (auto dest: each_error split: option.splits)
  then show ?thesis
  proof cases
    case scope
    then consider (invalid) m where "e = invalid m" | (item) d s where "item service rs sc d s = Some (Inl e)"
      unfolding walk_scope_def by (auto dest: each_error split: option.splits)
    then show ?thesis by cases (use assms(2,3) in blast)+
  qed (use assms(3) in blast)
qed

section \<open>Redacted requests\<close>

text \<open>
  The request with everything under sensitive keys replaced; \<open>h\<close> redacts one item. And the
  requests that validation accepts.
\<close>

definition redact_scoped :: "(string \<Rightarrow> string) \<Rightarrow> ('d \<Rightarrow> 'd) \<Rightarrow> 'd Scoped \<Rightarrow> 'd Scoped" where
  "redact_scoped ul h sc =
     sc\<lparr>sd_scope := redact_scope ul (sd_scope sc), sd_items := map h (sd_items sc)\<rparr>"

definition redact_resourced :: "(string \<Rightarrow> string) \<Rightarrow> ('d \<Rightarrow> 'd) \<Rightarrow> 'd Resourced \<Rightarrow> 'd Resourced" where
  "redact_resourced ul h rs =
     rs\<lparr>rd_resource := redact_resource ul (rd_resource rs),
        rd_scopes := map (redact_scoped ul h) (rd_scopes rs)\<rparr>"

definition redact_request :: "(string \<Rightarrow> string) \<Rightarrow> ('d \<Rightarrow> 'd) \<Rightarrow> 'd Resourced list \<Rightarrow> 'd Resourced list"
  where "redact_request ul h data = map (redact_resourced ul h) data"

definition valid_request :: "('d \<Rightarrow> bool) \<Rightarrow> 'd Resourced list \<Rightarrow> bool" where
  "valid_request ok data \<longleftrightarrow>
     list_all (\<lambda>rs. validateMap (r_attributes (rd_resource rs)) = None \<and>
       list_all (\<lambda>sc. validateMap (scope_attributes (sd_scope sc)) = None \<and> list_all ok (sd_items sc))
         (rd_scopes rs)) data"

lemma redactMap_twice: "redactMap ul (redactMap ul m) = redactMap ul m"
  by (metis Value.inject(7) clean_redactValue redactMap_VMap redactValue_clean)

lemma redactValue_twice: "redactValue ul (redactValue ul v) = redactValue ul v"
  by (rule clean_redactValue, rule redactValue_clean)

lemma map_of_redactMap:
  "\<not> isSensitiveKey ul k \<Longrightarrow> map_of (redactMap ul m) k = map_option (redactValue ul) (map_of m k)"
  by (induction m) (auto simp: redactMap_def)

lemma redactValue_is_VStr: "redactValue ul v = VStr s \<longleftrightarrow> v = VStr s"
  by (cases v) auto

lemma attributeString_redactMap:
  "\<not> isSensitiveKey ul k \<Longrightarrow> attributeString (redactMap ul m) k = attributeString m k"
  by (cases "map_of m k") (auto simp: attributeString_def map_of_redactMap split: Value.splits)

text \<open>The keys the exporters read are not sensitive.\<close>

lemma read_keys_public:
  "\<not> isSensitiveKey ul ''service.name''" "\<not> isSensitiveKey ul ''request.id''"
  "\<not> isSensitiveKey ul ''autok.product.id''" "\<not> isSensitiveKey ul ''app.component''"
  "\<not> isSensitiveKey ul ''event.name''"
  by code_simp+

lemmas attributeString_public = read_keys_public [THEN attributeString_redactMap]

lemma service_name_redactMap: "service_name (redactMap ul m) = service_name m"
  by (simp add: service_name_def attributeString_public)

lemma validateValue_redactValue: "validateValue v 0 = None \<Longrightarrow> validateValue (redactValue ul v) 0 = None"
  using nesting_redactValue [of ul v] by (simp add: validate_spec sized_redactValue)

lemma single_request_redacted:
  "single_request ul (redact_resourced ul h rs) (redact_scoped ul h sc) d = single_request ul rs sc d"
  by (simp add: single_request_def redact_resourced_def redact_scoped_def redact_resource_def
      redact_scope_def redactMap_twice)

lemma item_count_redact: "item_count (redact_request ul h data) = item_count data"
  by (simp add: item_count_def redact_request_def redact_resourced_def redact_scoped_def comp_def)

text \<open>
  An item that looks at its resource and scope only through what is public sees the same in
  the redacted request.
\<close>

lemma walk_redacted:
  assumes "valid_request ok data"
    and item: "\<And>service rs sc d st. ok d \<Longrightarrow>
      item service rs sc d st = item service (redact_resourced ul h rs) (redact_scoped ul h sc) (h d) st"
  shows "walk noun item data = walk noun item (redact_request ul h data)"
proof -
  have scope: "walk_scope noun item service rs sc st =
      walk_scope noun item service (redact_resourced ul h rs) (redact_scoped ul h sc) st"
    if "validateMap (scope_attributes (sd_scope sc)) = None" "list_all ok (sd_items sc)" for service rs sc st
  proof -
    have "each (item service rs sc) (sd_items sc) st =
        each (item service (redact_resourced ul h rs) (redact_scoped ul h sc)) (map h (sd_items sc)) st"
      using that(2) item by (intro each_cong) (auto simp: list_all_iff)
    with that(1) show ?thesis
      by (simp add: walk_scope_def redact_scoped_def redact_scope_def validateMap_redactMap)
  qed
  have resource: "walk_resource noun item rs st = walk_resource noun item (redact_resourced ul h rs) st"
    if "rs \<in> set data" for rs st
  proof -
    from that assms(1) have ok: "validateMap (r_attributes (rd_resource rs)) = None"
      "\<forall>sc\<in>set (rd_scopes rs). validateMap (scope_attributes (sd_scope sc)) = None \<and> list_all ok (sd_items sc)"
      by (auto simp: valid_request_def list_all_iff)
    have "each (walk_scope noun item service rs) (rd_scopes rs) st =
        each (walk_scope noun item service (redact_resourced ul h rs)) (map (redact_scoped ul h) (rd_scopes rs)) st"
      for service
      using ok(2) by (intro each_cong scope) auto
    with ok(1) show ?thesis
      by (simp add: walk_resource_def redact_resourced_def redact_resource_def validateMap_redactMap
          service_name_redactMap)
  qed
  show ?thesis unfolding walk_def redact_request_def by (rule each_cong, rule resource)
qed

end
