(* ===== verification/ExportLogs.thy ===== *)
theory ExportLogs
  imports Otlp
begin

text \<open>
  The logs and traces exporters (\<open>ConsumeLogs\<close>, \<open>ConsumeTraces\<close>,
  \<open>marshalSingleLog\<close>, \<open>marshalSingleSpan\<close> in
  \<^verbatim>\<open>internal/exporter/exporter.go\<close>). pdata's JSON marshalers are the arguments
  \<open>mlogs\<close> and \<open>mspans\<close>.
\<close>

section \<open>Logs\<close>

text \<open>\<open>plog.LogRecord\<close>; identifiers are their bytes.\<close>

record LogData =
  ld_Timestamp :: u64
  ld_Observed :: u64
  ld_SeverityNumber :: int
  ld_SeverityText :: string
  ld_Body :: Value
  ld_Attributes :: attrs
  ld_Dropped :: nat
  ld_Flags :: nat
  ld_TraceID :: string
  ld_SpanID :: string
  ld_EventName :: string

definition redact_log :: "(string \<Rightarrow> string) \<Rightarrow> LogData \<Rightarrow> LogData" where
  "redact_log ul d =
     d\<lparr>ld_Attributes := redactMap ul (ld_Attributes d), ld_Body := redactValue ul (ld_Body d)\<rparr>"

definition marshalSingleLog ::
    "export_env \<Rightarrow> (LogData Resourced list \<Rightarrow> string result) \<Rightarrow> LogData Resourced \<Rightarrow> LogData Scoped
      \<Rightarrow> LogData \<Rightarrow> string result option" where
  "marshalSingleLog env mlogs rs sc d =
     canonicalPayload (ee_decode env)
       (mlogs (single_request (ee_lower env) rs sc (redact_log (ee_lower env) d)))"

definition log_body :: "export_env \<Rightarrow> LogData \<Rightarrow> string" where
  "log_body env d = marshal (taggedValue (ee_fmt env) (redactValue (ee_lower env) (ld_Body d)))"

definition log_record :: "export_env \<Rightarrow> string \<Rightarrow> LogData \<Rightarrow> string \<Rightarrow> string \<Rightarrow> LogRecord" where
  "log_record env service d payload body =
     \<lparr>l_Fingerprint = ee_sha env payload, l_ReceivedAt = ee_now env, l_Time = sint (ld_Timestamp d),
      l_ServiceName = service, l_SeverityNumber = ld_SeverityNumber d,
      l_SeverityText = ld_SeverityText d, l_TraceID = nonZeroTraceID (ld_TraceID d),
      l_SpanID = nonZeroSpanID (ld_SpanID d),
      l_RequestID = attributeString (ld_Attributes d) ''request.id'',
      l_ProductID = attributeString (ld_Attributes d) ''autok.product.id'',
      l_Component = attributeString (ld_Attributes d) ''app.component'',
      l_Op = first [attributeString (ld_Attributes d) ''event.name'', ld_EventName d],
      l_BodyJSON = body, l_PayloadJSON = payload\<rparr>"

definition log_too_large :: go_error where
  "log_too_large = invalid ''persisted log payload exceeds 64 MiB''"

text \<open>
  The body of the innermost loop. \<open>json.Marshal\<close> has no error on a tagged value, since
  NaN and the infinities are tagged as strings.
\<close>

definition log_item ::
    "export_env \<Rightarrow> (LogData Resourced list \<Rightarrow> string result) \<Rightarrow> (LogData, LogRecord) export_item" where
  "log_item env mlogs service rs sc d st =
     (case ee_ctx env (x_checked st) of
        Some e \<Rightarrow> Some (Inl (exportError e))
      | None \<Rightarrow>
     if max_timestamp < uint (ld_Timestamp d)
     then Some (Inl (invalid ''log timestamp exceeds SQLite integer range''))
     else (case validateValue (ld_Body d) 0 of
        Some e \<Rightarrow> Some (Inl (invalid (''invalid log body: '' @ err_text e)))
      | None \<Rightarrow>
     (case validateMap (ld_Attributes d) of
        Some e \<Rightarrow> Some (Inl (invalid (''invalid log attributes: '' @ err_text e)))
      | None \<Rightarrow>
     (case marshalSingleLog env mlogs rs sc d of
        None \<Rightarrow> None
      | Some (Inl e) \<Rightarrow> Some (Inl (invalid (err_text e)))
      | Some (Inr payload) \<Rightarrow>
          (let bytes = x_bytes st + length payload; body = log_body env d in
           if maxPersistedRequestBytes < bytes then Some (Inl log_too_large)
           else if maxPersistedRequestBytes < bytes + length body then Some (Inl log_too_large)
           else Some (Inr (st\<lparr>x_checked := Suc (x_checked st), x_bytes := bytes + length body,
                  x_records := x_records st @ [log_record env service d payload body]\<rparr>)))))))"

text \<open>The answer (an error, or none for success) and the store afterwards.\<close>

definition ConsumeLogs ::
    "export_env \<Rightarrow> (LogData Resourced list \<Rightarrow> string result) \<Rightarrow> (string \<Rightarrow> bool) \<Rightarrow> write_env
      \<Rightarrow> LogData Resourced list \<Rightarrow> Store \<Rightarrow> (go_error option \<times> Store) option" where
  "ConsumeLogs env mlogs jv wenv data s =
     (if 10000 < item_count data then Some (Some (invalid ''log request exceeds 10000 records''), s)
      else (case walk ''log'' (log_item env mlogs) data of
              None \<Rightarrow> None
            | Some (Inl e) \<Rightarrow> Some (Some e, s)
            | Some (Inr st) \<Rightarrow>
                (case InsertLogs jv wenv (x_records st) s of
                   (Inl e, s') \<Rightarrow> Some (Some (exportError e), s')
                 | (Inr _, s') \<Rightarrow> Some (None, s'))))"

section \<open>Spans\<close>

record SpanEvent =
  ev_Timestamp :: u64
  ev_Name :: string
  ev_Attributes :: attrs
  ev_Dropped :: nat

record SpanLink =
  lk_TraceID :: string
  lk_SpanID :: string
  lk_TraceState :: string
  lk_Attributes :: attrs
  lk_Flags :: nat
  lk_Dropped :: nat

record SpanData =
  sp_TraceID :: string
  sp_SpanID :: string
  sp_ParentSpanID :: string
  sp_TraceState :: string
  sp_Flags :: nat
  sp_Name :: string
  sp_Kind :: int
  sp_Start :: u64
  sp_End :: u64
  sp_Attributes :: attrs
  sp_Events :: "SpanEvent list"
  sp_Links :: "SpanLink list"
  sp_StatusCode :: int
  sp_StatusMessage :: string
  sp_Dropped :: "nat \<times> nat \<times> nat"

definition redact_event :: "(string \<Rightarrow> string) \<Rightarrow> SpanEvent \<Rightarrow> SpanEvent" where
  "redact_event ul e = e\<lparr>ev_Attributes := redactMap ul (ev_Attributes e)\<rparr>"

definition redact_link :: "(string \<Rightarrow> string) \<Rightarrow> SpanLink \<Rightarrow> SpanLink" where
  "redact_link ul l = l\<lparr>lk_Attributes := redactMap ul (lk_Attributes l)\<rparr>"

definition redact_span :: "(string \<Rightarrow> string) \<Rightarrow> SpanData \<Rightarrow> SpanData" where
  "redact_span ul d =
     d\<lparr>sp_Attributes := redactMap ul (sp_Attributes d), sp_Events := map (redact_event ul) (sp_Events d),
       sp_Links := map (redact_link ul) (sp_Links d)\<rparr>"

definition marshalSingleSpan ::
    "export_env \<Rightarrow> (SpanData Resourced list \<Rightarrow> string result) \<Rightarrow> SpanData Resourced \<Rightarrow> SpanData Scoped
      \<Rightarrow> SpanData \<Rightarrow> string result option" where
  "marshalSingleSpan env mspans rs sc d =
     canonicalPayload (ee_decode env)
       (mspans (single_request (ee_lower env) rs sc (redact_span (ee_lower env) d)))"

definition span_record :: "export_env \<Rightarrow> string \<Rightarrow> SpanData \<Rightarrow> string \<Rightarrow> SpanRecord" where
  "span_record env service d payload =
     \<lparr>s_Fingerprint = ee_sha env payload, s_ReceivedAt = ee_now env, s_TraceID = sp_TraceID d,
      s_SpanID = sp_SpanID d, s_ParentSpanID = nonZeroSpanID (sp_ParentSpanID d),
      s_ServiceName = service, s_Name = sp_Name d, s_StartTime = sint (sp_Start d),
      s_EndTime = sint (sp_End d), s_RequestID = attributeString (sp_Attributes d) ''request.id'',
      s_ProductID = attributeString (sp_Attributes d) ''autok.product.id'', s_PayloadJSON = payload\<rparr>"

text \<open>The loops over events and links: the first refusal.\<close>

fun first_refusal :: "attrs list \<Rightarrow> go_error option" where
  "first_refusal [] = None"
| "first_refusal (m # ms) = (case validateMap m of Some e \<Rightarrow> Some e | None \<Rightarrow> first_refusal ms)"

definition span_item ::
    "export_env \<Rightarrow> (SpanData Resourced list \<Rightarrow> string result) \<Rightarrow> (SpanData, SpanRecord) export_item" where
  "span_item env mspans service rs sc d st =
     (case ee_ctx env (x_checked st) of
        Some e \<Rightarrow> Some (Inl (exportError e))
      | None \<Rightarrow>
     if max_timestamp < uint (sp_Start d) \<or> max_timestamp < uint (sp_End d)
     then Some (Inl (invalid ''span timestamp exceeds SQLite integer range''))
     else if id_empty (sp_TraceID d) \<or> id_empty (sp_SpanID d)
     then Some (Inl (invalid ''span trace_id and span_id are required''))
     else (case validateMap (sp_Attributes d) of
        Some e \<Rightarrow> Some (Inl (invalid (''invalid span attributes: '' @ err_text e)))
      | None \<Rightarrow>
     (case first_refusal (map ev_Attributes (sp_Events d)) of
        Some e \<Rightarrow> Some (Inl (invalid (''invalid span event attributes: '' @ err_text e)))
      | None \<Rightarrow>
     (case first_refusal (map lk_Attributes (sp_Links d)) of
        Some e \<Rightarrow> Some (Inl (invalid (''invalid span link attributes: '' @ err_text e)))
      | None \<Rightarrow>
     (case marshalSingleSpan env mspans rs sc d of
        None \<Rightarrow> None
      | Some (Inl e) \<Rightarrow> Some (Inl (invalid (err_text e)))
      | Some (Inr payload) \<Rightarrow>
          (let bytes = x_bytes st + length payload in
           if maxPersistedRequestBytes < bytes
           then Some (Inl (invalid ''persisted span payload exceeds 64 MiB''))
           else Some (Inr (st\<lparr>x_checked := Suc (x_checked st), x_bytes := bytes,
                  x_records := x_records st @ [span_record env service d payload]\<rparr>))))))))"

definition ConsumeTraces ::
    "export_env \<Rightarrow> (SpanData Resourced list \<Rightarrow> string result) \<Rightarrow> (string \<Rightarrow> bool) \<Rightarrow> write_env
      \<Rightarrow> SpanData Resourced list \<Rightarrow> Store \<Rightarrow> (go_error option \<times> Store) option" where
  "ConsumeTraces env mspans jv wenv data s =
     (if 5000 < item_count data then Some (Some (invalid ''trace request exceeds 5000 spans''), s)
      else (case walk ''span'' (span_item env mspans) data of
              None \<Rightarrow> None
            | Some (Inl e) \<Rightarrow> Some (Some e, s)
            | Some (Inr st) \<Rightarrow>
                (case InsertSpans jv wenv (x_records st) s of
                   (Inl e, s') \<Rightarrow>
                     Some (Some (if errors_is e SpanConflict then invalid (err_text e) else exportError e), s')
                 | (Inr _, s') \<Rightarrow> Some (None, s'))))"

end
