(* ===== verification/ExportMetrics.thy ===== *)
theory ExportMetrics
  imports Otlp
begin

text \<open>
  The metrics exporter (\<^verbatim>\<open>internal/exporter/metrics.go\<close>): the OTLP metric types, validation,
  projection to the query columns, the copy and redaction of one point and
  \<open>ConsumeMetrics\<close>. pdata's JSON marshaler is the argument \<open>mmetrics\<close>.
\<close>

section \<open>Metrics\<close>

datatype Number = NoNumber | IntNumber int | DoubleNumber float64

record Exemplar =
  ex_Filtered :: attrs
  ex_Time :: u64
  ex_Number :: Number
  ex_TraceID :: string
  ex_SpanID :: string

record NumberPoint =
  np_Attributes :: attrs
  np_Start :: u64
  np_Time :: u64
  np_Number :: Number
  np_Exemplars :: "Exemplar list"
  np_Flags :: nat

record HistogramPoint =
  hp_Attributes :: attrs
  hp_Start :: u64
  hp_Time :: u64
  hp_Count :: u64
  hp_Sum :: "float64 option"
  hp_Min :: "float64 option"
  hp_Max :: "float64 option"
  hp_Buckets :: "u64 list"
  hp_Bounds :: "float64 list"
  hp_Exemplars :: "Exemplar list"
  hp_Flags :: nat

record ExpHistogramPoint =
  ep_Attributes :: attrs
  ep_Start :: u64
  ep_Time :: u64
  ep_Count :: u64
  ep_Sum :: "float64 option"
  ep_Min :: "float64 option"
  ep_Max :: "float64 option"
  ep_Scale :: int
  ep_ZeroCount :: u64
  ep_ZeroThreshold :: float64
  ep_Positive :: "int \<times> u64 list"
  ep_Negative :: "int \<times> u64 list"
  ep_Exemplars :: "Exemplar list"
  ep_Flags :: nat

record SummaryPoint =
  su_Attributes :: attrs
  su_Start :: u64
  su_Time :: u64
  su_Count :: u64
  su_Sum :: float64
  su_Quantiles :: "(float64 \<times> float64) list"
  su_Flags :: nat

text \<open>The data of a metric; sums and histograms have a temporality, sums are monotonic or not.\<close>

datatype MetricData =
    EmptyData
  | Gauge "NumberPoint list"
  | MetricSum int bool "NumberPoint list"
  | Histogram int "HistogramPoint list"
  | ExponentialHistogram int "ExpHistogramPoint list"
  | Summary "SummaryPoint list"

record Metric =
  mt_Name :: string
  mt_Description :: string
  mt_Unit :: string
  mt_Metadata :: attrs
  mt_Data :: MetricData

fun metricDataPointCount :: "MetricData \<Rightarrow> nat" where
  "metricDataPointCount (Gauge ps) = length ps"
| "metricDataPointCount (MetricSum t m ps) = length ps"
| "metricDataPointCount (Histogram t ps) = length ps"
| "metricDataPointCount (ExponentialHistogram t ps) = length ps"
| "metricDataPointCount (Summary ps) = length ps"
| "metricDataPointCount EmptyData = 0"

section \<open>Validation\<close>

text \<open>The attributes and the exemplars of a point; summaries have no exemplars.\<close>

fun point_maps :: "MetricData \<Rightarrow> nat \<Rightarrow> (attrs \<times> Exemplar list) option" where
  "point_maps (Gauge ps) i = Some (np_Attributes (ps ! i), np_Exemplars (ps ! i))"
| "point_maps (MetricSum t m ps) i = Some (np_Attributes (ps ! i), np_Exemplars (ps ! i))"
| "point_maps (Histogram t ps) i = Some (hp_Attributes (ps ! i), hp_Exemplars (ps ! i))"
| "point_maps (ExponentialHistogram t ps) i = Some (ep_Attributes (ps ! i), ep_Exemplars (ps ! i))"
| "point_maps (Summary ps) i = Some (su_Attributes (ps ! i), [])"
| "point_maps EmptyData i = None"

fun first_exemplar_refusal :: "Exemplar list \<Rightarrow> go_error option" where
  "first_exemplar_refusal [] = None"
| "first_exemplar_refusal (x # xs) =
     (case validateMap (ex_Filtered x) of Some e \<Rightarrow> Some e | None \<Rightarrow> first_exemplar_refusal xs)"

definition type_required :: go_error where
  "type_required = Msg ''metric data type is required''"

definition validateMetricPoint :: "MetricData \<Rightarrow> nat \<Rightarrow> go_error option" where
  "validateMetricPoint d i =
     (case point_maps d i of
        None \<Rightarrow> Some type_required
      | Some (m, xs) \<Rightarrow>
          (case validateMap m of
             Some e \<Rightarrow> Some (WrapErr ''invalid metric point attributes: '' e [])
           | None \<Rightarrow>
               (case first_exemplar_refusal xs of
                  Some e \<Rightarrow> Some (WrapErr ''invalid metric exemplar attributes: '' e [])
                | None \<Rightarrow> None)))"

section \<open>Projection\<close>

definition finiteFloat :: "float64 \<Rightarrow> float64 option" where
  "finiteFloat x = (if is_NaN x \<or> is_Inf x then None else Some x)"

definition empty_point :: MetricPointRecord where
  "empty_point =
     \<lparr>m_Fingerprint = [], m_ReceivedAt = 0, m_ServiceName = [], m_MetricName = [], m_MetricType = [],
      m_StartTime = 0, m_Time = 0, m_NumberKind = [], m_NumberInt = None, m_NumberDouble = None,
      m_AggregateCount = [], m_AggregateSum = None, m_AggregateMin = None, m_AggregateMax = None,
      m_PayloadJSON = []\<rparr>"

definition projectNumberPoint :: "NumberPoint \<Rightarrow> MetricPointRecord \<Rightarrow> MetricPointRecord" where
  "projectNumberPoint p r =
     (let r = r\<lparr>m_StartTime := sint (np_Start p), m_Time := sint (np_Time p)\<rparr> in
      case np_Number p of
        NoNumber \<Rightarrow> r
      | IntNumber n \<Rightarrow> r\<lparr>m_NumberKind := ''int'', m_NumberInt := Some n\<rparr>
      | DoubleNumber x \<Rightarrow> r\<lparr>m_NumberKind := ''double'', m_NumberDouble := finiteFloat x\<rparr>)"

definition if_present :: "float64 option \<Rightarrow> float64 option" where
  "if_present x = (case x of None \<Rightarrow> None | Some y \<Rightarrow> finiteFloat y)"

fun projectMetricPoint :: "MetricData \<Rightarrow> nat \<Rightarrow> MetricPointRecord" where
  "projectMetricPoint (Gauge ps) i =
     projectNumberPoint (ps ! i) (empty_point\<lparr>m_MetricType := ''gauge''\<rparr>)"
| "projectMetricPoint (MetricSum t m ps) i =
     projectNumberPoint (ps ! i) (empty_point\<lparr>m_MetricType := ''sum''\<rparr>)"
| "projectMetricPoint (Histogram t ps) i =
     (let p = ps ! i in
      empty_point\<lparr>m_MetricType := ''histogram'', m_StartTime := sint (hp_Start p),
        m_Time := sint (hp_Time p), m_AggregateCount := show_nat (unat (hp_Count p)),
        m_AggregateSum := if_present (hp_Sum p), m_AggregateMin := if_present (hp_Min p),
        m_AggregateMax := if_present (hp_Max p)\<rparr>)"
| "projectMetricPoint (ExponentialHistogram t ps) i =
     (let p = ps ! i in
      empty_point\<lparr>m_MetricType := ''exponential_histogram'', m_StartTime := sint (ep_Start p),
        m_Time := sint (ep_Time p), m_AggregateCount := show_nat (unat (ep_Count p)),
        m_AggregateSum := if_present (ep_Sum p), m_AggregateMin := if_present (ep_Min p),
        m_AggregateMax := if_present (ep_Max p)\<rparr>)"
| "projectMetricPoint (Summary ps) i =
     (let p = ps ! i in
      empty_point\<lparr>m_MetricType := ''summary'', m_StartTime := sint (su_Start p),
        m_Time := sint (su_Time p), m_AggregateCount := show_nat (unat (su_Count p)),
        m_AggregateSum := finiteFloat (su_Sum p)\<rparr>)"
| "projectMetricPoint EmptyData i = empty_point"

section \<open>One point with its metric\<close>

text \<open>The metric with one of its points, or nothing for a metric without data.\<close>

fun only_point :: "MetricData \<Rightarrow> nat \<Rightarrow> MetricData option" where
  "only_point (Gauge ps) i = Some (Gauge [ps ! i])"
| "only_point (MetricSum t m ps) i = Some (MetricSum t m [ps ! i])"
| "only_point (Histogram t ps) i = Some (Histogram t [ps ! i])"
| "only_point (ExponentialHistogram t ps) i = Some (ExponentialHistogram t [ps ! i])"
| "only_point (Summary ps) i = Some (Summary [ps ! i])"
| "only_point EmptyData i = None"

definition redact_exemplar :: "(string \<Rightarrow> string) \<Rightarrow> Exemplar \<Rightarrow> Exemplar" where
  "redact_exemplar ul x = x\<lparr>ex_Filtered := redactMap ul (ex_Filtered x)\<rparr>"

definition redact_number :: "(string \<Rightarrow> string) \<Rightarrow> NumberPoint \<Rightarrow> NumberPoint" where
  "redact_number ul p =
     p\<lparr>np_Attributes := redactMap ul (np_Attributes p),
       np_Exemplars := map (redact_exemplar ul) (np_Exemplars p)\<rparr>"

definition redact_histogram :: "(string \<Rightarrow> string) \<Rightarrow> HistogramPoint \<Rightarrow> HistogramPoint" where
  "redact_histogram ul p =
     p\<lparr>hp_Attributes := redactMap ul (hp_Attributes p),
       hp_Exemplars := map (redact_exemplar ul) (hp_Exemplars p)\<rparr>"

definition redact_exp_histogram :: "(string \<Rightarrow> string) \<Rightarrow> ExpHistogramPoint \<Rightarrow> ExpHistogramPoint" where
  "redact_exp_histogram ul p =
     p\<lparr>ep_Attributes := redactMap ul (ep_Attributes p),
       ep_Exemplars := map (redact_exemplar ul) (ep_Exemplars p)\<rparr>"

definition redact_summary :: "(string \<Rightarrow> string) \<Rightarrow> SummaryPoint \<Rightarrow> SummaryPoint" where
  "redact_summary ul p = p\<lparr>su_Attributes := redactMap ul (su_Attributes p)\<rparr>"

text \<open>\<open>redactMetricPoint\<close> redacts the point at index 0.\<close>

fun redactMetricPoint :: "(string \<Rightarrow> string) \<Rightarrow> MetricData \<Rightarrow> MetricData" where
  "redactMetricPoint ul (Gauge (p # ps)) = Gauge (redact_number ul p # ps)"
| "redactMetricPoint ul (MetricSum t m (p # ps)) = MetricSum t m (redact_number ul p # ps)"
| "redactMetricPoint ul (Histogram t (p # ps)) = Histogram t (redact_histogram ul p # ps)"
| "redactMetricPoint ul (ExponentialHistogram t (p # ps)) =
     ExponentialHistogram t (redact_exp_histogram ul p # ps)"
| "redactMetricPoint ul (Summary (p # ps)) = Summary (redact_summary ul p # ps)"
| "redactMetricPoint ul d = d"

definition marshalSingleMetricPoint ::
    "export_env \<Rightarrow> (Metric Resourced list \<Rightarrow> string result) \<Rightarrow> Metric Resourced \<Rightarrow> Metric Scoped
      \<Rightarrow> Metric \<Rightarrow> nat \<Rightarrow> string result option" where
  "marshalSingleMetricPoint env mmetrics rs sc m i =
     (case only_point (mt_Data m) i of
        None \<Rightarrow> Some (Inl type_required)
      | Some d \<Rightarrow>
          canonicalPayload (ee_decode env)
            (mmetrics (single_request (ee_lower env) rs sc
               (m\<lparr>mt_Metadata := redactMap (ee_lower env) (mt_Metadata m),
                  mt_Data := redactMetricPoint (ee_lower env) d\<rparr>))))"

section \<open>The exporter\<close>

definition point_record :: "export_env \<Rightarrow> string \<Rightarrow> Metric \<Rightarrow> nat \<Rightarrow> string \<Rightarrow> MetricPointRecord" where
  "point_record env service m i payload =
     (projectMetricPoint (mt_Data m) i)
       \<lparr>m_Fingerprint := ee_sha env payload, m_ReceivedAt := ee_now env, m_ServiceName := service,
        m_MetricName := mt_Name m, m_PayloadJSON := payload\<rparr>"

definition point_item ::
    "export_env \<Rightarrow> (Metric Resourced list \<Rightarrow> string result) \<Rightarrow> string \<Rightarrow> Metric Resourced \<Rightarrow> Metric Scoped
      \<Rightarrow> Metric \<Rightarrow> nat \<Rightarrow> MetricPointRecord export_state \<Rightarrow> MetricPointRecord export_state result option"
    where
  "point_item env mmetrics service rs sc m i st =
     (case ee_ctx env (x_checked st) of
        Some e \<Rightarrow> Some (Inl (exportError e))
      | None \<Rightarrow>
     (case validateMetricPoint (mt_Data m) i of
        Some e \<Rightarrow> Some (Inl (invalid (err_text e)))
      | None \<Rightarrow>
     (case marshalSingleMetricPoint env mmetrics rs sc m i of
        None \<Rightarrow> None
      | Some (Inl e) \<Rightarrow> Some (Inl (invalid (err_text e)))
      | Some (Inr payload) \<Rightarrow>
          (let bytes = x_bytes st + length payload; r = projectMetricPoint (mt_Data m) i in
           if maxPersistedRequestBytes < bytes
           then Some (Inl (invalid ''persisted metric payload exceeds 64 MiB''))
           else if m_StartTime r < 0 \<or> m_Time r < 0
           then Some (Inl (invalid ''metric timestamp exceeds SQLite integer range''))
           else Some (Inr (st\<lparr>x_checked := Suc (x_checked st), x_bytes := bytes,
                  x_records := x_records st @ [point_record env service m i payload]\<rparr>))))))"

definition metric_item ::
    "export_env \<Rightarrow> (Metric Resourced list \<Rightarrow> string result) \<Rightarrow> (Metric, MetricPointRecord) export_item" where
  "metric_item env mmetrics service rs sc m st =
     (if mt_Data m = EmptyData then Some (Inl (invalid ''metric data type is required''))
      else (case validateMap (mt_Metadata m) of
              Some e \<Rightarrow> Some (Inl (invalid (''invalid metric metadata: '' @ err_text e)))
            | None \<Rightarrow>
                each (point_item env mmetrics service rs sc m)
                  [0..<metricDataPointCount (mt_Data m)] st))"

definition point_count :: "Metric Resourced list \<Rightarrow> nat" where
  "point_count data =
     sum_list (map (\<lambda>rs. sum_list (map (\<lambda>sc.
       sum_list (map (\<lambda>m. metricDataPointCount (mt_Data m)) (sd_items sc))) (rd_scopes rs))) data)"

definition ConsumeMetrics ::
    "export_env \<Rightarrow> (Metric Resourced list \<Rightarrow> string result) \<Rightarrow> (string \<Rightarrow> bool) \<Rightarrow> (string \<Rightarrow> bool)
      \<Rightarrow> write_env \<Rightarrow> Metric Resourced list \<Rightarrow> Store \<Rightarrow> (go_error option \<times> Store) option" where
  "ConsumeMetrics env mmetrics gv jv wenv data s =
     (if 10000 < item_count data
      then Some (Some (invalid ''metric request exceeds 10000 descriptors''), s)
      else if 10000 < point_count data
      then Some (Some (invalid ''metric request exceeds 10000 points''), s)
      else (case walk ''metric'' (metric_item env mmetrics) data of
              None \<Rightarrow> None
            | Some (Inl e) \<Rightarrow> Some (Some e, s)
            | Some (Inr st) \<Rightarrow>
                (case InsertMetricPoints gv jv wenv (x_records st) s of
                   (Inl e, s') \<Rightarrow> Some (Some (exportError e), s')
                 | (Inr _, s') \<Rightarrow> Some (None, s'))))"

end
