(* ===== verification/ExportProps.thy ===== *)
theory ExportProps
  imports ExportLogs ExportMetrics
begin

text \<open>
  What the exporters promise: nothing under a sensitive key influences the answer or the
  store; every error is a gRPC status that leaves the telemetry alone; and refusals of the
  request are told apart from failures of the store.
\<close>

section \<open>Only the redacted request matters\<close>

text \<open>The validation of one item.\<close>

definition valid_log :: "LogData \<Rightarrow> bool" where
  "valid_log d \<longleftrightarrow> validateValue (ld_Body d) 0 = None \<and> validateMap (ld_Attributes d) = None"

definition valid_span :: "SpanData \<Rightarrow> bool" where
  "valid_span d \<longleftrightarrow> validateMap (sp_Attributes d) = None \<and>
     list_all (\<lambda>e. validateMap (ev_Attributes e) = None) (sp_Events d) \<and>
     list_all (\<lambda>l. validateMap (lk_Attributes l) = None) (sp_Links d)"

definition valid_metric :: "Metric \<Rightarrow> bool" where
  "valid_metric m \<longleftrightarrow> validateMap (mt_Metadata m) = None \<and>
     (\<forall>i<metricDataPointCount (mt_Data m). validateMetricPoint (mt_Data m) i = None)"

text \<open>Redaction of a whole metric.\<close>

fun redact_data :: "(string \<Rightarrow> string) \<Rightarrow> MetricData \<Rightarrow> MetricData" where
  "redact_data ul (Gauge ps) = Gauge (map (redact_number ul) ps)"
| "redact_data ul (MetricSum t m ps) = MetricSum t m (map (redact_number ul) ps)"
| "redact_data ul (Histogram t ps) = Histogram t (map (redact_histogram ul) ps)"
| "redact_data ul (ExponentialHistogram t ps) = ExponentialHistogram t (map (redact_exp_histogram ul) ps)"
| "redact_data ul (Summary ps) = Summary (map (redact_summary ul) ps)"
| "redact_data ul EmptyData = EmptyData"

definition redact_metric :: "(string \<Rightarrow> string) \<Rightarrow> Metric \<Rightarrow> Metric" where
  "redact_metric ul m =
     m\<lparr>mt_Metadata := redactMap ul (mt_Metadata m), mt_Data := redact_data ul (mt_Data m)\<rparr>"

lemma log_item_redacted:
  assumes "valid_log d"
  shows "log_item env mlogs service rs sc d st =
    log_item env mlogs service (redact_resourced (ee_lower env) h rs) (redact_scoped (ee_lower env) h sc)
      (redact_log (ee_lower env) d) st"
proof -
  let ?d = "redact_log (ee_lower env) d"
  have "marshalSingleLog env mlogs (redact_resourced (ee_lower env) h rs) (redact_scoped (ee_lower env) h sc) ?d =
      marshalSingleLog env mlogs rs sc d"
    by (simp add: marshalSingleLog_def single_request_redacted redact_log_def redactMap_twice redactValue_twice)
  moreover have "log_body env ?d = log_body env d"
    by (simp add: log_body_def redact_log_def redactValue_twice)
  moreover have "log_record env service ?d p b = log_record env service d p b" for p b
    by (simp add: log_record_def redact_log_def attributeString_public)
  moreover have "validateValue (ld_Body ?d) 0 = None" "validateMap (ld_Attributes ?d) = None"
    using assms by (simp_all add: valid_log_def redact_log_def validateValue_redactValue validateMap_redactMap)
  moreover have "ld_Timestamp ?d = ld_Timestamp d" by (simp add: redact_log_def)
  ultimately show ?thesis using assms by (cases "ee_ctx env (x_checked st)") (simp_all add: log_item_def valid_log_def Let_def cong: option.case_cong sum.case_cong if_cong)
qed

lemma first_refusal_None: "first_refusal ms = None \<longleftrightarrow> list_all (\<lambda>m. validateMap m = None) ms"
  by (induction ms) (auto split: option.split)

lemma redact_span_twice: "redact_span ul (redact_span ul d) = redact_span ul d"
  by (simp add: redact_span_def redact_event_def redact_link_def redactMap_twice comp_def)

lemma span_item_redacted:
  assumes "valid_span d"
  shows "span_item env mspans service rs sc d st =
    span_item env mspans service (redact_resourced (ee_lower env) h rs) (redact_scoped (ee_lower env) h sc)
      (redact_span (ee_lower env) d) st"
proof -
  let ?d = "redact_span (ee_lower env) d"
  have "marshalSingleSpan env mspans (redact_resourced (ee_lower env) h rs) (redact_scoped (ee_lower env) h sc) ?d =
      marshalSingleSpan env mspans rs sc d"
    by (simp add: marshalSingleSpan_def single_request_redacted redact_span_twice)
  moreover have "span_record env service ?d p = span_record env service d p" for p
    by (simp add: span_record_def redact_span_def attributeString_public)
  moreover have "first_refusal (map ev_Attributes (sp_Events x)) = None"
    "first_refusal (map lk_Attributes (sp_Links x)) = None" "validateMap (sp_Attributes x) = None"
    if "x = d \<or> x = ?d" for x
    using that assms
    by (auto simp: first_refusal_None valid_span_def redact_span_def redact_event_def redact_link_def
        list_all_iff validateMap_redactMap)
  moreover have "sp_Start ?d = sp_Start d" "sp_End ?d = sp_End d" "sp_TraceID ?d = sp_TraceID d"
    "sp_SpanID ?d = sp_SpanID d" by (simp_all add: redact_span_def)
  ultimately show ?thesis by (cases "ee_ctx env (x_checked st)") (simp_all add: span_item_def Let_def cong: option.case_cong sum.case_cong if_cong)
qed

lemma redact_number_twice: "redact_number ul (redact_number ul p) = redact_number ul p"
  by (simp add: redact_number_def redact_exemplar_def redactMap_twice comp_def)

lemma redact_histogram_twice: "redact_histogram ul (redact_histogram ul p) = redact_histogram ul p"
  by (simp add: redact_histogram_def redact_exemplar_def redactMap_twice comp_def)

lemma redact_exp_histogram_twice:
  "redact_exp_histogram ul (redact_exp_histogram ul p) = redact_exp_histogram ul p"
  by (simp add: redact_exp_histogram_def redact_exemplar_def redactMap_twice comp_def)

lemma redact_summary_twice: "redact_summary ul (redact_summary ul p) = redact_summary ul p"
  by (simp add: redact_summary_def redactMap_twice)

lemmas redact_point_twice =
  redact_number_twice redact_histogram_twice redact_exp_histogram_twice redact_summary_twice

lemma point_redacted:
  "i < metricDataPointCount d \<Longrightarrow>
     map_option (redactMetricPoint ul) (only_point (redact_data ul d) i) =
     map_option (redactMetricPoint ul) (only_point d i)"
  by (cases d) (simp_all add: redact_point_twice)

lemma point_maps_redacted:
  "i < metricDataPointCount d \<Longrightarrow>
     point_maps (redact_data ul d) i =
     map_option (\<lambda>(m, xs). (redactMap ul m, map (redact_exemplar ul) xs)) (point_maps d i)"
  by (cases d) (simp_all add: redact_number_def redact_histogram_def redact_exp_histogram_def redact_summary_def)

lemma projection_redacted:
  "i < metricDataPointCount d \<Longrightarrow> projectMetricPoint (redact_data ul d) i = projectMetricPoint d i"
  by (cases d) (simp_all add: Let_def projectNumberPoint_def redact_number_def redact_histogram_def
      redact_exp_histogram_def redact_summary_def)

lemma point_count_redacted: "metricDataPointCount (redact_data ul d) = metricDataPointCount d"
  by (cases d) simp_all

lemma exemplars_redacted:
  "first_exemplar_refusal xs = None \<Longrightarrow> first_exemplar_refusal (map (redact_exemplar ul) xs) = None"
  by (induction xs) (auto simp: redact_exemplar_def validateMap_redactMap split: option.splits)

lemma validate_point_redacted:
  "i < metricDataPointCount d \<Longrightarrow> validateMetricPoint d i = None \<Longrightarrow> validateMetricPoint (redact_data ul d) i = None"
  by (auto simp: validateMetricPoint_def point_maps_redacted validateMap_redactMap exemplars_redacted
      split: option.splits prod.splits)

lemma redact_data_Empty: "redact_data ul d = EmptyData \<longleftrightarrow> d = EmptyData"
  by (cases d) simp_all

lemma redact_metric_fields:
  "mt_Data (redact_metric ul m) = redact_data ul (mt_Data m)" "mt_Name (redact_metric ul m) = mt_Name m"
  "mt_Metadata (redact_metric ul m) = redactMap ul (mt_Metadata m)"
  by (simp_all add: redact_metric_def)

lemma marshal_point_redacted:
  assumes "i < metricDataPointCount (mt_Data m)"
  shows "marshalSingleMetricPoint env mm (redact_resourced (ee_lower env) h rs) (redact_scoped (ee_lower env) h sc)
      (redact_metric (ee_lower env) m) i = marshalSingleMetricPoint env mm rs sc m i"
proof (cases "only_point (mt_Data m) i")
  case None
  then show ?thesis
    using point_redacted [OF assms, of "ee_lower env"]
    by (simp add: marshalSingleMetricPoint_def redact_metric_def)
next
  case (Some d)
  with point_redacted [OF assms, of "ee_lower env"] obtain d' where
    "only_point (redact_data (ee_lower env) (mt_Data m)) i = Some d'"
    "redactMetricPoint (ee_lower env) d' = redactMetricPoint (ee_lower env) d"
    by auto
  with Some show ?thesis
    by (simp add: marshalSingleMetricPoint_def redact_metric_def single_request_redacted redactMap_twice)
qed

lemma metric_item_redacted:
  assumes "valid_metric m"
  shows "metric_item env mm service rs sc m st =
    metric_item env mm service (redact_resourced (ee_lower env) h rs) (redact_scoped (ee_lower env) h sc)
      (redact_metric (ee_lower env) m) st"
proof -
  let ?ul = "ee_lower env"
  have point: "point_item env mm service rs sc m i st =
      point_item env mm service (redact_resourced ?ul h rs) (redact_scoped ?ul h sc) (redact_metric ?ul m) i st"
    if "i < metricDataPointCount (mt_Data m)" for i st
  proof -
    have "validateMetricPoint (mt_Data m) i = None" using assms that by (simp add: valid_metric_def)
    then show ?thesis
      using that unfolding point_item_def
      by (cases "ee_ctx env (x_checked st)") (simp_all add: marshal_point_redacted validate_point_redacted projection_redacted
          point_record_def redact_metric_fields Let_def cong: option.case_cong sum.case_cong if_cong)
  qed
  have "each (point_item env mm service rs sc m) [0..<metricDataPointCount (mt_Data m)] st =
      each (point_item env mm service (redact_resourced ?ul h rs) (redact_scoped ?ul h sc) (redact_metric ?ul m))
        (map id [0..<metricDataPointCount (mt_Data m)]) st"
    by (rule each_cong) (simp add: point)
  then show ?thesis
    using assms
    by (simp add: metric_item_def valid_metric_def redact_metric_fields redact_data_Empty validateMap_redactMap
        point_count_redacted)
qed


end
