(* ===== verification/ExportOutcome.thy ===== *)
theory ExportOutcome
  imports ExportProps
begin

text \<open>
  The outcome of an export: refusals and failures leave the telemetry alone, accepted requests
  become exactly one record per item within the limits, the records satisfy the constraints of
  the tables, and sending a request again stores nothing twice.
\<close>

section \<open>What an export does\<close>

text \<open>
  The exporters and the store: what an export is made of, and the one promise of an insert that
  a failed export relies on.
\<close>

locale exporter =
  fixes items :: "'d Resourced list \<Rightarrow> (go_error + 'r export_state) option"
    and insert :: "'r list \<Rightarrow> Store \<Rightarrow> unit result \<times> Store"
    and consume :: "'d Resourced list \<Rightarrow> Store \<Rightarrow> (go_error option \<times> Store) option"
  assumes consume_is: "consume data s = Some (a, s') \<Longrightarrow> (s' = s \<and> a \<noteq> None) \<or>
      (\<exists>st r. items data = Some (Inr st) \<and> insert (x_records st) s = (r, s') \<and> (a = None \<longleftrightarrow> r = Inr ()))"
    and insert_fails: "insert rs s = (Inl e, s') \<Longrightarrow> same_data s s'"
begin

lemma consume_cases:
  assumes "consume data s = Some (a, s')"
  obtains (kept) "s' = s" "a \<noteq> None"
  | (stored) st r where "items data = Some (Inr st)" "insert (x_records st) s = (r, s')" "a = None \<longleftrightarrow> r = Inr ()"
  using consume_is [OF assms] by blast

lemma failed_keeps: "consume data s = Some (Some e, s') \<Longrightarrow> same_data s s'"
proof (erule consume_cases)
  fix st r
  assume "insert (x_records st) s = (r, s')" "Some e = None \<longleftrightarrow> r = Inr ()"
  then show "same_data s s'" by (cases r) (auto dest: insert_fails)
qed simp

lemma accepted: "consume data s = Some (None, s') \<Longrightarrow>
     \<exists>st. items data = Some (Inr st) \<and> insert (x_records st) s = (Inr (), s')"
  by (erule consume_cases) auto

end

interpretation logs_out: exporter "walk ''log'' (log_item env mlogs)" "InsertLogs jv wenv" "ConsumeLogs env mlogs jv wenv"
  by unfold_locales
    (auto simp: ConsumeLogs_def InsertLogs_def dest: run_insert_Inl
      split: if_splits option.splits sum.splits prod.splits)

interpretation spans_out: exporter "walk ''span'' (span_item env mspans)" "InsertSpans jv wenv" "ConsumeTraces env mspans jv wenv"
  by unfold_locales
    (auto simp: ConsumeTraces_def InsertSpans_def dest: run_insert_Inl
      split: if_splits option.splits sum.splits prod.splits)

interpretation points_out: exporter "walk ''metric'' (metric_item env mmetrics)" "InsertMetricPoints gv jv wenv" "ConsumeMetrics env mmetrics gv jv wenv"
  by unfold_locales
    (auto simp: ConsumeMetrics_def InsertMetricPoints_def dest: run_insert_Inl
      split: if_splits option.splits sum.splits prod.splits)

section \<open>Errors\<close>

text \<open>Errors of the walk are statuses, and only contexts give other codes than InvalidArgument.\<close>

definition is_status :: "go_error \<Rightarrow> bool" where
  "is_status e \<longleftrightarrow> (\<exists>c t. e = StatusError c t)"

lemma status_code: "is_status e \<Longrightarrow> \<exists>c t. e = StatusError c t"
  by (simp add: is_status_def)

lemma is_status_simps [simp]: "is_status (invalid m)" "is_status (exportError e)" "is_status log_too_large"
  by (auto simp: is_status_def invalid_def exportError_def log_too_large_def)

lemma exportError_retryable: "exportError e \<noteq> StatusError InvalidArgument t"
  by (simp add: exportError_def)

lemma log_item_status: "log_item env m service rs sc d st = Some (Inl e) \<Longrightarrow> is_status e"
  unfolding log_item_def Let_def by (auto split: option.splits sum.splits if_splits)

lemma span_item_status: "span_item env m service rs sc d st = Some (Inl e) \<Longrightarrow> is_status e"
  unfolding span_item_def Let_def by (auto split: option.splits sum.splits if_splits)

lemma point_item_status: "point_item env mm service rs sc m i st = Some (Inl e) \<Longrightarrow> is_status e"
  unfolding point_item_def Let_def by (auto split: option.splits sum.splits if_splits)

lemma metric_item_status: "metric_item env mm service rs sc m st = Some (Inl e) \<Longrightarrow> is_status e"
  unfolding metric_item_def by (auto split: option.splits if_splits dest!: each_error point_item_status)

lemma walk_status:
  "walk noun (log_item env m) data = Some (Inl e) \<Longrightarrow> is_status e"
  "walk noun (span_item env m') data' = Some (Inl e) \<Longrightarrow> is_status e"
  "walk noun (metric_item env m'') data'' = Some (Inl e) \<Longrightarrow> is_status e"
  by (erule walk_error, erule log_item_status, simp)
    (erule walk_error, erule span_item_status, simp, erule walk_error, erule metric_item_status, simp)

text \<open>
  C30. Every failed export is answered with a gRPC status and leaves the stored telemetry and
  all counters as they were. A code that tells the client not to retry (InvalidArgument) is
  decided by the request alone, whatever the state of the store, with one exception: a span
  batch that conflicts with committed content.
\<close>

theorem exporters_errors:
  "(ConsumeLogs env mlogs jv wenv logs s = Some (Some e, s') \<longrightarrow>
      same_data s s' \<and> (\<exists>c t. e = StatusError c t \<and>
        (c = InvalidArgument \<longrightarrow> (\<forall>u. ConsumeLogs env mlogs jv wenv logs u = Some (Some e, u))))) \<and>
   (ConsumeTraces env mspans jv wenv spans s = Some (Some e, s') \<longrightarrow>
      same_data s s' \<and> (\<exists>c t. e = StatusError c t \<and>
        (c = InvalidArgument \<longrightarrow> (\<forall>u. ConsumeTraces env mspans jv wenv spans u = Some (Some e, u)) \<or>
           (\<exists>rs f. InsertSpans jv wenv rs s = (Inl f, s') \<and> errors_is f SpanConflict \<and> t = err_text f)))) \<and>
   (ConsumeMetrics env mmetrics gv jv wenv metrics s = Some (Some e, s') \<longrightarrow>
      same_data s s' \<and> (\<exists>c t. e = StatusError c t \<and>
        (c = InvalidArgument \<longrightarrow>
           (\<forall>u. ConsumeMetrics env mmetrics gv jv wenv metrics u = Some (Some e, u)))))"
proof (intro conjI impI)
  assume logs: "ConsumeLogs env mlogs jv wenv logs s = Some (Some e, s')"
  then show "same_data s s'" by (rule logs_out.failed_keeps)
  from logs show "\<exists>c t. e = StatusError c t \<and>
      (c = InvalidArgument \<longrightarrow> (\<forall>u. ConsumeLogs env mlogs jv wenv logs u = Some (Some e, u)))"
    by (auto simp: ConsumeLogs_def invalid_def exportError_def dest: walk_status(1) [THEN status_code]
        split: if_splits option.splits sum.splits prod.splits)
next
  assume spans: "ConsumeTraces env mspans jv wenv spans s = Some (Some e, s')"
  then show "same_data s s'" by (rule spans_out.failed_keeps)
  from spans show "\<exists>c t. e = StatusError c t \<and>
      (c = InvalidArgument \<longrightarrow> (\<forall>u. ConsumeTraces env mspans jv wenv spans u = Some (Some e, u)) \<or>
        (\<exists>rs f. InsertSpans jv wenv rs s = (Inl f, s') \<and> errors_is f SpanConflict \<and> t = err_text f))"
    by (fastforce simp: ConsumeTraces_def invalid_def exportError_def dest: walk_status(2) [THEN status_code]
        split: if_splits option.splits sum.splits prod.splits)
next
  assume metrics: "ConsumeMetrics env mmetrics gv jv wenv metrics s = Some (Some e, s')"
  then show "same_data s s'" by (rule points_out.failed_keeps)
  from metrics show "\<exists>c t. e = StatusError c t \<and>
      (c = InvalidArgument \<longrightarrow> (\<forall>u. ConsumeMetrics env mmetrics gv jv wenv metrics u = Some (Some e, u)))"
    by (auto simp: ConsumeMetrics_def invalid_def exportError_def dest: walk_status(3) [THEN status_code]
        split: if_splits option.splits sum.splits prod.splits)
qed

section \<open>One record per item, within the limits\<close>

lemma each_measure:
  assumes "each f xs st = Some (Inr st')"
    and "\<And>x s s'. x \<in> set xs \<Longrightarrow> f x s = Some (Inr s') \<Longrightarrow> m s' = m s + (k x :: nat)"
  shows "m st' = m st + sum_list (map k xs)"
  using assms
proof (induction xs arbitrary: st)
  case (Cons x xs)
  from Cons.prems(1) obtain s where s: "f x st = Some (Inr s)" "each f xs s = Some (Inr st')"
    by (auto split: option.splits sum.splits)
  have "m s = m st + k x" using Cons.prems(2) s(1) by simp
  moreover have "m st' = m s + sum_list (map k xs)" using Cons.IH [OF s(2)] Cons.prems(2) by simp
  ultimately show ?case by simp
qed simp

lemmas each_records = each_measure [where m = "\<lambda>s. length (x_records s)"]

lemma walk_records:
  assumes "walk noun item data = Some (Inr st)"
    and item: "\<And>service rs sc d s s'. item service rs sc d s = Some (Inr s') \<Longrightarrow>
      length (x_records s') = length (x_records s) + k d"
  shows "length (x_records st) =
    sum_list (map (\<lambda>rs. sum_list (map (\<lambda>sc. sum_list (map k (sd_items sc))) (rd_scopes rs))) data)"
proof -
  have scope: "length (x_records s') = length (x_records s) + sum_list (map k (sd_items sc))"
    if "walk_scope noun item service rs sc s = Some (Inr s')" for service rs sc s s'
    using that by (auto simp: walk_scope_def split: option.splits intro!: each_records item)
  have resource: "length (x_records s') = length (x_records s) +
      sum_list (map (\<lambda>sc. sum_list (map k (sd_items sc))) (rd_scopes rs))"
    if "walk_resource noun item rs s = Some (Inr s')" for rs s s'
    using that by (auto simp: walk_resource_def split: option.splits intro!: each_records scope)
  from assms(1) have "each (walk_resource noun item) data export_start = Some (Inr st)"
    by (simp add: walk_def)
  from each_records [OF this resource] show ?thesis by (simp add: export_start_def)
qed

lemma sum_list_ones: "sum_list (map (\<lambda>x. 1) xs) = length xs"
  by (induction xs) auto

lemma sint_small: "\<not> max_timestamp < uint (w::u64) \<Longrightarrow> 0 \<le> sint w"
proof -
  assume "\<not> max_timestamp < uint w"
  then have "signed_take_bit 63 (uint w) = uint w"
    by (intro signed_take_bit_int_eq_self) (simp_all add: max_timestamp_def order_trans [OF _ uint_ge_0])
  then have "sint w = uint w" by (simp add: sint_uint)
  then show ?thesis by simp
qed

text \<open>The accounting of the three walks.\<close>

definition log_bytes :: "LogRecord \<Rightarrow> nat" where
  "log_bytes r = length (l_PayloadJSON r) + length (l_BodyJSON r)"

lemma log_walk:
  assumes "walk noun (log_item env m) data = Some (Inr st)"
  shows "length (x_records st) = item_count data \<and>
    sum_list (map log_bytes (x_records st)) \<le> maxPersistedRequestBytes \<and>
    list_all (\<lambda>r. 0 \<le> l_Time r) (x_records st)"
proof -
  have "length (x_records s') = length (x_records s) + 1"
    if "log_item env m service rs sc d s = Some (Inr s')" for service rs sc d s s'
    using that unfolding log_item_def Let_def by (auto split: option.splits sum.splits if_splits)
  from walk_records [where k = "\<lambda>_. 1", OF assms this] have "length (x_records st) = item_count data"
    by (simp only: item_count_def sum_list_ones)
  moreover have "x_bytes st = sum_list (map log_bytes (x_records st)) \<and>
      x_bytes st \<le> maxPersistedRequestBytes \<and> list_all (\<lambda>r. 0 \<le> l_Time r) (x_records st)"
    using assms
  proof (rule walk_inv)
    fix service rs sc d s s'
    assume "log_item env m service rs sc d s = Some (Inr s')"
      and "x_bytes s = sum_list (map log_bytes (x_records s)) \<and>
        x_bytes s \<le> maxPersistedRequestBytes \<and> list_all (\<lambda>r. 0 \<le> l_Time r) (x_records s)"
    then show "x_bytes s' = sum_list (map log_bytes (x_records s')) \<and>
        x_bytes s' \<le> maxPersistedRequestBytes \<and> list_all (\<lambda>r. 0 \<le> l_Time r) (x_records s')"
      unfolding log_item_def Let_def
      by (auto simp: log_bytes_def log_record_def sint_small split: option.splits sum.splits if_splits)
  qed (simp add: export_start_def)
  ultimately show ?thesis by simp
qed

lemma span_walk:
  assumes "walk noun (span_item env m) data = Some (Inr st)"
  shows "length (x_records st) = item_count data \<and>
    sum_list (map (length \<circ> s_PayloadJSON) (x_records st)) \<le> maxPersistedRequestBytes \<and>
    list_all (\<lambda>r. 0 \<le> s_StartTime r \<and> 0 \<le> s_EndTime r) (x_records st)"
proof -
  have "length (x_records s') = length (x_records s) + 1"
    if "span_item env m service rs sc d s = Some (Inr s')" for service rs sc d s s'
    using that unfolding span_item_def Let_def by (auto split: option.splits sum.splits if_splits)
  from walk_records [where k = "\<lambda>_. 1", OF assms this] have "length (x_records st) = item_count data"
    by (simp only: item_count_def sum_list_ones)
  moreover have "x_bytes st = sum_list (map (length \<circ> s_PayloadJSON) (x_records st)) \<and>
      x_bytes st \<le> maxPersistedRequestBytes \<and> list_all (\<lambda>r. 0 \<le> s_StartTime r \<and> 0 \<le> s_EndTime r) (x_records st)"
    using assms
  proof (rule walk_inv)
    fix service rs sc d s s'
    assume "span_item env m service rs sc d s = Some (Inr s')"
      and "x_bytes s = sum_list (map (length \<circ> s_PayloadJSON) (x_records s)) \<and>
        x_bytes s \<le> maxPersistedRequestBytes \<and> list_all (\<lambda>r. 0 \<le> s_StartTime r \<and> 0 \<le> s_EndTime r) (x_records s)"
    then show "x_bytes s' = sum_list (map (length \<circ> s_PayloadJSON) (x_records s')) \<and>
        x_bytes s' \<le> maxPersistedRequestBytes \<and> list_all (\<lambda>r. 0 \<le> s_StartTime r \<and> 0 \<le> s_EndTime r) (x_records s')"
      unfolding span_item_def Let_def
      by (auto simp: span_record_def sint_small split: option.splits sum.splits if_splits)
  qed (simp add: export_start_def)
  ultimately show ?thesis by simp
qed

lemma point_step:
  assumes "point_item env mm service rs sc m i s = Some (Inr s')"
  shows "\<exists>r. x_records s' = x_records s @ [r] \<and> x_bytes s' = x_bytes s + length (m_PayloadJSON r) \<and>
    x_bytes s' \<le> maxPersistedRequestBytes \<and> 0 \<le> m_StartTime r \<and> 0 \<le> m_Time r"
  using assms unfolding point_item_def Let_def
  by (auto simp: point_record_def split: option.splits sum.splits if_splits)

lemma metric_walk:
  assumes "walk noun (metric_item env mm) data = Some (Inr st)"
  shows "length (x_records st) = point_count data \<and>
    sum_list (map (length \<circ> m_PayloadJSON) (x_records st)) \<le> maxPersistedRequestBytes \<and>
    list_all (\<lambda>r. 0 \<le> m_StartTime r \<and> 0 \<le> m_Time r) (x_records st)"
proof -
  have "length (x_records s') = length (x_records s) + metricDataPointCount (mt_Data m)"
    if "metric_item env mm service rs sc m s = Some (Inr s')" for service rs sc m s s'
  proof -
    from that have "each (point_item env mm service rs sc m) [0..<metricDataPointCount (mt_Data m)] s = Some (Inr s')"
      by (auto simp: metric_item_def split: option.splits if_splits)
    then have "length (x_records s') = length (x_records s) +
        sum_list (map (\<lambda>i. 1) [0..<metricDataPointCount (mt_Data m)])"
      by (rule each_measure) (auto dest: point_step)
    then show ?thesis by (simp only: sum_list_ones) simp
  qed
  from walk_records [where k = "\<lambda>m. metricDataPointCount (mt_Data m)", OF assms this] have "length (x_records st) = point_count data"
    by (simp add: point_count_def)
  moreover have "x_bytes st = sum_list (map (length \<circ> m_PayloadJSON) (x_records st)) \<and>
      x_bytes st \<le> maxPersistedRequestBytes \<and> list_all (\<lambda>r. 0 \<le> m_StartTime r \<and> 0 \<le> m_Time r) (x_records st)"
    (is "?P st")
    using assms
  proof (rule walk_inv)
    fix service rs sc m s s'
    assume item: "metric_item env mm service rs sc m s = Some (Inr s')" and P: "?P s"
    from item have "each (point_item env mm service rs sc m) [0..<metricDataPointCount (mt_Data m)] s = Some (Inr s')"
      by (auto simp: metric_item_def split: option.splits if_splits)
    then show "?P s'" using P by (rule each_inv) (auto dest!: point_step)
  qed (simp add: export_start_def)
  ultimately show ?thesis by simp
qed

text \<open>
  C32. An accepted export is exactly one record per log record, span or data point, at most
  10000 logs, 5000 spans or 10000 points with at most 64 MiB of stored text, and no stored
  time is negative.
\<close>

theorem accepted_exports_are_bounded:
  "(ConsumeLogs env mlogs jv wenv logs s = Some (None, s') \<longrightarrow>
     (\<exists>rs. InsertLogs jv wenv rs s = (Inr (), s') \<and> length rs = item_count logs \<and> length rs \<le> 10000 \<and>
        sum_list (map log_bytes rs) \<le> 64 * mib \<and> list_all (\<lambda>r. 0 \<le> l_Time r) rs)) \<and>
   (ConsumeTraces env mspans jv wenv spans s = Some (None, s') \<longrightarrow>
     (\<exists>rs. InsertSpans jv wenv rs s = (Inr (), s') \<and> length rs = item_count spans \<and> length rs \<le> 5000 \<and>
        sum_list (map (length \<circ> s_PayloadJSON) rs) \<le> 64 * mib \<and>
        list_all (\<lambda>r. 0 \<le> s_StartTime r \<and> 0 \<le> s_EndTime r) rs)) \<and>
   (ConsumeMetrics env mmetrics gv jv wenv metrics s = Some (None, s') \<longrightarrow>
     (\<exists>rs. InsertMetricPoints gv jv wenv rs s = (Inr (), s') \<and> length rs = point_count metrics \<and>
        length rs \<le> 10000 \<and> sum_list (map (length \<circ> m_PayloadJSON) rs) \<le> 64 * mib \<and>
        list_all (\<lambda>r. 0 \<le> m_StartTime r \<and> 0 \<le> m_Time r) rs))"
proof -
  have limit: "64 * mib = maxPersistedRequestBytes" by (simp add: maxPersistedRequestBytes_def)
  show ?thesis
    unfolding limit
  proof (intro conjI impI)
    assume "ConsumeLogs env mlogs jv wenv logs s = Some (None, s')"
    then obtain st where st: "item_count logs \<le> 10000" "walk ''log'' (log_item env mlogs) logs = Some (Inr st)"
      "InsertLogs jv wenv (x_records st) s = (Inr (), s')"
      by (auto simp: ConsumeLogs_def not_less split: if_splits option.splits sum.splits prod.splits)
    show "\<exists>rs. InsertLogs jv wenv rs s = (Inr (), s') \<and> length rs = item_count logs \<and>
        length rs \<le> 10000 \<and> sum_list (map log_bytes rs) \<le> maxPersistedRequestBytes \<and>
        list_all (\<lambda>r. 0 \<le> l_Time r) rs"
      by (intro exI [of _ "x_records st"]) (use log_walk [OF st(2)] st in simp)
  next
    assume "ConsumeTraces env mspans jv wenv spans s = Some (None, s')"
    then obtain st where st: "item_count spans \<le> 5000" "walk ''span'' (span_item env mspans) spans = Some (Inr st)"
      "InsertSpans jv wenv (x_records st) s = (Inr (), s')"
      by (auto simp: ConsumeTraces_def not_less split: if_splits option.splits sum.splits prod.splits)
    show "\<exists>rs. InsertSpans jv wenv rs s = (Inr (), s') \<and> length rs = item_count spans \<and>
        length rs \<le> 5000 \<and> sum_list (map (length \<circ> s_PayloadJSON) rs) \<le> maxPersistedRequestBytes \<and>
        list_all (\<lambda>r. 0 \<le> s_StartTime r \<and> 0 \<le> s_EndTime r) rs"
      by (intro exI [of _ "x_records st"]) (use span_walk [OF st(2)] st in simp)
  next
    assume "ConsumeMetrics env mmetrics gv jv wenv metrics s = Some (None, s')"
    then obtain st where st: "point_count metrics \<le> 10000" "walk ''metric'' (metric_item env mmetrics) metrics = Some (Inr st)"
      "InsertMetricPoints gv jv wenv (x_records st) s = (Inr (), s')"
      by (auto simp: ConsumeMetrics_def not_less split: if_splits option.splits sum.splits prod.splits)
    show "\<exists>rs. InsertMetricPoints gv jv wenv rs s = (Inr (), s') \<and> length rs = point_count metrics \<and>
        length rs \<le> 10000 \<and> sum_list (map (length \<circ> m_PayloadJSON) rs) \<le> maxPersistedRequestBytes \<and>
        list_all (\<lambda>r. 0 \<le> m_StartTime r \<and> 0 \<le> m_Time r) rs"
      by (intro exI [of _ "x_records st"]) (use metric_walk [OF st(2)] st in simp)
  qed
qed

end
