(* ===== verification/ExportRetry.thy ===== *)
theory ExportRetry
  imports ExportOutcome
begin

text \<open>
  OTLP clients deliver at least once. The fingerprint of a record does not depend on when or
  how often it is received, so a request that is sent again stores nothing.
\<close>

section \<open>Storing keys that are stored\<close>

lemma resend:
  assumes "run_insert get put tally step env rs s = (Inr u, s1)"
    and "run_insert get put tally step' env' rs' s1 = (r, s2)"
    and put: "\<And>t d. get (put t d) = t" "\<And>t d. put t (put t d) = put t d"
    and tally: "\<And>n s. db (tally n s) = db s" "\<And>s. tally 0 s = s"
    and replay: "\<And>d t n t2 n2. exec_batch step 0 rs (get d) 0 = Inr (t, n) \<Longrightarrow>
      exec_batch step' 0 rs' t 0 = Inr (t2, n2) \<Longrightarrow> t2 = t \<and> n2 = 0"
  shows "same_data s1 s2"
proof (cases r)
  case (Inl e)
  with assms(2) show ?thesis by (auto dest: run_insert_Inl)
next
  case (Inr v)
  from run_insert_Inr [OF assms(1)] obtain d t n where h:
    "exec_batch step 0 rs (get d) 0 = Inr (t, n)" "s1 = tally n (s\<lparr>db := Some (put t d)\<rparr>)" by blast
  then have db: "db s1 = Some (put t d)" by (simp add: tally)
  from run_insert_Inr [OF assms(2) [unfolded Inr]] obtain d' t2 n2 where h2: "db s1 = Some d'"
    "exec_batch step' 0 rs' (get d') 0 = Inr (t2, n2)" "s2 = tally n2 (s1\<lparr>db := Some (put t2 d')\<rparr>)" by blast
  then have "t2 = t \<and> n2 = 0" using replay [OF h(1)] db put by auto
  with h2 db put tally(2) have "s2 = s1\<lparr>db := db s1\<rparr>" by auto
  then show ?thesis by simp
qed

lemma keys_subset: "map k rs' = map k rs \<Longrightarrow> set ks = A \<union> k ` set rs \<Longrightarrow> k ` set rs' \<subseteq> set ks"
proof -
  assume "map k rs' = map k rs" "set ks = A \<union> k ` set rs"
  from arg_cong [OF this(1), of set] this(2) show ?thesis by simp
qed

lemma InsertLogs_resend:
  assumes "InsertLogs jv env rs s = (Inr (), s1)" "InsertLogs jv env' rs' s1 = (r, s2)"
    "map l_Fingerprint rs' = map l_Fingerprint rs"
  shows "same_data s1 s2"
  using assms(1,2) unfolding InsertLogs_def
proof (rule resend)
  fix d t n t2 n2
  assume "exec_batch (log_step jv env) 0 rs (otel_logs d) 0 = Inr (t, n)"
  from log_batch.batch_keys [OF this] have "l_Fingerprint ` set rs' \<subseteq> set (map lr_fingerprint t)"
    by (rule keys_subset [OF assms(3)])
  moreover assume "exec_batch (log_step jv env') 0 rs' t 0 = Inr (t2, n2)"
  ultimately show "t2 = t \<and> n2 = 0" by (rule log_batch.batch_replay [rotated])
qed (simp_all add: put_defs count_defs)

abbreviation span_identity :: "SpanRecord \<Rightarrow> string \<times> string" where
  "span_identity r \<equiv> (s_TraceID r, s_SpanID r)"

lemma InsertSpans_resend:
  assumes "InsertSpans jv env rs s = (Inr (), s1)" "InsertSpans jv env' rs' s1 = (r, s2)"
    "map span_identity rs' = map span_identity rs"
  shows "same_data s1 s2"
  using assms(1,2) unfolding InsertSpans_def
proof (rule resend)
  fix d t n t2 n2
  assume "exec_batch (span_step jv env) 0 rs (otel_spans d) 0 = Inr (t, n)"
  from span_batch.batch_keys [OF this] have "span_identity ` set rs' \<subseteq> set (map span_key t)"
    by (rule keys_subset [OF assms(3)])
  moreover assume "exec_batch (span_step jv env') 0 rs' t 0 = Inr (t2, n2)"
  ultimately show "t2 = t \<and> n2 = 0" by (rule span_batch.batch_replay [rotated])
qed (simp_all add: put_defs count_defs)

lemma InsertMetricPoints_resend:
  assumes "InsertMetricPoints gv jv env rs s = (Inr (), s1)"
    "InsertMetricPoints gv jv env' rs' s1 = (r, s2)" "map m_Fingerprint rs' = map m_Fingerprint rs"
  shows "same_data s1 s2"
  using assms(1,2) unfolding InsertMetricPoints_def
proof (rule resend)
  fix d t n t2 n2
  assume "exec_batch (metric_step gv jv env) 0 rs (otel_metric_points d) 0 = Inr (t, n)"
  from metric_batch.batch_keys [OF this] have "m_Fingerprint ` set rs' \<subseteq> set (map mr_fingerprint t)"
    by (rule keys_subset [OF assms(3)])
  moreover assume "exec_batch (metric_step gv jv env') 0 rs' t 0 = Inr (t2, n2)"
  ultimately show "t2 = t \<and> n2 = 0" by (rule metric_batch.batch_replay [rotated])
qed (simp_all add: put_defs count_defs)

section \<open>The same request at another time\<close>

lemma each_rel:
  assumes "each f xs s = Some (Inr t)" "each g xs s' = Some (Inr t')" "R s s'"
    and step: "\<And>x s s' t t'. f x s = Some (Inr t) \<Longrightarrow> g x s' = Some (Inr t') \<Longrightarrow> R s s' \<Longrightarrow> R t t'"
  shows "R t t'"
  using assms(1-3)
proof (induction xs arbitrary: s s')
  case (Cons x xs)
  from Cons.prems obtain u u' where "f x s = Some (Inr u)" "each f xs u = Some (Inr t)"
    "g x s' = Some (Inr u')" "each g xs u' = Some (Inr t')"
    by (auto split: option.splits sum.splits)
  with Cons.IH [of u u'] step [of x s u s' u'] Cons.prems(3) show ?case by blast
qed simp

lemma walk_rel:
  assumes "walk noun item data = Some (Inr t)" "walk noun item' data = Some (Inr t')"
    "R export_start export_start"
    and item: "\<And>service rs sc d s s' t t'. item service rs sc d s = Some (Inr t) \<Longrightarrow>
      item' service rs sc d s' = Some (Inr t') \<Longrightarrow> R s s' \<Longrightarrow> R t t'"
  shows "R t t'"
proof -
  have scope: "R t t'" if "walk_scope noun item service rs sc s = Some (Inr t)"
    "walk_scope noun item' service rs sc s' = Some (Inr t')" "R s s'" for service rs sc s s' t t'
    using that item each_rel [where f = "item service rs sc" and g = "item' service rs sc" and R = R]
    by (auto simp: walk_scope_def split: option.splits)
  have resource: "R t t'" if "walk_resource noun item rs s = Some (Inr t)"
    "walk_resource noun item' rs s' = Some (Inr t')" "R s s'" for rs s s' t t'
    using that scope each_rel [where R = R and f = "walk_scope noun item (service_name (r_attributes (rd_resource rs))) rs"
        and g = "walk_scope noun item' (service_name (r_attributes (rd_resource rs))) rs"]
    by (auto simp: walk_resource_def split: option.splits)
  from assms(1-3) resource show ?thesis
    using each_rel [where R = R and f = "walk_resource noun item" and g = "walk_resource noun item'"]
    unfolding walk_def by blast
qed

definition later :: "int \<Rightarrow> (nat \<Rightarrow> go_error option) \<Rightarrow> export_env \<Rightarrow> export_env" where
  "later now ctx env = env\<lparr>ee_now := now, ee_ctx := ctx\<rparr>"

definition same_keys :: "('r \<Rightarrow> 'k) \<Rightarrow> 'r export_state \<Rightarrow> 'r export_state \<Rightarrow> bool" where
  "same_keys k s s' \<longleftrightarrow> map k (x_records s') = map k (x_records s)"

lemma same_keys_start: "same_keys k export_start export_start"
  by (simp add: same_keys_def)

lemma log_item_later:
  assumes "log_item env m service rs sc d s = Some (Inr t)"
    "log_item (later now ctx env) m service rs sc d s' = Some (Inr t')" "same_keys l_Fingerprint s s'"
  shows "same_keys l_Fingerprint t t'"
proof -
  have "marshalSingleLog (later now ctx env) m rs sc d = marshalSingleLog env m rs sc d"
    by (simp add: marshalSingleLog_def later_def)
  with assms show ?thesis
    by (auto simp: log_item_def Let_def same_keys_def log_record_def later_def
        split: option.splits sum.splits if_splits)
qed

lemma span_item_later:
  assumes "span_item env m service rs sc d s = Some (Inr t)"
    "span_item (later now ctx env) m service rs sc d s' = Some (Inr t')" "same_keys span_identity s s'"
  shows "same_keys span_identity t t'"
  using assms
  by (auto simp: span_item_def Let_def same_keys_def span_record_def split: option.splits sum.splits if_splits)

lemma metric_item_later:
  assumes "metric_item env mm service rs sc m s = Some (Inr t)"
    "metric_item (later now ctx env) mm service rs sc m s' = Some (Inr t')" "same_keys m_Fingerprint s s'"
  shows "same_keys m_Fingerprint t t'"
proof -
  have point: "same_keys m_Fingerprint t t'"
    if "point_item env mm service rs sc m i s = Some (Inr t)"
      "point_item (later now ctx env) mm service rs sc m i s' = Some (Inr t')" "same_keys m_Fingerprint s s'"
    for i s s' t t'
  proof -
    have "marshalSingleMetricPoint (later now ctx env) mm rs sc m i = marshalSingleMetricPoint env mm rs sc m i"
      by (simp add: marshalSingleMetricPoint_def later_def cong: option.case_cong)
    with that show ?thesis
      by (auto simp: point_item_def Let_def same_keys_def point_record_def later_def
          split: option.splits sum.splits if_splits)
  qed
  from assms(1,2) have
    "each (point_item env mm service rs sc m) [0..<metricDataPointCount (mt_Data m)] s = Some (Inr t)"
    "each (point_item (later now ctx env) mm service rs sc m) [0..<metricDataPointCount (mt_Data m)] s' = Some (Inr t')"
    by (auto simp: metric_item_def split: if_splits option.splits)
  from each_rel [where R = "same_keys m_Fingerprint", OF this assms(3) point] show ?thesis .
qed

text \<open>
  Two deliveries of one request to exporters that number its items alike, over a store that
  knows the keys it has stored.
\<close>

locale redelivery =
  first: exporter items insert consume + again: exporter items' insert' consume'
  for items :: "'d Resourced list \<Rightarrow> (go_error + 'r export_state) option"
    and items' :: "'d Resourced list \<Rightarrow> (go_error + 'r export_state) option"
    and insert insert' consume consume' +
  fixes key :: "'r \<Rightarrow> 'k"
  assumes same_items: "items data = Some (Inr st) \<Longrightarrow> items' data = Some (Inr st') \<Longrightarrow> same_keys key st st'"
    and keys_known: "insert rs s = (Inr (), s1) \<Longrightarrow> insert' rs' s1 = (r, s2) \<Longrightarrow> map key rs' = map key rs \<Longrightarrow>
      same_data s1 s2"
begin

lemma again_keeps:
  assumes "consume data s = Some (None, s1)" "consume' data s1 = Some (a, s2)"
  shows "same_data s1 s2"
proof -
  from first.accepted [OF assms(1)] obtain st where
    st: "items data = Some (Inr st)" "insert (x_records st) s = (Inr (), s1)" by blast
  from assms(2) show ?thesis
  proof (cases rule: again.consume_cases)
    case (stored st' r)
    with keys_known [OF st(2) stored(2)] same_items [OF st(1)] show ?thesis by (simp add: same_keys_def)
  qed simp
qed

end

lemma log_walk_later:
  assumes "walk ''log'' (log_item env m) data = Some (Inr st)"
    "walk ''log'' (log_item (later now ctx env) m) data = Some (Inr st')"
  shows "same_keys l_Fingerprint st st'"
  using assms same_keys_start log_item_later by (rule walk_rel [where R = "same_keys l_Fingerprint"])

lemma span_walk_later:
  assumes "walk ''span'' (span_item env m) data = Some (Inr st)"
    "walk ''span'' (span_item (later now ctx env) m) data = Some (Inr st')"
  shows "same_keys span_identity st st'"
  using assms same_keys_start span_item_later by (rule walk_rel [where R = "same_keys span_identity"])

lemma metric_walk_later:
  assumes "walk ''metric'' (metric_item env m) data = Some (Inr st)"
    "walk ''metric'' (metric_item (later now ctx env) m) data = Some (Inr st')"
  shows "same_keys m_Fingerprint st st'"
  using assms same_keys_start metric_item_later by (rule walk_rel [where R = "same_keys m_Fingerprint"])

interpretation logs_again: redelivery "walk ''log'' (log_item env mlogs)"
  "walk ''log'' (log_item (later now ctx env) mlogs)" "InsertLogs jv wenv" "InsertLogs jv wenv'"
  "ConsumeLogs env mlogs jv wenv" "ConsumeLogs (later now ctx env) mlogs jv wenv'" l_Fingerprint
  by unfold_locales (erule (1) log_walk_later, erule (2) InsertLogs_resend)

interpretation spans_again: redelivery "walk ''span'' (span_item env mspans)"
  "walk ''span'' (span_item (later now ctx env) mspans)" "InsertSpans jv wenv" "InsertSpans jv wenv'"
  "ConsumeTraces env mspans jv wenv" "ConsumeTraces (later now ctx env) mspans jv wenv'" span_identity
  by unfold_locales (erule (1) span_walk_later, erule (2) InsertSpans_resend)

interpretation points_again: redelivery "walk ''metric'' (metric_item env mmetrics)"
  "walk ''metric'' (metric_item (later now ctx env) mmetrics)" "InsertMetricPoints gv jv wenv" "InsertMetricPoints gv jv wenv'"
  "ConsumeMetrics env mmetrics gv jv wenv" "ConsumeMetrics (later now ctx env) mmetrics gv jv wenv'" m_Fingerprint
  by unfold_locales (erule (1) metric_walk_later, erule (2) InsertMetricPoints_resend)

text \<open>
  C29. A request that was stored and is sent again, at another time, with another context and
  whatever SQLite does then, changes neither the telemetry nor a counter: delivery at least
  once is storage exactly once.
\<close>

theorem retries_store_nothing_twice:
  "(ConsumeLogs env mlogs jv wenv logs s = Some (None, s1) \<and>
    ConsumeLogs (later now ctx env) mlogs jv wenv' logs s1 = Some (a, s2) \<longrightarrow> same_data s1 s2) \<and>
   (ConsumeTraces env mspans jv wenv spans s = Some (None, s1) \<and>
    ConsumeTraces (later now ctx env) mspans jv wenv' spans s1 = Some (a, s2) \<longrightarrow> same_data s1 s2) \<and>
   (ConsumeMetrics env mmetrics gv jv wenv metrics s = Some (None, s1) \<and>
    ConsumeMetrics (later now ctx env) mmetrics gv jv wenv' metrics s1 = Some (a, s2) \<longrightarrow> same_data s1 s2)"
  by (intro conjI impI; elim conjE)
    (erule (1) logs_again.again_keeps, erule (1) spans_again.again_keeps, erule (1) points_again.again_keeps)

end
