(* ===== verification/ExportSchema.thy ===== *)
theory ExportSchema
  imports ExportOutcome
begin

text \<open>
  The exporters and the tables fit together: every record the exporters build satisfies the
  CHECK constraints of its table, so no accepted request fails on one.
\<close>

section \<open>Documents that SQLite accepts\<close>

text \<open>
  \<open>fine num n v\<close>: the texts of the numbers are numbers, and at most \<open>n\<close> objects
  and arrays are nested.
\<close>

fun fine :: "(string \<Rightarrow> bool) \<Rightarrow> nat \<Rightarrow> json \<Rightarrow> bool" where
  "fine num n (JArr vs) = (0 < n \<and> list_all (fine num (n - 1)) vs)"
| "fine num n (JObj es) = (0 < n \<and> list_all (\<lambda>e. fine num (n - 1) (snd e)) es)"
| "fine num n (JNum t) = num t"
| "fine num n v = True"

lemma fine_mono: "fine num m v \<Longrightarrow> m \<le> n \<Longrightarrow> fine num n v"
proof (induction num m v arbitrary: n rule: fine.induct)
  case (1 num m vs)
  then show ?case by (auto simp: list_all_iff)
next
  case (2 num m es)
  then show ?case by (fastforce simp: list_all_iff)
qed auto

lemma all_some_SomeD: "all_some xs = Some ys \<Longrightarrow> map Some ys = xs"
  by (induction xs arbitrary: ys) (auto split: option.splits)

lemma fine_sort_entries: "sort_entries v = Some w \<Longrightarrow> fine num n v \<Longrightarrow> fine num n w"
  by (auto simp: sort_entries_def list_all_iff split: json.splits if_splits)

lemma canonicalize_fine: "canonicalize p v = Some w \<Longrightarrow> fine num n v \<Longrightarrow> fine num n w"
proof (induction p v arbitrary: w n rule: canonicalize.induct)
  case (1 p es)
  from 1(2) obtain fs where w: "w = JObj fs"
    and fs: "map Some fs = map (\<lambda>(k, v). map_option (Pair k)
      (case (if attribute_list p k then sort_entries v else Some v) of None \<Rightarrow> None
       | Some w \<Rightarrow> canonicalize k w)) es"
    by (auto dest: all_some_SomeD)
  have "fine num (n - 1) (snd f)" if "f \<in> set fs" for f
  proof -
    from that have "Some f \<in> set (map Some fs)" by simp
    then obtain k v u where e: "(k, v) \<in> set es"
      "(if attribute_list p k then sort_entries v else Some v) = Some u"
      "canonicalize k u = Some (snd f)"
      unfolding fs by (auto split: option.splits dest!: sym [of "Some f"])
    have "fine num (n - 1) v" using e(1) 1(3) by (auto simp: list_all_iff)
    with e(2) have "fine num (n - 1) u" by (auto intro: fine_sort_entries split: if_splits)
    with 1(1) [OF e(1) refl e(2) e(3)] show ?thesis by simp
  qed
  with 1(3) w show ?case by (simp add: list_all_iff)
next
  case (2 p vs)
  from 2(2) obtain ws where w: "w = JArr ws" and ws: "map Some ws = map (canonicalize p) vs"
    by (auto dest: all_some_SomeD)
  have "fine num (n - 1) x" if "x \<in> set ws" for x
  proof -
    from that have "Some x \<in> set (map Some ws)" by simp
    then obtain v where "v \<in> set vs" "canonicalize p v = Some x" unfolding ws by auto
    with 2(1) [of v x "n - 1"] 2(3) show ?thesis by (auto simp: list_all_iff)
  qed
  with 2(3) w show ?case by (simp add: list_all_iff)
qed auto

lemma nesting_slice: "v \<in> set vs \<Longrightarrow> nesting v < nesting (VSlice vs)"
  using foldr_max_le [of "\<lambda>v. Suc (nesting v)" vs 0 "nesting (VSlice vs)"] by (auto simp: Suc_le_eq)

lemma nesting_map: "(k, v) \<in> set es \<Longrightarrow> nesting v < nesting (VMap es)"
  using foldr_max_le [of "\<lambda>e. Suc (nesting (snd e))" es 1 "nesting (VMap es)"] by (auto simp: Suc_le_eq)

text \<open>A tagged value nests at most three levels for each level of the value, and two more.\<close>

lemma taggedValue_fine:
  assumes "\<And>x. \<not> is_NaN x \<Longrightarrow> \<not> is_Inf x \<Longrightarrow> num (fmt x)"
  shows "fine num (3 * nesting v + 2) (taggedValue fmt v)"
proof (induction v rule: Value_induct)
  case (scalar v)
  then show ?case using assms by (cases v) (auto simp: tagged_double_def is_Inf_def)
next
  case (slice vs)
  define n where "n = nesting (VSlice vs)"
  have "fine num (3 * n) (taggedValue fmt v)" if "v \<in> set vs" for v
    using slice [OF that] by (rule fine_mono) (use nesting_slice [OF that] n_def in simp)
  then show ?case
    unfolding n_def [symmetric] by (simp add: list_all_iff)
next
  case (map es)
  define n where "n = nesting (VMap es)"
  have "fine num (3 * n - 1) (taggedValue fmt (snd e))" if "e \<in> set es" for e
  proof -
    from that have e: "(fst e, snd e) \<in> set es" by simp
    from map [OF e] show ?thesis
      by (rule fine_mono) (use nesting_map [OF e] n_def in simp)
  qed
  moreover have "1 \<le> n" unfolding n_def by (induction es) auto
  then have "3 * n + 2 = Suc (Suc (Suc (3 * n - 1)))" by simp
  ultimately show ?case
    unfolding n_def [symmetric] by (simp add: list_all_iff)
qed

section \<open>Items of a request\<close>

definition request_items :: "'d Resourced list \<Rightarrow> 'd list" where
  "request_items data = concat (map (\<lambda>rs. concat (map sd_items (rd_scopes rs))) data)"

lemma walk_inv_items:
  assumes "walk noun item data = Some (Inr st)" "P export_start"
    and item: "\<And>service rs sc d s s'. d \<in> set (request_items data) \<Longrightarrow>
      item service rs sc d s = Some (Inr s') \<Longrightarrow> P s \<Longrightarrow> P s'"
  shows "P st"
  using assms(1) unfolding walk_def
proof (rule each_inv)
  fix rs s s'
  assume rs: "rs \<in> set data" "walk_resource noun item rs s = Some (Inr s')" "P s"
  have "P s'" if "sc \<in> set (rd_scopes rs)" "walk_scope noun item service rs sc s = Some (Inr s')" "P s"
    for service sc s s'
  proof -
    have "P s'" if "d \<in> set (sd_items sc)" "item service rs sc d s = Some (Inr s')" "P s" for d s s'
      using that \<open>sc \<in> set (rd_scopes rs)\<close> rs(1)
      by (intro item [of d service rs sc s s']) (auto simp: request_items_def)
    with that(2,3) show ?thesis
      by (auto simp: walk_scope_def split: option.splits elim!: each_inv)
  qed
  with rs(2,3) show "P s'"
    by (auto simp: walk_resource_def split: option.splits elim!: each_inv)
qed (rule assms(2))

text \<open>What the surroundings are relied on for: a digest of 32 bytes, numbers in JSON documents.\<close>

definition sound_env :: "(string \<Rightarrow> bool) \<Rightarrow> (string \<Rightarrow> bool) \<Rightarrow> export_env \<Rightarrow> bool" where
  "sound_env num jv env \<longleftrightarrow>
     (\<forall>p. length (ee_sha env p) = 32) \<and> (\<forall>v. fine num 1000 v \<longrightarrow> jv (marshal v)) \<and>
     (\<forall>x. \<not> is_NaN x \<longrightarrow> \<not> is_Inf x \<longrightarrow> num (ee_fmt env x))"

text \<open>A marshaler whose documents, decoded, are JSON with numbers and at most 1000 levels.\<close>

definition sound_marshaler :: "(string \<Rightarrow> bool) \<Rightarrow> export_env \<Rightarrow> ('q \<Rightarrow> string result) \<Rightarrow> bool" where
  "sound_marshaler num env m \<longleftrightarrow>
     (\<forall>r p v. m r = Inr p \<longrightarrow> ee_decode env p = Inr v \<longrightarrow> fine num 1000 v)"

lemma canonical_payload_valid:
  assumes "sound_env num jv env" "sound_marshaler num env m"
    "canonicalPayload (ee_decode env) (m r) = Some (Inr payload)"
  shows "jv payload"
proof -
  from assms(3) obtain p v w where "m r = Inr p" "ee_decode env p = Inr v" "canonicalize [] v = Some w"
    "payload = marshal w"
    by (auto simp: canonicalPayload_def split: sum.splits)
  with assms(1,2) canonicalize_fine [of "[]" v w num 1000] show ?thesis
    by (auto simp: sound_env_def sound_marshaler_def)
qed

lemma log_body_valid:
  assumes "sound_env num jv env" "validateValue (ld_Body d) 0 = None"
  shows "jv (log_body env d)"
proof -
  have "nesting (ld_Body d) \<le> 16" using assms(2) by (simp add: validate_spec)
  then have "nesting (redactValue (ee_lower env) (ld_Body d)) \<le> 16"
    using nesting_redactValue order_trans by blast
  then have "fine num 1000 (taggedValue (ee_fmt env) (redactValue (ee_lower env) (ld_Body d)))"
    using assms(1) by (intro fine_mono [OF taggedValue_fine]) (auto simp: sound_env_def)
  with assms(1) show ?thesis by (simp add: sound_env_def log_body_def)
qed

lemma log_item_checks:
  assumes "sound_env num jv env" "sound_marshaler num env mlogs"
    "log_item env mlogs service rs sc d s = Some (Inr s')" "list_all (log_checks jv) (x_records s)"
  shows "list_all (log_checks jv) (x_records s')"
proof -
  from assms(3) obtain payload where "validateValue (ld_Body d) 0 = None"
    "marshalSingleLog env mlogs rs sc d = Some (Inr payload)"
    "x_records s' = x_records s @ [log_record env service d payload (log_body env d)]"
    by (auto simp: log_item_def Let_def split: option.splits sum.splits if_splits)
  with assms canonical_payload_valid [OF assms(1,2)] log_body_valid [OF assms(1)] show ?thesis
    by (simp add: log_checks_def log_record_def marshalSingleLog_def sound_env_def)
qed

lemma span_item_checks:
  assumes "sound_env num jv env" "sound_marshaler num env mspans"
    "length (sp_TraceID d) = 16" "length (sp_SpanID d) = 8"
    "span_item env mspans service rs sc d s = Some (Inr s')" "list_all (span_checks jv) (x_records s)"
  shows "list_all (span_checks jv) (x_records s')"
proof -
  from assms(5) obtain payload where "marshalSingleSpan env mspans rs sc d = Some (Inr payload)"
    "x_records s' = x_records s @ [span_record env service d payload]"
    by (auto simp: span_item_def Let_def split: option.splits sum.splits if_splits)
  with assms canonical_payload_valid [OF assms(1,2)] show ?thesis
    by (simp add: span_checks_def span_record_def marshalSingleSpan_def sound_env_def)
qed

lemma projection_types:
  "d \<noteq> EmptyData \<Longrightarrow> m_MetricType (projectMetricPoint d i) \<in> set metric_types \<and>
     (m_NumberKind (projectMetricPoint d i) = [] \<or> m_NumberKind (projectMetricPoint d i) \<in> {''int'', ''double''})"
  by (cases d) (auto simp: metric_types_def projectNumberPoint_def empty_point_def Let_def split: Number.splits)

lemma point_item_checks:
  assumes "sound_env num jv env" "sound_marshaler num env mm" "mt_Data m \<noteq> EmptyData"
    "point_item env mm service rs sc m i s = Some (Inr s')" "list_all (metric_checks jv) (x_records s)"
  shows "list_all (metric_checks jv) (x_records s')"
proof -
  from assms(4) obtain payload where p: "marshalSingleMetricPoint env mm rs sc m i = Some (Inr payload)"
    "x_records s' = x_records s @ [point_record env service m i payload]"
    by (auto simp: point_item_def Let_def split: option.splits sum.splits if_splits)
  from p(1) have "jv payload"
    using canonical_payload_valid [OF assms(1,2)]
    by (auto simp: marshalSingleMetricPoint_def split: option.splits)
  with assms p(2) projection_types [OF assms(3)] show ?thesis
    by (simp add: metric_checks_def point_record_def sound_env_def)
qed

lemma metric_item_checks:
  assumes "sound_env num jv env" "sound_marshaler num env mm"
    "metric_item env mm service rs sc m s = Some (Inr s')" "list_all (metric_checks jv) (x_records s)"
  shows "list_all (metric_checks jv) (x_records s')"
proof -
  from assms(3) have "mt_Data m \<noteq> EmptyData"
    "each (point_item env mm service rs sc m) [0..<metricDataPointCount (mt_Data m)] s = Some (Inr s')"
    by (auto simp: metric_item_def split: if_splits option.splits)
  from this(2) assms(4) point_item_checks [OF assms(1,2) this(1)] show ?thesis
    by (rule each_inv [where P = "\<lambda>s. list_all (metric_checks jv) (x_records s)"])
qed


end
