(* ===== verification/ExportWitnesses.thy ===== *)
theory ExportWitnesses
  imports ExportRetry ExportSchema StoreWitnesses
begin

text \<open>
  The export properties at requests of one item with a password among its attributes, an open
  store and a marshaler that always writes the same document.
\<close>

definition plain_env :: export_env where
  "plain_env = \<lparr>ee_now = 7, ee_ctx = (\<lambda>_. None), ee_lower = (\<lambda>s. s), ee_sha = (\<lambda>p. replicate 32 CHR ''f''),
     ee_decode = (\<lambda>_. Inr JNull), ee_fmt = (\<lambda>_. ''0'')\<rparr>"

definition one_request :: "'d \<Rightarrow> 'd Resourced list" where
  "one_request d =
     [\<lparr>rd_resource = \<lparr>r_attributes = [], r_dropped = 0\<rparr>, rd_url = [],
       rd_scopes = [\<lparr>sd_scope = \<lparr>scope_name = [], scope_version = [], scope_attributes = [], scope_dropped = 0\<rparr>,
         sd_url = [], sd_items = [d]\<rparr>]\<rparr>]"

definition password_log :: "string \<Rightarrow> u64 \<Rightarrow> LogData" where
  "password_log p t =
     \<lparr>ld_Timestamp = t, ld_Observed = 0, ld_SeverityNumber = 9, ld_SeverityText = ''INFO'', ld_Body = VEmpty,
      ld_Attributes = [(''password'', VStr p)], ld_Dropped = 0, ld_Flags = 0, ld_TraceID = [], ld_SpanID = [],
      ld_EventName = ''login''\<rparr>"

lemma each_single: "each f [x] st = f x st"
  by (simp split: option.split sum.split)

lemma no_attributes: "validateMap [] = None" "service_name [] = ''unknown_service''"
  by (simp_all add: validateMap_spec service_name_def attributeString_def)

lemma one_request_walk:
  "walk noun item (one_request d) =
     item ''unknown_service'' (hd (one_request d)) (hd (rd_scopes (hd (one_request d)))) d export_start"
  by (simp add: walk_def one_request_def walk_resource_def walk_scope_def no_attributes each_single del: each.simps)

lemma one_request_counts: "item_count (one_request d) = 1" "request_items (one_request d) = [d]"
  by (simp_all add: item_count_def request_items_def one_request_def)

lemma valid_one_request: "valid_request ok (one_request d) = ok d"
  by (simp add: valid_request_def one_request_def validateMap_spec)

lemma redact_one_request: "redact_request ul h (one_request d) = one_request (h d)"
  by (simp add: redact_request_def redact_resourced_def redact_scoped_def one_request_def
      redact_resource_def redact_scope_def redactMap_def)

lemma password_sensitive: "isSensitiveKey ul ''password''"
  by code_simp

lemma redact_password_log: "redact_log ul (password_log p t) = password_log ''[REDACTED]'' t"
  by (simp add: redact_log_def password_log_def redactMap_def password_sensitive redacted_def)

lemma valid_password_log: "length p \<le> mib \<Longrightarrow> valid_log (password_log p t)"
  by (simp add: valid_log_def password_log_def validateMap_spec validate_spec)


lemma password_item:
  "\<exists>st. walk ''log'' (log_item plain_env (\<lambda>_. Inr ''x'')) (one_request (password_log ''hunter2'' 5)) = Some (Inr st) \<and>
     x_records st = [log_record plain_env ''unknown_service'' (password_log ''hunter2'' 5) ''null''
       (log_body plain_env (password_log ''hunter2'' 5))]"
proof -
  let ?d = "password_log ''hunter2'' 5"
  have "length (log_body plain_env ?d) \<le> 100"
    by (simp add: log_body_def password_log_def) code_simp
  moreover have "marshalSingleLog plain_env (\<lambda>_. Inr ''x'') rs sc ?d = Some (Inr ''null'')" for rs sc
    by (simp add: marshalSingleLog_def canonicalPayload_def plain_env_def)
  moreover have "valid_log ?d" by (simp add: valid_password_log)
  moreover have "ld_Timestamp ?d = 5" "ee_ctx plain_env i = None" for i
    by (simp_all add: password_log_def plain_env_def)
  ultimately show ?thesis
    by (simp add: one_request_walk log_item_def export_start_def maxPersistedRequestBytes_def valid_log_def
        max_timestamp_def Let_def)
qed

lemma insert_checked_log:
  assumes "log_checks (\<lambda>_. True) r"
  shows "InsertLogs (\<lambda>_. True) calm_writes [r] (open_store empty_database) =
     (Inr (), (open_store empty_database)
        \<lparr>db := Some (empty_database\<lparr>otel_logs := [log_row_of 1 r]\<rparr>), committedLogs := 1\<rparr>)"
  using assms by (simp add: InsertLogs_def run_insert_def insert_locked_def roomy_admits open_store_state
        calm_calls log_step_def log_insert_def next_rowid_def put_logs_def add_logs_def empty_database_def)

lemma password_export:
  "\<exists>s'. ConsumeLogs plain_env (\<lambda>_. Inr ''x'') (\<lambda>_. True) calm_writes (one_request (password_log ''hunter2'' 5))
     (open_store empty_database) = Some (None, s') \<and> committedLogs s' = 1"
proof -
  obtain st where st: "walk ''log'' (log_item plain_env (\<lambda>_. Inr ''x'')) (one_request (password_log ''hunter2'' 5)) =
      Some (Inr st)" "x_records st = [log_record plain_env ''unknown_service'' (password_log ''hunter2'' 5) ''null''
      (log_body plain_env (password_log ''hunter2'' 5))]"
    using password_item by blast
  have "log_checks (\<lambda>_. True) (log_record plain_env ''unknown_service'' (password_log ''hunter2'' 5) ''null''
      (log_body plain_env (password_log ''hunter2'' 5)))"
    by (simp add: log_checks_def log_record_def plain_env_def)
  from insert_checked_log [OF this] st show ?thesis
    by (simp add: ConsumeLogs_def one_request_counts)
qed

theorem exporters_errors_witness:
  "\<forall>u. ConsumeLogs plain_env (\<lambda>_. Inr ''x'') (\<lambda>_. True) calm_writes
         (one_request (password_log ''hunter2'' 9223372036854775808)) u =
       Some (Some (invalid ''log timestamp exceeds SQLite integer range''), u)"
proof -
  let ?logs = "one_request (password_log ''hunter2'' 9223372036854775808)"
  have "ConsumeLogs plain_env (\<lambda>_. Inr ''x'') (\<lambda>_. True) calm_writes ?logs (open_store empty_database) =
      Some (Some (invalid ''log timestamp exceeds SQLite integer range''), open_store empty_database)"
    by (simp add: ConsumeLogs_def one_request_counts one_request_walk log_item_def plain_env_def password_log_def
        max_timestamp_def)
  with exporters_errors [where logs = ?logs and env = plain_env and mlogs = "\<lambda>_. Inr ''x''" and jv = "\<lambda>_. True"
      and wenv = calm_writes and s = "open_store empty_database" and s' = "open_store empty_database"
      and e = "invalid ''log timestamp exceeds SQLite integer range''"]
  show ?thesis by (auto simp: invalid_def)
qed

theorem accepted_exports_are_bounded_witness:
  "\<exists>rs s'. InsertLogs (\<lambda>_. True) calm_writes rs (open_store empty_database) = (Inr (), s') \<and> length rs = 1 \<and>
     sum_list (map log_bytes rs) \<le> 64 * mib"
proof -
  obtain s' where "ConsumeLogs plain_env (\<lambda>_. Inr ''x'') (\<lambda>_. True) calm_writes
      (one_request (password_log ''hunter2'' 5)) (open_store empty_database) = Some (None, s')"
    using password_export by blast
  with accepted_exports_are_bounded [where logs = "one_request (password_log ''hunter2'' 5)" and env = plain_env
      and mlogs = "\<lambda>_. Inr ''x''" and jv = "\<lambda>_. True" and wenv = calm_writes
      and s = "open_store empty_database" and s' = s']
  show ?thesis unfolding one_request_counts by blast
qed

theorem retries_store_nothing_twice_witness:
  "\<exists>s1. ConsumeLogs plain_env (\<lambda>_. Inr ''x'') (\<lambda>_. True) calm_writes (one_request (password_log ''hunter2'' 5))
       (open_store empty_database) = Some (None, s1) \<and> committedLogs s1 = 1 \<and>
     (\<forall>a s2. ConsumeLogs (later 99 (\<lambda>_. None) plain_env) (\<lambda>_. Inr ''x'') (\<lambda>_. True) calm_writes
       (one_request (password_log ''hunter2'' 5)) s1 \<noteq> Some (a, s2) \<or> same_data s1 s2)"
proof -
  obtain s1 where s1: "ConsumeLogs plain_env (\<lambda>_. Inr ''x'') (\<lambda>_. True) calm_writes
      (one_request (password_log ''hunter2'' 5)) (open_store empty_database) = Some (None, s1)" "committedLogs s1 = 1"
    using password_export by blast
  then show ?thesis
    using retries_store_nothing_twice [where logs = "one_request (password_log ''hunter2'' 5)" and env = plain_env
        and mlogs = "\<lambda>_. Inr ''x''" and jv = "\<lambda>_. True" and wenv = calm_writes
        and s = "open_store empty_database" and now = 99 and ctx = "\<lambda>_. None" and wenv' = calm_writes and ?s1.0 = s1]
    by blast
qed


end
