(* ===== verification/Ownership.thy ===== *)
theory Ownership
  imports StoreCore
begin

text \<open>
  Ownership of a database (\<^verbatim>\<open>internal/store/ownership.go\<close>): the checks of the files, the
  lock file with its advisory lock, \<open>lsof\<close>, the removal of a database and \<open>Reset\<close>.
  Files are a map from paths; locks belong to inodes, as \<open>flock\<close> locks do.
\<close>

section \<open>Files and locks\<close>

datatype file_kind = Regular | Symlink | Special

record file_entry =
  f_inode :: nat
  f_kind :: file_kind
  f_links :: nat
  f_bytes :: string

type_synonym files = "string \<Rightarrow> file_entry option"

text \<open>\<open>mc_locks\<close> gives the process that holds the exclusive lock of an inode.\<close>

record machine =
  mc_files :: files
  mc_locks :: "nat \<Rightarrow> nat option"
  mc_next :: nat

text \<open>What \<open>lsof\<close> yields: its output, the error of its deadline, its own error with an exit code.\<close>

record lsof_run =
  ls_output :: string
  ls_deadline :: "go_error option"
  ls_err :: "(go_error \<times> int option) option"

text \<open>The outcome of each call that may fail for reasons outside the files.\<close>

record os_env =
  oe_lstat :: "string \<Rightarrow> go_error option"
  oe_stat :: "string \<Rightarrow> go_error option"
  oe_mkdir :: "go_error option"
  oe_open_lock :: "go_error option"
  oe_flock :: "go_error option"
  oe_lsof :: "string list \<Rightarrow> lsof_run"
  oe_remove :: "string \<Rightarrow> go_error option"

definition lock_path :: "string \<Rightarrow> string" where
  "lock_path path = path @ ''.lock''"

definition database_files :: "string \<Rightarrow> string list" where
  "database_files path = [path, path @ ''-wal'', path @ ''-shm'']"

text \<open>\<open>os.Stat\<close> (and \<open>os.Lstat\<close>): no file is \<open>os.ErrNotExist\<close>.\<close>

definition stat_file :: "(string \<Rightarrow> go_error option) \<Rightarrow> files \<Rightarrow> string \<Rightarrow> file_entry option result" where
  "stat_file err fs c = (case err c of Some e \<Rightarrow> Inl e | None \<Rightarrow> Inr (fs c))"

section \<open>Checks\<close>

fun existing_files :: "os_env \<Rightarrow> files \<Rightarrow> string list \<Rightarrow> string list result" where
  "existing_files env fs [] = Inr []"
| "existing_files env fs (c # cs) =
     (case stat_file (oe_stat env) fs c of
        Inl e \<Rightarrow> Inl e
      | Inr None \<Rightarrow> existing_files env fs cs
      | Inr (Some _) \<Rightarrow> (case existing_files env fs cs of Inl e \<Rightarrow> Inl e | Inr xs \<Rightarrow> Inr (c # xs)))"

definition rejectOpenDescriptors :: "os_env \<Rightarrow> string \<Rightarrow> files \<Rightarrow> go_error option" where
  "rejectOpenDescriptors env path fs =
     (case existing_files env fs (database_files path) of
        Inl e \<Rightarrow> Some e
      | Inr candidates \<Rightarrow>
          if candidates = [] then None
          else (let run = oe_lsof env candidates in
            if ls_output run \<noteq> []
            then Some (Msg (''refuse telemetry database already open by another process: '' @ path))
            else (case ls_deadline run of
                Some e \<Rightarrow> Some (WrapErr (''inspect open descriptors for '' @ path @ '': '') e [])
              | None \<Rightarrow>
                  (case ls_err run of
                     None \<Rightarrow> None
                   | Some (e, exit) \<Rightarrow>
                       if exit = Some 1 then None
                       else Some (WrapErr (''inspect open descriptors for '' @ path @ '': '') e [])))))"

fun check_candidates :: "os_env \<Rightarrow> files \<Rightarrow> string list \<Rightarrow> go_error option" where
  "check_candidates env fs [] = None"
| "check_candidates env fs (c # cs) =
     (case stat_file (oe_lstat env) fs c of
        Inl e \<Rightarrow> Some e
      | Inr None \<Rightarrow> check_candidates env fs cs
      | Inr (Some f) \<Rightarrow>
          if f_kind f = Symlink then Some (Msg (''refuse symlinked telemetry file '' @ c))
          else if f_kind f \<noteq> Regular then Some (Msg (''refuse non-regular telemetry file '' @ c))
          else if f_links f > 1 then Some (Msg (''refuse hard-linked telemetry file '' @ c))
          else check_candidates env fs cs)"

section \<open>The lock\<close>

text \<open>\<open>os.OpenFile\<close> with \<open>O_CREATE\<close>: the inode behind the lock path.\<close>

definition open_lock :: "string \<Rightarrow> machine \<Rightarrow> nat \<times> machine" where
  "open_lock path m =
     (case mc_files m (lock_path path) of
        Some f \<Rightarrow> (f_inode f, m)
      | None \<Rightarrow>
          (mc_next m,
           m\<lparr>mc_files := (mc_files m)(lock_path path \<mapsto>
               \<lparr>f_inode = mc_next m, f_kind = Regular, f_links = 1, f_bytes = []\<rparr>),
             mc_next := Suc (mc_next m)\<rparr>))"

text \<open>\<open>flock\<close> with \<open>LOCK_EX | LOCK_NB\<close>\<close>

definition try_flock :: "nat \<Rightarrow> nat \<Rightarrow> machine \<Rightarrow> machine option" where
  "try_flock pid i m =
     (case mc_locks m i of
        None \<Rightarrow> Some (m\<lparr>mc_locks := (mc_locks m)(i \<mapsto> pid)\<rparr>)
      | Some _ \<Rightarrow> None)"

text \<open>The lock file stays: competing owners must lock the same inode.\<close>

definition releaseOwnership :: "string \<Rightarrow> nat \<Rightarrow> machine \<Rightarrow> machine" where
  "releaseOwnership path i m = m\<lparr>mc_locks := (mc_locks m)(i := None)\<rparr>"

definition would_block :: go_error where
  "would_block = OsError ''resource temporarily unavailable''"

text \<open>The locked inode that becomes \<open>lockFile\<close>, or the error.\<close>

definition acquireOwnership :: "os_env \<Rightarrow> nat \<Rightarrow> string \<Rightarrow> machine \<Rightarrow> nat result \<times> machine" where
  "acquireOwnership env pid path m =
     (case check_candidates env (mc_files m) (database_files path @ [lock_path path]) of
        Some e \<Rightarrow> (Inl e, m)
      | None \<Rightarrow>
     (case oe_open_lock env of
        Some e \<Rightarrow> (Inl e, m)
      | None \<Rightarrow>
     (let (i, m) = open_lock path m;
          busy = (\<lambda>e. WrapErr (''another Logal process owns '' @ path @ '': '') e [])
      in (case oe_flock env of
        Some e \<Rightarrow> (Inl (busy e), m)
      | None \<Rightarrow>
     (case try_flock pid i m of
        None \<Rightarrow> (Inl (busy would_block), m)
      | Some m \<Rightarrow>
     (case rejectOpenDescriptors env path (mc_files m) of
        Some e \<Rightarrow> (Inl e, releaseOwnership path i m)
      | None \<Rightarrow> (Inr i, m)))))))"

section \<open>Removal\<close>

fun remove_files :: "os_env \<Rightarrow> string list \<Rightarrow> files \<Rightarrow> go_error option \<times> files" where
  "remove_files env [] fs = (None, fs)"
| "remove_files env (c # cs) fs =
     (case fs c of
        None \<Rightarrow> remove_files env cs fs
      | Some _ \<Rightarrow>
          (case oe_remove env c of
             Some e \<Rightarrow> (Some e, fs)
           | None \<Rightarrow> remove_files env cs (fs(c := None))))"

definition removeDatabase :: "os_env \<Rightarrow> string \<Rightarrow> machine \<Rightarrow> go_error option \<times> machine" where
  "removeDatabase env path m =
     (case rejectOpenDescriptors env path (mc_files m) of
        Some e \<Rightarrow> (Some e, m)
      | None \<Rightarrow>
          (let (r, fs) = remove_files env (database_files path) (mc_files m)
           in (r, m\<lparr>mc_files := fs\<rparr>)))"

definition Reset :: "os_env \<Rightarrow> nat \<Rightarrow> string \<Rightarrow> machine \<Rightarrow> go_error option \<times> machine" where
  "Reset env pid path m =
     (if path = [] then (Some (Msg ''database path is required''), m)
      else (case oe_mkdir env of
        Some e \<Rightarrow> (Some e, m)
      | None \<Rightarrow>
     (case acquireOwnership env pid path m of
        (Inl e, m) \<Rightarrow> (Some e, m)
      | (Inr i, m) \<Rightarrow>
          (let (r, m) = removeDatabase env path m in (r, releaseOwnership path i m)))))"

lemma lock_path_apart: "lock_path path \<notin> set (database_files path)"
  by (simp add: lock_path_def database_files_def)

lemma remove_files_frame: "c \<notin> set cs \<Longrightarrow> snd (remove_files env cs fs) c = fs c"
  by (induction env cs fs rule: remove_files.induct) (auto split: option.splits)

lemma removeDatabase_frame:
  "removeDatabase env path m = (r, m') \<Longrightarrow>
     mc_locks m' = mc_locks m \<and> mc_next m' = mc_next m \<and>
     (\<forall>c. c \<notin> set (database_files path) \<longrightarrow> mc_files m' c = mc_files m c)"
  using remove_files_frame
  by (auto simp: removeDatabase_def split: option.splits prod.splits) (metis snd_conv)

section \<open>Competing processes\<close>

text \<open>
  What a process holds of one database: nothing, the open lock file, the lock, or the lock
  after all checks, when it may change the database. Handles refer to inodes.
\<close>

datatype handle = Closed | Opened nat | Locked nat | Owning nat

record world =
  w_machine :: machine
  w_handle :: "nat \<Rightarrow> handle"

text \<open>
  The system calls of processes that start, run, reset, stop or crash, in any interleaving.
  Any program may change any file at any time, except that none but the program itself
  touches the lock path, and the program changes database files only while it owns them.
\<close>

inductive own_step :: "string \<Rightarrow> world \<Rightarrow> world \<Rightarrow> bool" for path where
  open_file: "w_handle w p = Closed \<Longrightarrow> open_lock path (w_machine w) = (i, m) \<Longrightarrow>
     own_step path w (w\<lparr>w_machine := m, w_handle := (w_handle w)(p := Opened i)\<rparr>)"
| lock: "w_handle w p = Opened i \<Longrightarrow> try_flock p i (w_machine w) = Some m \<Longrightarrow>
     own_step path w (w\<lparr>w_machine := m, w_handle := (w_handle w)(p := Locked i)\<rparr>)"
| give_up: "w_handle w p = Opened i \<Longrightarrow>
     own_step path w (w\<lparr>w_handle := (w_handle w)(p := Closed)\<rparr>)"
| check: "w_handle w p = Locked i \<Longrightarrow>
     own_step path w (w\<lparr>w_handle := (w_handle w)(p := Owning i)\<rparr>)"
| remove: "w_handle w p = Owning i \<Longrightarrow> removeDatabase env path (w_machine w) = (r, m) \<Longrightarrow>
     own_step path w (w\<lparr>w_machine := m\<rparr>)"
| release: "w_handle w p = Locked i \<or> w_handle w p = Owning i \<Longrightarrow>
     own_step path w (w\<lparr>w_machine := releaseOwnership path i (w_machine w),
       w_handle := (w_handle w)(p := Closed)\<rparr>)"
| crash: "own_step path w (w\<lparr>w_machine := (w_machine w)
       \<lparr>mc_locks := (\<lambda>i. if mc_locks (w_machine w) i = Some p then None else mc_locks (w_machine w) i)\<rparr>,
       w_handle := (w_handle w)(p := Closed)\<rparr>)"
| other_files: "c \<noteq> lock_path path \<Longrightarrow>
     own_step path w (w\<lparr>w_machine := (w_machine w)\<lparr>mc_files := (mc_files (w_machine w))(c := f)\<rparr>\<rparr>)"

fun handle_inode :: "handle \<Rightarrow> nat option" where
  "handle_inode Closed = None"
| "handle_inode (Opened i) = Some i"
| "handle_inode (Locked i) = Some i"
| "handle_inode (Owning i) = Some i"

definition holds :: "world \<Rightarrow> nat \<Rightarrow> nat \<Rightarrow> bool" where
  "holds w p i \<longleftrightarrow> w_handle w p = Locked i \<or> w_handle w p = Owning i"

text \<open>All open handles are the inode of the lock path, and the lock table is what the processes hold.\<close>

definition own_inv :: "string \<Rightarrow> world \<Rightarrow> bool" where
  "own_inv path w \<longleftrightarrow>
     (\<forall>p i. handle_inode (w_handle w p) = Some i \<longrightarrow>
        map_option f_inode (mc_files (w_machine w) (lock_path path)) = Some i) \<and>
     (\<forall>p i. mc_locks (w_machine w) i = Some p \<longleftrightarrow> holds w p i)"

definition idle_world :: "machine \<Rightarrow> world" where
  "idle_world m = \<lparr>w_machine = m, w_handle = (\<lambda>_. Closed)\<rparr>"

lemma own_inv_idle: "(\<forall>i. mc_locks m i = None) \<Longrightarrow> own_inv path (idle_world m)"
  by (simp add: own_inv_def idle_world_def holds_def)

lemma own_inv_handle: "own_inv path w \<Longrightarrow> handle_inode (w_handle w p) = Some i \<Longrightarrow>
    map_option f_inode (mc_files (w_machine w) (lock_path path)) = Some i"
  by (simp add: own_inv_def)

lemma own_inv_lock: "own_inv path w \<Longrightarrow> mc_locks (w_machine w) i = Some p \<longleftrightarrow> holds w p i"
  by (simp add: own_inv_def)

lemma holds_unique: "own_inv path w \<Longrightarrow> holds w p i \<Longrightarrow> holds w q i \<Longrightarrow> p = q"
  using own_inv_lock [of path w i p] own_inv_lock [of path w i q] by simp

lemma own_step_inv: "own_step path w w' \<Longrightarrow> own_inv path w \<Longrightarrow> own_inv path w'"
proof (induction rule: own_step.induct)
  case (open_file w p i m)
  have closed: "\<not> holds w p j" for j using open_file(1) by (simp add: holds_def)
  show ?case
  proof (cases "mc_files (w_machine w) (lock_path path)")
    case None
    then have "handle_inode (w_handle w q) = None" for q
      using own_inv_handle [OF open_file(3), of q] by (cases "handle_inode (w_handle w q)") auto
    with None open_file closed show ?thesis
      by (auto simp: own_inv_def open_lock_def holds_def)
  next
    case (Some f)
    with open_file closed show ?thesis by (auto simp: own_inv_def open_lock_def holds_def)
  qed
next
  case (lock w p i m)
  then have "mc_locks (w_machine w) i = None" by (simp add: try_flock_def split: option.splits)
  then have "\<not> holds w q i" for q using own_inv_lock [OF lock(3), of i q] by simp
  moreover obtain f where "mc_files (w_machine w) (lock_path path) = Some f" "f_inode f = i"
    using own_inv_handle [OF lock(3), of p i] lock(1) by auto
  ultimately show ?case using lock
    by (auto simp: own_inv_def try_flock_def holds_def split: option.splits if_splits)
next
  case (give_up w p i)
  then show ?case by (auto simp: own_inv_def holds_def)
next
  case (check w p i)
  moreover obtain f where "mc_files (w_machine w) (lock_path path) = Some f" "f_inode f = i"
    using own_inv_handle [OF check(2), of p i] check(1) by auto
  ultimately show ?case by (auto simp: own_inv_def holds_def)
next
  case (remove w p i env r m)
  from removeDatabase_frame [OF remove(2)] have "mc_locks m = mc_locks (w_machine w)"
    "mc_files m (lock_path path) = mc_files (w_machine w) (lock_path path)"
    using lock_path_apart by auto
  with remove(3) show ?case by (auto simp: own_inv_def holds_def)
next
  case (release w p i)
  then have "holds w p i" by (simp add: holds_def)
  then have "holds w q i \<longleftrightarrow> q = p" for q
    using own_inv_lock [OF release(2)] by (metis option.inject)
  moreover have "j = i" if "holds w p j" for j
    using that release(1) by (auto simp: holds_def)
  ultimately show ?case using release(2)
    by (auto simp: own_inv_def releaseOwnership_def holds_def)
next
  case (crash w p)
  then have "q = p" if "holds w p i" "holds w q i" for q i using that holds_unique by blast
  with crash show ?case unfolding own_inv_def holds_def by auto
next
  case (other_files c w f)
  then show ?case by (auto simp: own_inv_def holds_def)
qed

lemma own_run_inv: "(own_step path)\<^sup>*\<^sup>* w w' \<Longrightarrow> own_inv path w \<Longrightarrow> own_inv path w'"
  by (induction rule: rtranclp_induct) (auto intro: own_step_inv)

text \<open>
  C36. However any number of processes open, lock, check, reset, release and crash, at most one
  of them holds a database at a time, and it holds the lock of the inode that every later
  process will find at the lock path: releasing never removes the lock file.
\<close>

theorem ownership_is_exclusive:
  assumes "(own_step path)\<^sup>*\<^sup>* (idle_world m) w" "\<forall>i. mc_locks m i = None"
  shows "(\<forall>p q i j. holds w p i \<and> holds w q j \<longrightarrow> p = q \<and> i = j) \<and>
    (\<forall>p i. holds w p i \<longrightarrow> fst (open_lock path (w_machine w)) = i \<and> mc_locks (w_machine w) i = Some p)"
proof -
  have inv: "own_inv path w" by (rule own_run_inv [OF assms(1) own_inv_idle [OF assms(2)]])
  have lock_inode: "map_option f_inode (mc_files (w_machine w) (lock_path path)) = Some i" if "holds w p i" for p i
    using own_inv_handle [OF inv, of p i] that by (auto simp: holds_def)
  have locked: "mc_locks (w_machine w) i = Some p" if "holds w p i" for p i
    using own_inv_lock [OF inv] that by simp
  have "p = q \<and> i = j" if "holds w p i" "holds w q j" for p q i j
    using lock_inode [OF that(1)] lock_inode [OF that(2)] locked [OF that(1)] locked [OF that(2)] by auto
  moreover have "fst (open_lock path (w_machine w)) = i" if "holds w p i" for p i
    using lock_inode [OF that] by (auto simp: open_lock_def)
  ultimately show ?thesis using locked by blast
qed

text \<open>\<open>acquireOwnership\<close> of a closed process is a run of these steps that ends in owning or closed.\<close>

lemma ownership_run:
  assumes "acquireOwnership env p path (w_machine w) = (r, m)" "w_handle w p = Closed" "own_inv path w"
  shows "(own_step path)\<^sup>*\<^sup>* w (w\<lparr>w_machine := m,
    w_handle := (w_handle w)(p := case r of Inl _ \<Rightarrow> Closed | Inr i \<Rightarrow> Owning i)\<rparr>)"
proof -
  let ?w = "\<lambda>m h. w\<lparr>w_machine := m, w_handle := (w_handle w)(p := h)\<rparr>"
  have same: "w\<lparr>w_handle := (w_handle w)(p := Closed)\<rparr> = w" using assms(2) by (cases w) (simp add: fun_upd_idem)
  obtain i m1 where open_it: "open_lock path (w_machine w) = (i, m1)" by fastforce
  have s1: "own_step path w (?w m1 (Opened i))" using assms(2) open_it by (rule open_file)
  have s2: "own_step path (?w m1 (Opened i)) (?w m1 Closed)"
    using give_up [of "?w m1 (Opened i)" p i path] by simp
  have s3: "own_step path (?w m1 (Opened i)) (?w m2 (Locked i))" if "try_flock p i m1 = Some m2" for m2
    using lock [of "?w m1 (Opened i)" p i m2 path] that by simp
  have s4: "own_step path (?w m2 (Locked i)) (?w m2 (Owning i))" for m2
    using check [of "?w m2 (Locked i)" p i path] by simp
  have s5: "own_step path (?w m2 (Locked i)) (?w (releaseOwnership path i m2) Closed)" for m2
    using release [of "?w m2 (Locked i)" p i path] by simp
  consider (failed) e where "r = Inl e" "m = w_machine w"
    | (busy) e where "r = Inl e" "m = m1"
    | (rejected) e m2 where "r = Inl e" "try_flock p i m1 = Some m2" "m = releaseOwnership path i m2"
    | (owned) "r = Inr i" "try_flock p i m1 = Some m"
    using assms(1) open_it
    by (auto simp: acquireOwnership_def split: option.splits)
  then show ?thesis
  proof cases
    case failed
    then show ?thesis by (simp add: same)
  next
    case busy
    then show ?thesis using s1 s2 by (simp add: converse_rtranclp_into_rtranclp)
  next
    case (rejected e m2)
    then show ?thesis using s1 s3 [OF rejected(2)] s5 [of m2]
      by (auto intro: converse_rtranclp_into_rtranclp)
  next
    case owned
    then show ?thesis using s1 s3 [OF owned(2)] s4 [of m]
      by (auto intro: converse_rtranclp_into_rtranclp)
  qed
qed

end
