(* ===== verification/SqliteUri.thy ===== *)
theory SqliteUri
  imports GoText
begin

text \<open>
  The names under which the program opens databases (\<open>sqliteURI\<close> in
  \<^verbatim>\<open>internal/store/schema.go\<close>): the path, escaped by \<open>net/url\<close>, and the options of the
  driver. A reader of such names shows that the two are kept apart.
\<close>

section \<open>Escaping\<close>

text \<open>The bytes that \<open>url.URL.EscapedPath\<close> leaves as they are.\<close>

definition path_plain :: "char \<Rightarrow> bool" where
  "path_plain c \<longleftrightarrow>
     (let n = byte c in 48 \<le> n \<and> n \<le> 57 \<or> 65 \<le> n \<and> n \<le> 90 \<or> 97 \<le> n \<and> n \<le> 122) \<or>
     c \<in> set ''-_.~$&+,/:;=@''"

definition hex_upper :: "nat \<Rightarrow> char" where
  "hex_upper n = (if n < 10 then char_of (48 + n) else char_of (55 + n))"

definition path_escape_byte :: "char \<Rightarrow> string" where
  "path_escape_byte c =
     (if path_plain c then [c] else [CHR ''%'', hex_upper (byte c div 16), hex_upper (byte c mod 16)])"

definition escaped_path :: "string \<Rightarrow> string" where
  "escaped_path p = (if p = ''*'' then p else concat (map path_escape_byte p))"

text \<open>\<open>URL.String\<close> of a URL with the scheme \<open>file\<close>, no host, a path and a raw query.\<close>

definition file_url :: "string \<Rightarrow> string \<Rightarrow> string" where
  "file_url p query =
     ''file:'' @ (if p = [] then [] else ''//'') @ escaped_path p @ (if query = [] then [] else ''?'' @ query)"

text \<open>\<open>absolute\<close> is \<open>filepath.Abs\<close>, which fails without a working directory.\<close>

definition sqliteURI :: "(string \<Rightarrow> string result) \<Rightarrow> string \<Rightarrow> string \<Rightarrow> string" where
  "sqliteURI absolute path options =
     file_url (case absolute path of Inl _ \<Rightarrow> path | Inr p \<Rightarrow> p) options"

section \<open>Reading a name\<close>

text \<open>
  A file URI as SQLite documents it: an empty authority, the path up to the first question or
  hash mark with its percent escapes decoded, and the options behind the question mark.
\<close>

fun percent_decode :: "string \<Rightarrow> string" where
  "percent_decode [] = []"
| "percent_decode (c # cs) =
     (if c \<noteq> CHR ''%'' then c # percent_decode cs
      else (case cs of
          a # b # rest \<Rightarrow>
            (case (hex_value a, hex_value b) of
               (Some x, Some y) \<Rightarrow> char_of (16 * x + y) # percent_decode rest
             | _ \<Rightarrow> c # percent_decode cs)
        | _ \<Rightarrow> c # percent_decode cs))"

definition in_path :: "char \<Rightarrow> bool" where
  "in_path c \<longleftrightarrow> c \<noteq> CHR ''?'' \<and> c \<noteq> CHR ''#''"

definition read_uri :: "string \<Rightarrow> (string \<times> string) option" where
  "read_uri uri =
     (if take 8 uri \<noteq> ''file:///'' then None
      else Some (percent_decode (takeWhile in_path (drop 7 uri)), drop 1 (dropWhile in_path (drop 7 uri))))"

lemma hex_value_upper: "n < 16 \<Longrightarrow> hex_value (hex_upper n) = Some n"
  by (auto simp: hex_value_def hex_upper_def byte_char_of)

lemma plain_in_path: "path_plain c \<Longrightarrow> in_path c \<and> c \<noteq> CHR ''%''"
  by (auto simp: path_plain_def in_path_def byte_def)

lemma hex_upper_in_path: "n < 16 \<Longrightarrow> in_path (hex_upper n)"
  using hex_value_upper [of n] by (auto simp: in_path_def hex_value_def byte_def)

lemma byte_halves: "byte c div 16 < 16" "byte c mod 16 < 16"
  using byte_bound [of c] by simp_all

lemma escape_in_path: "list_all in_path (path_escape_byte c)"
proof -
  have "in_path (CHR ''%'')" by (simp add: in_path_def)
  then show ?thesis
    using byte_halves [of c] by (simp add: path_escape_byte_def plain_in_path hex_upper_in_path)
qed

lemma escaped_in_path: "list_all in_path (concat (map path_escape_byte p))"
  by (induction p) (use escape_in_path in auto)

lemma percent_decode_escape: "percent_decode (path_escape_byte c @ x) = c # percent_decode x"
proof (cases "path_plain c")
  case True
  then show ?thesis using plain_in_path by (simp add: path_escape_byte_def)
next
  case False
  then show ?thesis
    using hex_value_upper [OF byte_halves(1), of c] hex_value_upper [OF byte_halves(2), of c]
    by (simp add: path_escape_byte_def)
qed

lemma percent_decode_path: "percent_decode (concat (map path_escape_byte p)) = p"
  by (induction p) (simp_all add: percent_decode_escape del: percent_decode.simps(2))

section \<open>The path cannot become an option\<close>

text \<open>
  C14. The name under which a database is opened reads back as its absolute path and exactly the
  options the program passes, whatever bytes the path has: no question mark, hash mark or
  percent sign in a file name can add a driver option, drop \<open>mode=ro\<close>, or name another file.
\<close>

theorem sqliteURI_reads_back:
  assumes "absolute path = Inr p" "take 1 p = ''/''" "options \<noteq> []"
  shows "read_uri (sqliteURI absolute path options) = Some (p, options)"
proof -
  from assms(2) obtain q where p: "p = CHR ''/'' # q" by (cases p) auto
  have slash: "path_escape_byte (CHR ''/'') = ''/''"
    by (simp add: path_escape_byte_def path_plain_def)
  let ?e = "concat (map path_escape_byte p)"
  have uri: "sqliteURI absolute path options = ''file://'' @ ?e @ CHR ''?'' # options"
    using assms(1,3) unfolding sqliteURI_def file_url_def escaped_path_def by (simp add: p)
  have "take 8 (''file://'' @ ?e @ CHR ''?'' # options) = ''file:///''" unfolding p by (simp add: slash)
  moreover have "\<forall>c \<in> set ?e. in_path c" "\<not> in_path (CHR ''?'')"
    using escaped_in_path [of p] by (simp_all only: list_all_iff) (simp add: in_path_def)
  then have "takeWhile in_path (?e @ CHR ''?'' # options) = ?e"
    "dropWhile in_path (?e @ CHR ''?'' # options) = CHR ''?'' # options"
    by (simp_all add: takeWhile_append2 dropWhile_append2 del: set_concat)
  ultimately show ?thesis unfolding uri by (simp add: read_uri_def percent_decode_path)
qed

theorem sqliteURI_reads_back_witness:
  "let path = ''/tmp/a?mode=rw#%41 b'' in
   read_uri (sqliteURI Inr path ''mode=ro'') = Some (path, ''mode=ro'')"
  unfolding Let_def by (rule sqliteURI_reads_back) simp_all

end
