(* ===== verification/Schema.thy ===== *)
theory Schema
  imports Ownership SqliteUri
begin

text \<open>
  Opening the database (\<^verbatim>\<open>internal/store/schema.go\<close>) and starting the store
  (\<open>Start\<close>, \<open>probeWritePath\<close> in \<^verbatim>\<open>internal/store/store.go\<close>): whose
  database is it, is it current, may it be removed. What SQLite and the file calls yield are
  fields of \<open>sqlite_env\<close>; the bytes of a file are those it has when the store starts.
\<close>

section \<open>What SQLite reports\<close>

record sqlite_env =
  sq_open_file :: "go_error option"
  sq_read :: "go_error option"
  sq_mkdtemp :: "go_error option"
  sq_temp :: string
  sq_copy_open :: "string \<Rightarrow> go_error option"
  sq_copy_create :: "string \<Rightarrow> go_error option"
  sq_copy_bytes :: "string \<Rightarrow> go_error option"
  sq_copy_close :: "string \<Rightarrow> go_error option"
  sq_abs :: "string \<Rightarrow> string result"
  sq_open :: "string \<Rightarrow> go_error option"
  sq_wal_id :: "int result"
  sq_app_id :: "int result"
  sq_version :: "int result"
  sq_tables :: "int result"
  sq_telemetry :: "int result"
  sq_column_count :: "string \<Rightarrow> string list \<Rightarrow> int result"
  sq_stored_signature :: "string result"
  sq_objects :: "(string \<times> string \<times> string) list result"
  sq_quick_check :: "string result"
  sq_create :: "go_error option"
  sq_private :: "go_error option"
  sq_exec :: "string \<Rightarrow> go_error option"
  sq_new_objects :: "(string \<times> string \<times> string) list result"
  sq_store_signature :: "string \<Rightarrow> go_error option"
  sq_vacuum_mode :: "int result"
  sq_chmod :: "go_error option"
  sq_begin :: "go_error option"
  sq_probe :: "go_error option"
  sq_probe_count :: "go_error option"
  sq_rollback :: "go_error option"
  sq_sha :: "string \<Rightarrow> string"
  sq_contents :: database

definition applicationID :: int where
  "applicationID = 1280264012"

definition schemaVersion :: int where
  "schemaVersion = 7"

section \<open>Classification by the file header\<close>

definition sqlite_magic :: string where
  "sqlite_magic = ''SQLite format 3'' @ [CHR 0x00]"

text \<open>\<open>binary.BigEndian.Uint32\<close>\<close>

definition big_endian :: "string \<Rightarrow> int" where
  "big_endian s = foldl (\<lambda>n c. 256 * n + int (byte c)) 0 s"

definition copyInspectionFile :: "sqlite_env \<Rightarrow> string \<Rightarrow> string \<Rightarrow> go_error option" where
  "copyInspectionFile env sourcePath targetPath =
     (case sq_copy_open env sourcePath of
        Some e \<Rightarrow> Some e
      | None \<Rightarrow>
     (case sq_copy_create env targetPath of
        Some e \<Rightarrow> Some e
      | None \<Rightarrow>
     (case sq_copy_bytes env sourcePath of
        Some e \<Rightarrow> Some e
      | None \<Rightarrow> sq_copy_close env targetPath)))"

fun copy_inspection_files :: "sqlite_env \<Rightarrow> string \<Rightarrow> string \<Rightarrow> string list \<Rightarrow> go_error option" where
  "copy_inspection_files env path tempPath [] = None"
| "copy_inspection_files env path tempPath (suffix # rest) =
     (case copyInspectionFile env (path @ suffix) (tempPath @ suffix) of
        Some e \<Rightarrow> Some e
      | None \<Rightarrow> copy_inspection_files env path tempPath rest)"

text \<open>\<open>sq_temp\<close> is the path of the copy, in the directory that \<open>os.MkdirTemp\<close> made.\<close>

definition inspectWALApplicationID :: "sqlite_env \<Rightarrow> string \<Rightarrow> int result" where
  "inspectWALApplicationID env path =
     (case sq_mkdtemp env of
        Some e \<Rightarrow> Inl e
      | None \<Rightarrow>
     (case copy_inspection_files env path (sq_temp env) [[], ''-wal''] of
        Some e \<Rightarrow> Inl e
      | None \<Rightarrow>
     (case sq_open env (sqliteURI (sq_abs env) (sq_temp env) ''_busy_timeout=5000'') of
        Some e \<Rightarrow> Inl e
      | None \<Rightarrow> sq_wal_id env)))"

definition effective_app_id :: "os_env \<Rightarrow> sqlite_env \<Rightarrow> string \<Rightarrow> files \<Rightarrow> string \<Rightarrow> int result" where
  "effective_app_id os env path fs contents =
     (let appID = big_endian (take 4 (drop 68 contents)) in
      if appID \<noteq> 0 then Inr appID
      else (case stat_file (oe_stat os) fs (path @ ''-wal'') of
              Inl e \<Rightarrow> Inl e
            | Inr None \<Rightarrow> Inr appID
            | Inr (Some _) \<Rightarrow> inspectWALApplicationID env path))"

fun any_sidecar :: "os_env \<Rightarrow> files \<Rightarrow> string list \<Rightarrow> bool result" where
  "any_sidecar os fs [] = Inr False"
| "any_sidecar os fs (c # cs) =
     (case stat_file (oe_stat os) fs c of
        Inl e \<Rightarrow> Inl e
      | Inr (Some _) \<Rightarrow> Inr True
      | Inr None \<Rightarrow> any_sidecar os fs cs)"

text \<open>\<open>(owned, immutable)\<close>\<close>

definition classifyDatabaseForInspection ::
    "os_env \<Rightarrow> sqlite_env \<Rightarrow> string \<Rightarrow> files \<Rightarrow> (bool \<times> bool) result" where
  "classifyDatabaseForInspection os env path fs =
     (case sq_open_file env of
        Some e \<Rightarrow> Inl e
      | None \<Rightarrow>
     (case sq_read env of
        Some e \<Rightarrow> Inl e
      | None \<Rightarrow>
     (let contents = take 100 (case fs path of Some f \<Rightarrow> f_bytes f | None \<Rightarrow> []) in
      if contents = [] then Inr (True, True)
      else if length contents < 100 \<or> take 16 contents \<noteq> sqlite_magic then Inr (True, True)
      else (case effective_app_id os env path fs contents of
        Inl e \<Rightarrow> Inl e
      | Inr appID \<Rightarrow>
          if appID \<noteq> 0 \<and> appID \<noteq> applicationID then Inr (False, False)
          else if appID = 0
          then (case any_sidecar os fs [path @ ''-wal'', path @ ''-shm''] of
                  Inl e \<Rightarrow> Inl e
                | Inr True \<Rightarrow> Inr (False, False)
                | Inr False \<Rightarrow> Inr (True, True))
          else Inr (True, False)))))"

section \<open>Inspection of the schema\<close>

text \<open>
  Opening a name, with the \<open>Ping\<close> that follows where there is one, is \<open>sq_open\<close>. The
  inspection is read-only; \<open>immutable=1\<close> keeps SQLite from creating sidecar files.
\<close>

definition openInspectionDB :: "sqlite_env \<Rightarrow> string \<Rightarrow> bool \<Rightarrow> go_error option" where
  "openInspectionDB env path immutable =
     (let immutableOption = (if immutable then ''&immutable=1'' else []) in
      sq_open env (sqliteURI (sq_abs env) path
        (''mode=ro&_query_only=1&_busy_timeout=5000'' @ immutableOption)))"

text \<open>
  The code ranges over a Go map; the order does not matter, since an error and a missing
  column have the same effect on \<open>openCurrentSchema\<close>.
\<close>

definition required_columns :: "(string \<times> string list) list" where
  "required_columns =
     [(''otel_metric_points'', [''fingerprint'', ''received_at_unix_nano'', ''service_name'', ''metric_name'',
         ''metric_type'', ''payload_json'']),
      (''otel_logs'', [''fingerprint'', ''received_at_unix_nano'', ''service_name'', ''severity_text'',
         ''body_json'', ''payload_json'']),
      (''otel_spans'', [''fingerprint'', ''received_at_unix_nano'', ''trace_id'', ''span_id'', ''service_name'',
         ''name'', ''payload_json'']),
      (''logal_metadata'', [''key'', ''value''])]"

fun has_columns :: "sqlite_env \<Rightarrow> (string \<times> string list) list \<Rightarrow> bool result" where
  "has_columns env [] = Inr True"
| "has_columns env ((table, columns) # rest) =
     (case sq_column_count env table columns of
        Inl e \<Rightarrow> Inl e
      | Inr n \<Rightarrow> if n \<noteq> int (length columns) then Inr False else has_columns env rest)"

definition schemaHasRequiredColumns :: "sqlite_env \<Rightarrow> bool result" where
  "schemaHasRequiredColumns env = has_columns env required_columns"

definition signature_text :: "(string \<times> string \<times> string) list \<Rightarrow> string" where
  "signature_text objects =
     concat (map (\<lambda>(ty, name, sql). ty @ [CHR 0x00] @ name @ [CHR 0x00] @ sql @ [CHR 0x00]) objects)"

definition calculateSchemaSignature ::
    "(string \<Rightarrow> string) \<Rightarrow> (string \<times> string \<times> string) list result \<Rightarrow> string result" where
  "calculateSchemaSignature sha objects =
     (case objects of Inl e \<Rightarrow> Inl e | Inr os \<Rightarrow> Inr (hex_encode (sha (signature_text os))))"

text \<open>\<open>(current, disposable, err)\<close>\<close>

definition inspectSchema :: "sqlite_env \<Rightarrow> bool \<times> bool \<times> go_error option" where
  "inspectSchema env =
     (case sq_app_id env of
        Inl e \<Rightarrow> (False, False, Some e)
      | Inr appID \<Rightarrow>
     (case sq_version env of
        Inl e \<Rightarrow> (False, False, Some e)
      | Inr version \<Rightarrow>
     if appID = 0 \<and> version = 0
     then (case sq_tables env of
             Inl e \<Rightarrow> (False, False, Some e)
           | Inr tables \<Rightarrow>
               if tables = 0 then (True, False, None)
               else (case sq_telemetry env of
                       Inl e \<Rightarrow> (False, False, Some e)
                     | Inr telemetry \<Rightarrow> (False, 0 < telemetry \<and> telemetry = tables, None)))
     else if appID \<noteq> applicationID then (False, False, None)
     else if version \<noteq> schemaVersion then (False, True, None)
     else (case schemaHasRequiredColumns env of
        Inl e \<Rightarrow> (False, True, Some e)
      | Inr False \<Rightarrow> (False, True, None)
      | Inr True \<Rightarrow>
     (case sq_stored_signature env of
        Inl _ \<Rightarrow> (False, True, None)
      | Inr stored \<Rightarrow>
     (case calculateSchemaSignature (sq_sha env) (sq_objects env) of
        Inl e \<Rightarrow> (False, True, Some e)
      | Inr actual \<Rightarrow>
          if stored \<noteq> actual then (False, True, None)
          else (case sq_quick_check env of
                  Inl e \<Rightarrow> (False, True, Some e)
                | Inr res \<Rightarrow> (res = ''ok'', res \<noteq> ''ok'', None)))))))"

section \<open>Creation\<close>

definition schema_statements :: "string list" where
  "schema_statements =
    [''PRAGMA auto_vacuum=INCREMENTAL'',
     ''PRAGMA foreign_keys=ON'',
     ''PRAGMA wal_autocheckpoint=1000'',
     ''PRAGMA journal_size_limit=67108864'',
     ''PRAGMA application_id=1280264012'',
     ''PRAGMA user_version=7'',
     ''CREATE TABLE IF NOT EXISTS logal_metadata (key TEXT PRIMARY KEY, value TEXT NOT NULL) STRICT'',
     ''CREATE TABLE IF NOT EXISTS otel_logs (\<newline>'' @
       ''			id INTEGER PRIMARY KEY,\<newline>'' @
       ''			fingerprint BLOB NOT NULL UNIQUE CHECK(length(fingerprint)=32),\<newline>'' @
       ''			received_at_unix_nano INTEGER NOT NULL,\<newline>'' @
       ''			time_unix_nano INTEGER NOT NULL DEFAULT 0,\<newline>'' @
       ''			service_name TEXT NOT NULL,\<newline>'' @
       ''			severity_number INTEGER NOT NULL DEFAULT 0,\<newline>'' @
       ''			severity_text TEXT NOT NULL DEFAULT '' @
       [squote, squote] @
       '',\<newline>'' @
       ''			trace_id BLOB, span_id BLOB, request_id TEXT, product_id TEXT,\<newline>'' @
       ''			component TEXT, op TEXT,\<newline>'' @
       ''			body_json TEXT NOT NULL CHECK(json_valid(body_json)),\<newline>'' @
       ''			payload_json TEXT NOT NULL CHECK(json_valid(payload_json))\<newline>'' @
       ''		) STRICT'',
     ''CREATE TABLE IF NOT EXISTS otel_spans (\<newline>'' @
       ''			id INTEGER PRIMARY KEY,\<newline>'' @
       ''			fingerprint BLOB NOT NULL CHECK(length(fingerprint)=32),\<newline>'' @
       ''			received_at_unix_nano INTEGER NOT NULL,\<newline>'' @
       ''			trace_id BLOB NOT NULL CHECK(length(trace_id)=16),\<newline>'' @
       ''			span_id BLOB NOT NULL CHECK(length(span_id)=8),\<newline>'' @
       ''			parent_span_id BLOB,\<newline>'' @
       ''			service_name TEXT NOT NULL, name TEXT NOT NULL,\<newline>'' @
       ''			start_time_unix_nano INTEGER NOT NULL,\<newline>'' @
       ''			end_time_unix_nano INTEGER NOT NULL,\<newline>'' @
       ''			request_id TEXT, product_id TEXT,\<newline>'' @
       ''			payload_json TEXT NOT NULL CHECK(json_valid(payload_json)),\<newline>'' @
       ''			UNIQUE(trace_id, span_id)\<newline>'' @
       ''		) STRICT'',
     ''CREATE TABLE IF NOT EXISTS otel_metric_points (\<newline>'' @
       ''			id INTEGER PRIMARY KEY,\<newline>'' @
       ''			fingerprint BLOB NOT NULL UNIQUE CHECK(length(fingerprint) = 32),\<newline>'' @
       ''			received_at_unix_nano INTEGER NOT NULL,\<newline>'' @
       ''			service_name TEXT NOT NULL,\<newline>'' @
       ''			metric_name TEXT NOT NULL,\<newline>'' @
       ''			metric_type TEXT NOT NULL CHECK(metric_type IN ('' @
       [squote] @
       ''gauge'' @
       [squote] @
       '','' @
       [squote] @
       ''sum'' @
       [squote] @
       '','' @
       [squote] @
       ''histogram'' @
       [squote] @
       '','' @
       [squote] @
       ''exponential_histogram'' @
       [squote] @
       '','' @
       [squote] @
       ''summary'' @
       [squote] @
       '')),\<newline>'' @
       ''			start_time_unix_nano INTEGER NOT NULL DEFAULT 0,\<newline>'' @
       ''			time_unix_nano INTEGER NOT NULL DEFAULT 0,\<newline>'' @
       ''			number_kind TEXT CHECK(number_kind IS NULL OR number_kind IN ('' @
       [squote] @
       ''int'' @
       [squote] @
       '','' @
       [squote] @
       ''double'' @
       [squote] @
       '')),\<newline>'' @
       ''			number_int INTEGER,\<newline>'' @
       ''			number_double REAL,\<newline>'' @
       ''			aggregate_count TEXT,\<newline>'' @
       ''			aggregate_sum REAL,\<newline>'' @
       ''			aggregate_min REAL,\<newline>'' @
       ''			aggregate_max REAL,\<newline>'' @
       ''			payload_json TEXT NOT NULL CHECK(json_valid(payload_json))\<newline>'' @
       ''		) STRICT'',
     ''CREATE INDEX IF NOT EXISTS idx_logs_received ON otel_logs(received_at_unix_nano)'',
     ''CREATE INDEX IF NOT EXISTS idx_logs_trace ON otel_logs(trace_id, span_id)'',
     ''CREATE INDEX IF NOT EXISTS idx_logs_service_time ON otel_logs(service_name, time_unix_nano)'',
     ''CREATE INDEX IF NOT EXISTS idx_logs_request ON otel_logs(request_id, time_unix_nano)'',
     ''CREATE INDEX IF NOT EXISTS idx_logs_product ON otel_logs(product_id, time_unix_nano)'',
     ''CREATE INDEX IF NOT EXISTS idx_logs_component ON otel_logs(component, time_unix_nano)'',
     ''CREATE INDEX IF NOT EXISTS idx_spans_received ON otel_spans(received_at_unix_nano)'',
     ''CREATE INDEX IF NOT EXISTS idx_spans_service_start ON otel_spans(service_name, start_time_unix_nano)'',
     ''CREATE INDEX IF NOT EXISTS idx_metric_points_received ON otel_metric_points(received_at_unix_nano)'',
     ''CREATE INDEX IF NOT EXISTS idx_metric_points_service_time ON otel_metric_points(service_name, time_unix_nano)'',
     ''CREATE INDEX IF NOT EXISTS idx_metric_points_name_time ON otel_metric_points(metric_name, time_unix_nano)'']"

fun exec_all :: "sqlite_env \<Rightarrow> string list \<Rightarrow> go_error option" where
  "exec_all env [] = None"
| "exec_all env (st # sts) = (case sq_exec env st of Some e \<Rightarrow> Some e | None \<Rightarrow> exec_all env sts)"

definition createSchema :: "sqlite_env \<Rightarrow> go_error option" where
  "createSchema env =
     (case exec_all env schema_statements of
        Some e \<Rightarrow> Some e
      | None \<Rightarrow>
     (case calculateSchemaSignature (sq_sha env) (sq_new_objects env) of
        Inl e \<Rightarrow> Some e
      | Inr signature \<Rightarrow> sq_store_signature env signature))"

text \<open>
  \<open>openDB\<close> creates the file when it is missing: \<open>sq_create\<close> is the error of
  \<open>os.OpenFile\<close>, \<open>sq_private\<close> of the \<open>Chmod\<close> and \<open>Close\<close> that follow once the file is there.
\<close>

definition openDB :: "sqlite_env \<Rightarrow> string \<Rightarrow> machine \<Rightarrow> go_error option \<times> machine" where
  "openDB env path m =
     (case sq_create env of
        Some e \<Rightarrow> (Some e, m)
      | None \<Rightarrow>
          (case sq_private env of
             Some e \<Rightarrow> Some e
           | None \<Rightarrow> sq_open env (sqliteURI (sq_abs env) path
               ''_busy_timeout=5000&_journal_mode=WAL&_synchronous=FULL''),
           (case mc_files m path of
              Some _ \<Rightarrow> m
            | None \<Rightarrow> m\<lparr>mc_files := (mc_files m)(path \<mapsto>
                  \<lparr>f_inode = mc_next m, f_kind = Regular, f_links = 1, f_bytes = []\<rparr>),
                mc_next := Suc (mc_next m)\<rparr>)))"

section \<open>Opening\<close>

definition refuse_replace :: "string \<Rightarrow> go_error" where
  "refuse_replace path = Msg (''refuse to replace SQLite database not owned by Logal: '' @ path)"

text \<open>
  What happens to an existing file before the database is opened: kept, removed, or an error.
  The result says whether the contents are kept.
\<close>

definition settle_existing :: "os_env \<Rightarrow> sqlite_env \<Rightarrow> string \<Rightarrow> machine \<Rightarrow> bool result \<times> machine" where
  "settle_existing os env path m =
     (case stat_file (oe_stat os) (mc_files m) path of
        Inl e \<Rightarrow> (Inl e, m)
      | Inr None \<Rightarrow> (Inr False, m)
      | Inr (Some _) \<Rightarrow>
     (case classifyDatabaseForInspection os env path (mc_files m) of
        Inl e \<Rightarrow> (Inl e, m)
      | Inr (owned, immutable) \<Rightarrow>
     if \<not> owned then (Inl (refuse_replace path), m)
     else (case openInspectionDB env path immutable of
        Some e \<Rightarrow>
          (case removeDatabase os path m of
             (Some re, m') \<Rightarrow> (Inl (JoinErr [e, re]), m')
           | (None, m') \<Rightarrow> (Inr False, m'))
      | None \<Rightarrow>
          (let (current, disposable) =
                 (case inspectSchema env of (c, d, Some _) \<Rightarrow> (False, True) | (c, d, None) \<Rightarrow> (c, d))
           in if current then (Inr True, m)
              else if \<not> disposable then (Inl (refuse_replace path), m)
              else (case removeDatabase os path m of
                      (Some e, m') \<Rightarrow> (Inl (WrapErr ''reset disposable database: '' e []), m')
                    | (None, m') \<Rightarrow> (Inr False, m'))))))"

definition compact_statement :: string where
  "compact_statement = ''PRAGMA auto_vacuum=INCREMENTAL; VACUUM''"

text \<open>The rows of the opened database, and the files.\<close>

definition openCurrentSchema :: "os_env \<Rightarrow> sqlite_env \<Rightarrow> string \<Rightarrow> machine \<Rightarrow> database result \<times> machine"
  where
  "openCurrentSchema os env path m =
     (case settle_existing os env path m of
        (Inl e, m) \<Rightarrow> (Inl e, m)
      | (Inr kept, m) \<Rightarrow>
     (case openDB env path m of
        (Some e, m) \<Rightarrow> (Inl (WrapErr ''open telemetry database: '' e []), m)
      | (None, m) \<Rightarrow>
     (case createSchema env of
        Some e \<Rightarrow> (Inl e, m)
      | None \<Rightarrow>
     (case sq_vacuum_mode env of
        Inl e \<Rightarrow> (Inl (WrapErr ''inspect telemetry compaction mode: '' e []), m)
      | Inr mode \<Rightarrow>
     (case (if mode \<noteq> 2 then sq_exec env compact_statement else None) of
        Some e \<Rightarrow> (Inl (WrapErr ''enable telemetry compaction: '' e []), m)
      | None \<Rightarrow>
     (case sq_chmod env of
        Some e \<Rightarrow> (Inl (WrapErr ''set database permissions: '' e []), m)
      | None \<Rightarrow> (Inr (if kept then sq_contents env else empty_database), m)))))))"

section \<open>Start\<close>

definition probe_fingerprint :: string where
  "probe_fingerprint = replicate 32 (CHR 0x00)"

text \<open>The probe inserts one row in a transaction that is rolled back.\<close>

definition probeWritePath :: "sqlite_env \<Rightarrow> database \<Rightarrow> go_error option" where
  "probeWritePath env d =
     (case sq_begin env of
        Some e \<Rightarrow> Some e
      | None \<Rightarrow>
     (case sq_probe env of
        Some e \<Rightarrow> Some e
      | None \<Rightarrow>
     if probe_fingerprint \<in> set (map lr_fingerprint (otel_logs d))
     then Some (SqliteError ErrConstraint ''UNIQUE constraint failed: otel_logs.fingerprint'')
     else (case sq_probe_count env of
        Some e \<Rightarrow> Some e
      | None \<Rightarrow>
     (let n = length (filter (\<lambda>fp. fp = probe_fingerprint) (probe_fingerprint # map lr_fingerprint (otel_logs d))) in
      if n \<noteq> 1 then Some (Msg (''probe row count='' @ show_nat n)) else sq_rollback env))))"

definition Start ::
    "os_env \<Rightarrow> sqlite_env \<Rightarrow> nat \<Rightarrow> machine \<Rightarrow> Store \<Rightarrow> go_error option \<times> machine \<times> Store" where
  "Start os env pid m s =
     (case config_validate (cfg s) of
        Some e \<Rightarrow> (Some e, m, s)
      | None \<Rightarrow>
     (case oe_mkdir os of
        Some e \<Rightarrow> (Some (WrapErr ''create data directory: '' e []), m, s)
      | None \<Rightarrow>
     (case acquireOwnership os pid (Path (cfg s)) m of
        (Inl e, m) \<Rightarrow> (Some e, m, s)
      | (Inr i, m) \<Rightarrow>
     (case openCurrentSchema os env (Path (cfg s)) m of
        (Inl e, m) \<Rightarrow> (Some e, releaseOwnership (Path (cfg s)) i m, s)
      | (Inr d, m) \<Rightarrow>
     (case probeWritePath env d of
        Some e \<Rightarrow>
          (Some (WrapErr ''probe write path: '' e []), releaseOwnership (Path (cfg s)) i m, s\<lparr>db := None\<rparr>)
      | None \<Rightarrow>
          (None, m, s\<lparr>db := Some d, lockHeld := True, ready := True, maintenanceRun := True\<rparr>))))))"

section \<open>Read-only opening\<close>

text \<open>
  \<open>OpenReadOnly\<close>: the error, or none when the database is current. \<open>sq_inspect\<close>
  is the outcome of \<open>sql.Open\<close>, which takes no lock and creates nothing.
\<close>

definition OpenReadOnly :: "sqlite_env \<Rightarrow> string \<Rightarrow> go_error option" where
  "OpenReadOnly env path =
     (if path = [] then Some (Msg ''database path is required (--db or LOGAL_DB_PATH)'')
      else (case sq_open env (sqliteURI (sq_abs env) path ''mode=ro&_query_only=1&_busy_timeout=50'') of
        Some e \<Rightarrow> Some e
      | None \<Rightarrow>
     (case sq_app_id env of
        Inl e \<Rightarrow> Some e
      | Inr appID \<Rightarrow>
     (case sq_version env of
        Inl e \<Rightarrow> Some e
      | Inr version \<Rightarrow>
          if appID \<noteq> applicationID \<or> version \<noteq> schemaVersion
          then Some (Msg (''database is not a current Logal database (application_id='' @ show_int appID @
                 '', schema='' @ show_int version @ '')''))
          else None))))"

end
