(* ===== verification/SchemaProps.thy ===== *)
theory SchemaProps
  imports Schema StoreRuns
begin

text \<open>
  What starting promises: a database of another application is never replaced, nothing but a
  disposable database of Logal's own is removed, a failed start leaves nothing behind, and a
  successful one keeps the rows of a current database.
\<close>

section \<open>Removal\<close>

text \<open>
  SQLite can read the database and says that it is somebody else's: another application id, or
  an unmarked database with a table that is not telemetry.
\<close>

definition foreign_database :: "sqlite_env \<Rightarrow> string \<Rightarrow> bool" where
  "foreign_database env path \<longleftrightarrow>
     (\<forall>b. openInspectionDB env path b = None) \<and>
     (\<exists>a v. sq_app_id env = Inr a \<and> sq_version env = Inr v \<and>
        (if a = 0 \<and> v = 0
         then \<exists>t k. sq_tables env = Inr t \<and> t \<noteq> 0 \<and> sq_telemetry env = Inr k \<and> k \<noteq> t
         else a \<noteq> applicationID))"

text \<open>The inspection says that the database may go: unreadable, or Logal's own and not current.\<close>

definition disposable_database :: "sqlite_env \<Rightarrow> string \<Rightarrow> bool \<Rightarrow> bool" where
  "disposable_database env path immutable \<longleftrightarrow>
     openInspectionDB env path immutable \<noteq> None \<or>
     (case inspectSchema env of (c, d, Some _) \<Rightarrow> True | (c, d, None) \<Rightarrow> \<not> c \<and> d)"

lemma foreign_inspection:
  "foreign_database env path \<Longrightarrow> inspectSchema env = (False, False, None)"
  by (auto simp: foreign_database_def inspectSchema_def split: if_splits)

lemma settle_cases:
  assumes "settle_existing os env path m = (r, m')"
  shows "m' = m \<or> (\<exists>f i r'. mc_files m path = Some f \<and>
    classifyDatabaseForInspection os env path (mc_files m) = Inr (True, i) \<and> disposable_database env path i \<and>
    removeDatabase os path m = (r', m'))"
proof (cases "stat_file (oe_stat os) (mc_files m) path")
  case (Inr x)
  then have x: "x = mc_files m path" by (simp add: stat_file_def split: option.splits)
  from assms Inr x show ?thesis
    by (cases x) (auto simp: settle_existing_def disposable_database_def Let_def
        split: sum.splits option.splits prod.splits if_splits)
qed (use assms in \<open>simp add: settle_existing_def\<close>)

lemma settle_foreign:
  assumes "foreign_database env path" "mc_files m path \<noteq> None" "settle_existing os env path m = (r, m')"
  shows "m' = m \<and> (\<exists>e. r = Inl e)"
proof (cases "stat_file (oe_stat os) (mc_files m) path")
  case (Inr x)
  then have x: "x = mc_files m path" by (simp add: stat_file_def split: option.splits)
  have "inspectSchema env = (False, False, None)" by (rule foreign_inspection [OF assms(1)])
  moreover have "openInspectionDB env path i = None" for i using assms(1) by (simp add: foreign_database_def)
  ultimately show ?thesis using assms(2,3) Inr x
    by (auto simp: settle_existing_def split: sum.splits if_splits)
qed (use assms in \<open>auto simp: settle_existing_def\<close>)

lemma openDB_frame:
  "openDB env path m = (r, m') \<Longrightarrow> mc_locks m' = mc_locks m \<and>
     (\<forall>c. mc_files m' c = mc_files m c \<or> mc_files m c = None)"
  by (auto simp: openDB_def split: option.splits)

lemma openCurrentSchema_cases:
  assumes "openCurrentSchema os env path m = (r, m')"
  shows "(\<exists>e. r = Inl e \<and> settle_existing os env path m = (Inl e, m')) \<or>
    (\<exists>kept m1 r1. settle_existing os env path m = (Inr kept, m1) \<and> openDB env path m1 = (r1, m') \<and>
      (\<forall>d. r = Inr d \<longrightarrow> d = (if kept then sq_contents env else empty_database)))"
proof (cases "settle_existing os env path m")
  case (Pair a m1)
  show ?thesis
  proof (cases a)
    case (Inl e)
    with assms Pair show ?thesis by (simp add: openCurrentSchema_def)
  next
    case (Inr kept)
    obtain r1 m2 where o: "openDB env path m1 = (r1, m2)" by fastforce
    from assms Pair Inr o have "m' = m2" "\<forall>d. r = Inr d \<longrightarrow> d = (if kept then sq_contents env else empty_database)"
      by (auto simp: openCurrentSchema_def split: option.splits sum.splits)
    with Pair Inr o show ?thesis by blast
  qed
qed

lemma open_lock_frame:
  "open_lock path m = (i, m') \<Longrightarrow> mc_locks m' = mc_locks m \<and>
     (\<forall>c. c \<noteq> lock_path path \<longrightarrow> mc_files m' c = mc_files m c)"
  by (auto simp: open_lock_def split: option.splits)

lemma try_flock_frame:
  "try_flock p i m = Some m' \<Longrightarrow> mc_files m' = mc_files m \<and> mc_locks m i = None \<and>
     mc_locks m' = (mc_locks m)(i \<mapsto> p)"
  by (auto simp: try_flock_def split: option.splits)

lemma acquire_cases:
  assumes "acquireOwnership os p path m = (r, m')"
  shows "(\<forall>c. c \<noteq> lock_path path \<longrightarrow> mc_files m' c = mc_files m c) \<and>
    (case r of Inl e \<Rightarrow> mc_locks m' = mc_locks m
     | Inr i \<Rightarrow> mc_locks m i = None \<and> mc_locks m' = (mc_locks m)(i \<mapsto> p))"
proof -
  obtain i m1 where o: "open_lock path m = (i, m1)" by fastforce
  from assms o open_lock_frame [OF o] show ?thesis
    by (auto simp: acquireOwnership_def releaseOwnership_def fun_upd_idem dest!: try_flock_frame
        split: option.splits)
qed

lemma database_path_apart: "path \<noteq> lock_path path" "path \<in> set (database_files path)"
  by (simp_all add: lock_path_def database_files_def)

lemma release_files [simp]: "mc_files (releaseOwnership path i m) = mc_files m"
  by (simp add: releaseOwnership_def)

lemma Start_cases:
  assumes "Start os env p m s = (r, m', s')"
  defines "path \<equiv> Path (cfg s)"
  shows "(\<exists>e. r = Some e \<and> s' = s \<and> m' = m) \<or>
    (\<exists>e. r = Some e \<and> s' = s \<and> acquireOwnership os p path m = (Inl e, m')) \<or>
    (\<exists>i m1 oc m2. acquireOwnership os p path m = (Inr i, m1) \<and> openCurrentSchema os env path m1 = (oc, m2) \<and>
      (case oc of
         Inl e \<Rightarrow> r = Some e \<and> s' = s \<and> m' = releaseOwnership path i m2
       | Inr d \<Rightarrow>
           if probeWritePath env d = None
           then r = None \<and> m' = m2 \<and> s' = s\<lparr>db := Some d, lockHeld := True, ready := True, maintenanceRun := True\<rparr>
           else r \<noteq> None \<and> s' = s\<lparr>db := None\<rparr> \<and> m' = releaseOwnership path i m2))"
proof (cases "config_validate (cfg s) \<noteq> None \<or> oe_mkdir os \<noteq> None")
  case True
  with assms(1) show ?thesis by (auto simp: Start_def split: option.splits)
next
  case False
  obtain a m1 where acquired: "acquireOwnership os p path m = (a, m1)" by fastforce
  show ?thesis
  proof (cases a)
    case (Inl e)
    with assms False acquired show ?thesis by (auto simp: Start_def split: option.splits)
  next
    case (Inr i)
    obtain oc m2 where "openCurrentSchema os env path m1 = (oc, m2)" by fastforce
    with assms False acquired Inr show ?thesis
      by (intro disjI2 exI [of _ i] exI [of _ m1] exI [of _ oc] exI [of _ m2])
        (auto simp: Start_def split: option.splits sum.splits)
  qed
qed

lemma any_sidecar_cong: "(\<And>c. c \<in> set cs \<Longrightarrow> fs c = fs' c) \<Longrightarrow> any_sidecar os fs cs = any_sidecar os fs' cs"
  by (induction cs) (auto simp: stat_file_def split: option.split sum.split)

lemma classify_cong:
  assumes "\<And>c. c \<in> set (database_files path) \<Longrightarrow> fs c = fs' c"
  shows "classifyDatabaseForInspection os env path fs = classifyDatabaseForInspection os env path fs'"
proof -
  have files: "fs path = fs' path" "fs (path @ ''-wal'') = fs' (path @ ''-wal'')"
    using assms by (simp_all add: database_files_def)
  have "stat_file (oe_stat os) fs (path @ ''-wal'') = stat_file (oe_stat os) fs' (path @ ''-wal'')"
    unfolding stat_file_def files ..
  then have id: "effective_app_id os env path fs x = effective_app_id os env path fs' x" for x
    by (simp only: effective_app_id_def)
  have "any_sidecar os fs [path @ ''-wal'', path @ ''-shm''] = any_sidecar os fs' [path @ ''-wal'', path @ ''-shm'']"
    by (rule any_sidecar_cong) (use assms in \<open>auto simp: database_files_def\<close>)
  with files id show ?thesis by (simp only: classifyDatabaseForInspection_def)
qed

lemma Start_settles:
  assumes "Start os env p m s = (r, m', s')"
  shows "r \<noteq> None \<and> (\<forall>c. c \<noteq> lock_path (Path (cfg s)) \<longrightarrow> mc_files m' c = mc_files m c) \<or>
    (\<exists>m1 a m2. (\<forall>c. c \<noteq> lock_path (Path (cfg s)) \<longrightarrow> mc_files m1 c = mc_files m c) \<and>
       settle_existing os env (Path (cfg s)) m1 = (a, m2) \<and>
       (case a of Inl e \<Rightarrow> r \<noteq> None \<and> mc_files m' = mc_files m2
        | Inr kept \<Rightarrow> \<forall>c. mc_files m' c = mc_files m2 c \<or> mc_files m2 c = None))"
  using Start_cases [OF assms]
proof (elim disjE exE conjE)
  fix e
  assume "r = Some e" "acquireOwnership os p (Path (cfg s)) m = (Inl e, m')"
  with acquire_cases show ?thesis by blast
next
  fix i m1 oc m2
  let ?path = "Path (cfg s)"
  assume acquired: "acquireOwnership os p ?path m = (Inr i, m1)"
    and opened: "openCurrentSchema os env ?path m1 = (oc, m2)"
    and outcome: "case oc of Inl e \<Rightarrow> r = Some e \<and> s' = s \<and> m' = releaseOwnership ?path i m2
       | Inr d \<Rightarrow> if probeWritePath env d = None
           then r = None \<and> m' = m2 \<and> s' = s\<lparr>db := Some d, lockHeld := True, ready := True, maintenanceRun := True\<rparr>
           else r \<noteq> None \<and> s' = s\<lparr>db := None\<rparr> \<and> m' = releaseOwnership ?path i m2"
  from outcome have files: "mc_files m' = mc_files m2" by (auto split: sum.splits if_splits)
  have frame: "\<forall>c. c \<noteq> lock_path ?path \<longrightarrow> mc_files m1 c = mc_files m c"
    using acquire_cases [OF acquired] by blast
  from openCurrentSchema_cases [OF opened] show ?thesis
  proof (elim disjE exE conjE)
    fix e
    assume "oc = Inl e" "settle_existing os env ?path m1 = (Inl e, m2)"
    with frame files outcome show ?thesis by (intro disjI2 exI [of _ m1] exI [of _ "Inl e"] exI [of _ m2]) simp
  next
    fix kept m3 r1
    assume "settle_existing os env ?path m1 = (Inr kept, m3)" "openDB env ?path m3 = (r1, m2)"
    with frame files openDB_frame show ?thesis
      by (intro disjI2 exI [of _ m1] exI [of _ "Inr kept"] exI [of _ m3]) auto
  qed
qed auto


section \<open>The outcome of a start\<close>

lemma settle_locks: "settle_existing os env path m = (r, m') \<Longrightarrow> mc_locks m' = mc_locks m"
  using settle_cases [of os env path m r m'] removeDatabase_frame by metis

lemma openCurrentSchema_locks:
  assumes "openCurrentSchema os env path m = (r, m')"
  shows "mc_locks m' = mc_locks m \<and> (\<forall>d. r = Inr d \<longrightarrow> d \<in> {sq_contents env, empty_database})"
  using openCurrentSchema_cases [OF assms]
proof (elim disjE exE conjE)
  fix kept m1 r1
  assume "settle_existing os env path m = (Inr kept, m1)" "openDB env path m1 = (r1, m')"
    "\<forall>d. r = Inr d \<longrightarrow> d = (if kept then sq_contents env else empty_database)"
  then show ?thesis using settle_locks openDB_frame by (metis insertCI)
qed (use settle_locks in auto)

text \<open>The last stage of \<open>Start\<close>, once the ownership is there.\<close>

lemma Start_opened:
  assumes "acquireOwnership os p path m = (Inr i, m1)" "openCurrentSchema os env path m1 = (oc, m2)"
    "database_ok (sq_contents env)"
  shows "mc_locks m i = None" "mc_locks m2 = (mc_locks m)(i \<mapsto> p)"
    "mc_locks (releaseOwnership path i m2) = mc_locks m"
    "oc = Inr d \<Longrightarrow> d \<in> {sq_contents env, empty_database} \<and> database_ok d"
proof -
  from acquire_cases [OF assms(1)] openCurrentSchema_locks [OF assms(2)]
  show locks: "mc_locks m i = None" "mc_locks m2 = (mc_locks m)(i \<mapsto> p)" by auto
  then show "mc_locks (releaseOwnership path i m2) = mc_locks m"
    by (simp add: releaseOwnership_def fun_upd_idem)
  show "oc = Inr d \<Longrightarrow> d \<in> {sq_contents env, empty_database} \<and> database_ok d"
    using openCurrentSchema_locks [OF assms(2)] assms(3) empty_database_ok by auto
qed


end
