(* ===== verification/ContextMutex.thy ===== *)
theory ContextMutex
  imports Logal_Prelude
begin

text \<open>
  The writer lock (\<^verbatim>\<open>internal/store/mutex.go\<close>): a channel with room for one token, taken
  under a context. The calls of concurrent users are a multiset of their stage and whether
  their context is done; every statement of \<open>LockContext\<close> that looks at the channel or
  the context is a step of its own.
\<close>

section \<open>Steps\<close>

text \<open>
  \<open>Granted\<close> is between the send and the second look at the context; \<open>Failed\<close> has
  returned the context's error; \<open>Unlocked\<close> has held the lock and given it back.
\<close>

datatype stage = Entering | Waiting | Granted | Holding | Unlocked | Failed

type_synonym lock_call = "stage \<times> bool"

record cmutex =
  permit :: nat
  lock_calls :: "lock_call multiset"

definition new_mutex :: cmutex where
  "new_mutex = \<lparr>permit = 0, lock_calls = {#}\<rparr>"

definition moves :: "lock_call \<Rightarrow> lock_call \<Rightarrow> cmutex \<Rightarrow> cmutex" where
  "moves c c' m = m\<lparr>lock_calls := add_mset c' (lock_calls m - {#c#})\<rparr>"

text \<open>
  The steps of the lock itself. The select may send even when the context is done, since both
  cases are ready then; a send needs room in the channel, a receive a token.
\<close>

inductive lock_step :: "cmutex \<Rightarrow> cmutex \<Rightarrow> bool" where
  enter: "(Entering, False) \<in># lock_calls m \<Longrightarrow>
     lock_step m (moves (Entering, False) (Waiting, False) m)"
| enter_done: "(Entering, True) \<in># lock_calls m \<Longrightarrow>
     lock_step m (moves (Entering, True) (Failed, True) m)"
| send: "(Waiting, d) \<in># lock_calls m \<Longrightarrow> permit m < 1 \<Longrightarrow>
     lock_step m ((moves (Waiting, d) (Granted, d) m)\<lparr>permit := permit m + 1\<rparr>)"
| ctx_done: "(Waiting, True) \<in># lock_calls m \<Longrightarrow>
     lock_step m (moves (Waiting, True) (Failed, True) m)"
| hold: "(Granted, False) \<in># lock_calls m \<Longrightarrow>
     lock_step m (moves (Granted, False) (Holding, False) m)"
| give_back: "(Granted, True) \<in># lock_calls m \<Longrightarrow> 0 < permit m \<Longrightarrow>
     lock_step m ((moves (Granted, True) (Failed, True) m)\<lparr>permit := permit m - 1\<rparr>)"
| unlock: "(Holding, d) \<in># lock_calls m \<Longrightarrow> 0 < permit m \<Longrightarrow>
     lock_step m ((moves (Holding, d) (Unlocked, d) m)\<lparr>permit := permit m - 1\<rparr>)"

text \<open>What callers do: new calls, and contexts that end at any time.\<close>

inductive caller_step :: "cmutex \<Rightarrow> cmutex \<Rightarrow> bool" where
  call: "caller_step m (m\<lparr>lock_calls := add_mset (Entering, d) (lock_calls m)\<rparr>)"
| cancel: "(s, False) \<in># lock_calls m \<Longrightarrow> caller_step m (moves (s, False) (s, True) m)"

definition mutex_step :: "cmutex \<Rightarrow> cmutex \<Rightarrow> bool" where
  "mutex_step m m' \<longleftrightarrow> lock_step m m' \<or> caller_step m m'"

section \<open>The token is with exactly one call\<close>

definition in_stage :: "stage \<Rightarrow> cmutex \<Rightarrow> nat" where
  "in_stage s m = size (filter_mset (\<lambda>c. fst c = s) (lock_calls m))"

definition mutex_inv :: "cmutex \<Rightarrow> bool" where
  "mutex_inv m \<longleftrightarrow> permit m = in_stage Granted m + in_stage Holding m \<and> permit m \<le> 1"

lemma in_stage_permit [simp]: "in_stage s (m\<lparr>permit := n\<rparr>) = in_stage s m"
  by (simp add: in_stage_def)

lemma in_stage_moves:
  "c \<in># lock_calls m \<Longrightarrow> in_stage s (moves c c' m) =
     (in_stage s m - (if fst c = s then 1 else 0)) + (if fst c' = s then 1 else 0)"
  by (auto simp: in_stage_def moves_def size_Diff_singleton)

lemma size_filter_zero: "size (filter_mset P M) = 0 \<longleftrightarrow> (\<forall>x\<in>#M. \<not> P x)"
  by (induction M) auto

lemma in_stage_zero: "in_stage s m = 0 \<longleftrightarrow> (\<forall>c\<in>#lock_calls m. fst c \<noteq> s)"
  unfolding in_stage_def size_filter_zero ..

lemma in_stage_pos: "c \<in># lock_calls m \<Longrightarrow> fst c = s \<Longrightarrow> 0 < in_stage s m"
  using in_stage_zero [of s m] by auto

lemma permit_moves [simp]: "permit (moves c c' m) = permit m"
  by (simp add: moves_def)

lemma lock_step_inv: "lock_step m m' \<Longrightarrow> mutex_inv m \<Longrightarrow> mutex_inv m'"
proof (induction rule: lock_step.induct)
  case (hold m)
  then show ?case using in_stage_pos [OF hold(1), of Granted] by (auto simp: mutex_inv_def in_stage_moves)
next
  case (give_back m)
  then show ?case using in_stage_pos [OF give_back(1), of Granted] by (auto simp: mutex_inv_def in_stage_moves)
next
  case (unlock d m)
  then show ?case using in_stage_pos [OF unlock(1), of Holding] by (auto simp: mutex_inv_def in_stage_moves)
qed (auto simp: mutex_inv_def in_stage_moves)

lemma caller_step_inv: "caller_step m m' \<Longrightarrow> mutex_inv m \<Longrightarrow> mutex_inv m'"
proof (induction rule: caller_step.induct)
  case (call m d)
  then show ?case by (simp add: mutex_inv_def in_stage_def)
next
  case (cancel s m)
  then have "in_stage t (moves (s, False) (s, True) m) = in_stage t m" for t
    using in_stage_pos [OF cancel(1), of t] by (auto simp: in_stage_moves)
  with cancel show ?case by (simp add: mutex_inv_def)
qed

lemma mutex_run_inv: "mutex_step\<^sup>*\<^sup>* new_mutex m \<Longrightarrow> mutex_inv m"
proof (induction rule: rtranclp_induct)
  case base
  then show ?case by (simp add: mutex_inv_def new_mutex_def in_stage_def)
qed (auto simp: mutex_step_def intro: lock_step_inv caller_step_inv)

section \<open>Every call returns\<close>

fun stage_weight :: "stage \<Rightarrow> nat" where
  "stage_weight Entering = 4"
| "stage_weight Waiting = 3"
| "stage_weight Granted = 2"
| "stage_weight Holding = 1"
| "stage_weight Unlocked = 0"
| "stage_weight Failed = 0"

definition remaining :: "cmutex \<Rightarrow> nat" where
  "remaining m = sum_mset (image_mset (stage_weight \<circ> fst) (lock_calls m))"

lemma remaining_moves:
  assumes "c \<in># lock_calls m" "stage_weight (fst c') < stage_weight (fst c)"
  shows "remaining (moves c c' m) < remaining m"
proof -
  from assms(1) obtain M where "lock_calls m = add_mset c M" by (metis insert_DiffM)
  with assms(2) show ?thesis by (simp add: remaining_def moves_def)
qed

lemma remaining_permit [simp]: "remaining (m\<lparr>permit := n\<rparr>) = remaining m"
  by (simp add: remaining_def)

lemma lock_step_remaining: "lock_step m m' \<Longrightarrow> remaining m' < remaining m"
  by (induction rule: lock_step.induct) (auto intro: remaining_moves)

lemma stuck_finished:
  assumes "mutex_inv m" "\<And>m'. \<not> lock_step m m'"
  shows "(\<forall>c\<in>#lock_calls m. fst c \<in> {Unlocked, Failed}) \<and> permit m = 0"
proof -
  have calls: "(s, d) \<notin># lock_calls m" if "s \<in> {Entering, Granted, Holding}" for s d
  proof
    assume c: "(s, d) \<in># lock_calls m"
    have "0 < permit m" if "s \<in> {Granted, Holding}"
      using that assms(1) in_stage_pos [OF c] by (auto simp: mutex_inv_def)
    with c that assms(2) enter [of m] enter_done [of m] hold [of m] give_back [of m] unlock [of d m]
    show False by (cases d) auto
  qed
  then have "in_stage Granted m = 0" "in_stage Holding m = 0"
    unfolding in_stage_zero by auto
  with assms(1) have free: "permit m = 0" by (simp add: mutex_inv_def)
  then have "(Waiting, d) \<notin># lock_calls m" for d using assms(2) send by fastforce
  with calls have "fst c \<in> {Unlocked, Failed}" if "c \<in># lock_calls m" for c
    using that by (cases c; cases "fst c") auto
  with free show ?thesis by blast
qed

text \<open>
  C37. In every interleaving of calls, cancellations and unlocks: at most one call holds the
  lock, and a call whose context ended before it held it gives the token back. As long as
  holders unlock, the lock cannot get stuck: its own steps come to an end, and when none is
  left every call has returned, held and unlocked or failed, and the token is free.
\<close>

theorem mutex_excludes_and_completes:
  assumes "mutex_step\<^sup>*\<^sup>* new_mutex m"
  shows "in_stage Holding m \<le> 1 \<and> in_stage Granted m + in_stage Holding m = permit m \<and>
    wfp (\<lambda>b a. lock_step a b) \<and>
    ((\<nexists>m'. lock_step m m') \<longrightarrow> (\<forall>c\<in>#lock_calls m. fst c \<in> {Unlocked, Failed}) \<and> permit m = 0)"
proof -
  have inv: "mutex_inv m" by (rule mutex_run_inv [OF assms])
  have "wfp (\<lambda>b a. lock_step a b)"
    by (rule wfp_if_convertible_to_nat [where f = remaining]) (rule lock_step_remaining)
  moreover have "in_stage Holding m \<le> 1 \<and> in_stage Granted m + in_stage Holding m = permit m"
    using inv by (simp add: mutex_inv_def)
  ultimately show ?thesis using stuck_finished [OF inv] by blast
qed

definition one_holder :: cmutex where
  "one_holder = \<lparr>permit = 1, lock_calls = {#(Holding, False)#}\<rparr>"

lemma one_holder_run: "mutex_step\<^sup>*\<^sup>* new_mutex one_holder"
proof -
  have a: "mutex_step new_mutex \<lparr>permit = 0, lock_calls = {#(Entering, False)#}\<rparr>"
    using call [of new_mutex False] by (simp add: mutex_step_def new_mutex_def)
  have b: "mutex_step \<lparr>permit = 0, lock_calls = {#(Entering, False)#}\<rparr> \<lparr>permit = 0, lock_calls = {#(Waiting, False)#}\<rparr>"
    using enter [of "\<lparr>permit = 0, lock_calls = {#(Entering, False)#}\<rparr>"] by (simp add: mutex_step_def moves_def)
  have c: "mutex_step \<lparr>permit = 0, lock_calls = {#(Waiting, False)#}\<rparr> \<lparr>permit = 1, lock_calls = {#(Granted, False)#}\<rparr>"
    using send [of False "\<lparr>permit = 0, lock_calls = {#(Waiting, False)#}\<rparr>"] by (simp add: mutex_step_def moves_def)
  have d: "mutex_step \<lparr>permit = 1, lock_calls = {#(Granted, False)#}\<rparr> one_holder"
    using hold [of "\<lparr>permit = 1, lock_calls = {#(Granted, False)#}\<rparr>"]
    by (simp add: mutex_step_def moves_def one_holder_def)
  from a b c d show ?thesis by (meson converse_rtranclp_into_rtranclp rtranclp.rtrancl_refl)
qed

theorem mutex_excludes_and_completes_witness:
  "in_stage Holding one_holder = 1 \<and> permit one_holder = 1 \<and> wfp (\<lambda>b a. lock_step a b)"
  using mutex_excludes_and_completes [OF one_holder_run] by (auto simp: one_holder_def in_stage_def)

end
