(* ===== verification/LifecycleWitnesses.thy ===== *)
theory LifecycleWitnesses
  imports SchemaProps ContextMutex
begin

text \<open>
  Concrete machines for the ownership and start properties: a foreign SQLite database, and a
  first start in an empty directory.
\<close>

definition quiet_os :: os_env where
  "quiet_os = \<lparr>oe_lstat = (\<lambda>_. None), oe_stat = (\<lambda>_. None), oe_mkdir = None, oe_open_lock = None,
     oe_flock = None, oe_lsof = (\<lambda>_. \<lparr>ls_output = [], ls_deadline = None, ls_err = None\<rparr>),
     oe_remove = (\<lambda>_. None)\<rparr>"

definition quiet_sqlite :: sqlite_env where
  "quiet_sqlite = \<lparr>sq_open_file = None, sq_read = None, sq_mkdtemp = None, sq_temp = ''/d/.logal-inspect-1/logal.db'',
     sq_copy_open = (\<lambda>_. None), sq_copy_create = (\<lambda>_. None), sq_copy_bytes = (\<lambda>_. None),
     sq_copy_close = (\<lambda>_. None), sq_abs = Inr, sq_open = (\<lambda>_. None), sq_wal_id = Inr 0, sq_app_id = Inr 1,
     sq_version = Inr 3, sq_tables = Inr 1, sq_telemetry = Inr 0, sq_column_count = (\<lambda>_ _. Inr 0),
     sq_stored_signature = Inr [], sq_objects = Inr [], sq_quick_check = Inr ''ok'', sq_create = None,
     sq_private = None, sq_exec = (\<lambda>_. None), sq_new_objects = Inr [], sq_store_signature = (\<lambda>_. None),
     sq_vacuum_mode = Inr 2, sq_chmod = None, sq_begin = None, sq_probe = None, sq_probe_count = None,
     sq_rollback = None, sq_sha = (\<lambda>_. []), sq_contents = empty_database\<rparr>"

definition closed_store :: Store where
  "closed_store = new_store \<lparr>Path = ''/d/logal.db'', RetentionHours = 48\<rparr>"

definition store_path :: string where
  "store_path = Path (cfg closed_store)"

definition empty_machine :: machine where
  "empty_machine = \<lparr>mc_files = (\<lambda>_. None), mc_locks = (\<lambda>_. None), mc_next = 7\<rparr>"

text \<open>A database of 100 zero bytes after the SQLite magic, but for another application id.\<close>

definition foreign_file :: file_entry where
  "foreign_file = \<lparr>f_inode = 1, f_kind = Regular, f_links = 1,
     f_bytes = sqlite_magic @ replicate 55 (CHR 0x00) @ [CHR 0x01] @ replicate 30 (CHR 0x00)\<rparr>"

definition foreign_machine :: machine where
  "foreign_machine = empty_machine\<lparr>mc_files := (\<lambda>_. None)(store_path \<mapsto> foreign_file)\<rparr>"


lemma first_acquire: "\<exists>m. acquireOwnership quiet_os 4 store_path empty_machine = (Inr 7, m) \<and>
    mc_files m = (\<lambda>_. None)(lock_path store_path \<mapsto> \<lparr>f_inode = 7, f_kind = Regular, f_links = 1, f_bytes = []\<rparr>)"
proof -
  have "check_candidates quiet_os (\<lambda>_. None) cs = None" for cs
    by (induction cs) (simp_all add: stat_file_def quiet_os_def)
  then show ?thesis
    by (simp add: acquireOwnership_def empty_machine_def open_lock_def try_flock_def rejectOpenDescriptors_def
        database_files_def stat_file_def quiet_os_def lock_path_def)
qed

lemma first_create: "createSchema quiet_sqlite = None"
proof -
  have "exec_all quiet_sqlite sts = None" for sts
    by (induction sts) (simp_all add: quiet_sqlite_def)
  then show ?thesis by (simp add: createSchema_def calculateSchemaSignature_def quiet_sqlite_def)
qed

lemma first_start: "fst (Start quiet_os quiet_sqlite 4 empty_machine closed_store) = None"
proof -
  obtain m where m: "acquireOwnership quiet_os 4 store_path empty_machine = (Inr 7, m)"
    "mc_files m store_path = None"
    using first_acquire by (auto simp: lock_path_def)
  from m(2) have "settle_existing quiet_os quiet_sqlite store_path m = (Inr False, m)"
    by (simp add: settle_existing_def stat_file_def quiet_os_def)
  moreover obtain m2 where "openDB quiet_sqlite store_path m = (None, m2)"
    by (simp add: openDB_def quiet_sqlite_def)
  ultimately have "openCurrentSchema quiet_os quiet_sqlite store_path m = (Inr empty_database, m2)"
    using first_create by (simp add: openCurrentSchema_def) (simp add: quiet_sqlite_def)
  moreover have "probeWritePath quiet_sqlite empty_database = None"
    by (simp add: probeWritePath_def quiet_sqlite_def empty_database_def)
  moreover have "config_validate (cfg closed_store) = None"
    by (simp add: config_validate_def closed_store_def new_store_def max_retention_hours_def hour_ns_def)
  moreover have "oe_mkdir quiet_os = None" by (simp add: quiet_os_def)
  ultimately show ?thesis using m(1) by (simp add: Start_def store_path_def [symmetric])
qed


theorem ownership_is_exclusive_witness:
  "\<exists>w. holds w 4 7 \<and> \<not> holds w 5 7 \<and> mc_locks (w_machine w) 7 = Some 4"
proof -
  let ?path = store_path
  let ?w0 = "idle_world empty_machine"
  obtain i m where first: "open_lock ?path empty_machine = (i, m)" by fastforce
  have i: "i = 7" "mc_locks m = (\<lambda>_. None)"
    using first by (auto simp: open_lock_def empty_machine_def)
  let ?w1 = "?w0\<lparr>w_machine := m, w_handle := (w_handle ?w0)(4 := Opened i)\<rparr>"
  have "own_step ?path ?w0 ?w1"
    by (rule own_step.open_file) (use first in \<open>simp_all add: idle_world_def\<close>)
  moreover obtain m2 where second: "try_flock 4 i m = Some m2" using i by (simp add: try_flock_def)
  let ?w2 = "?w1\<lparr>w_machine := m2, w_handle := (w_handle ?w1)(4 := Locked i)\<rparr>"
  have "own_step ?path ?w1 ?w2" by (rule own_step.lock) (use second in simp_all)
  ultimately have run: "(own_step ?path)\<^sup>*\<^sup>* ?w0 ?w2" by (meson r_into_rtranclp rtranclp_trans)
  have held: "holds ?w2 4 7" using i by (simp add: holds_def)
  have "\<forall>i. mc_locks empty_machine i = None" by (simp add: empty_machine_def)
  note only = ownership_is_exclusive [OF run this]
  from only held have "mc_locks (w_machine ?w2) 7 = Some 4" by blast
  moreover from only held have "\<not> holds ?w2 5 7" by fastforce
  ultimately show ?thesis using held by blast
qed

end
