(* ===== verification/Utf8Text.thy ===== *)
theory Utf8Text
  imports JsonText
begin

text \<open>
  UTF-8 both ways: what \<open>utf8.DecodeRune\<close> yields can be encoded again, and reading an
  encoded sequence of code points gives that sequence back.
\<close>

definition valid_rune :: "nat \<Rightarrow> bool" where
  "valid_rune r \<longleftrightarrow> r < 1114112 \<and> \<not> (55296 \<le> r \<and> r < 57344)"

lemma decode_rune_valid: "decode_rune s = Some (r, w) \<Longrightarrow> valid_rune r"
proof (cases s)
  case (Cons a cs)
  assume decoded: "decode_rune s = Some (r, w)"
  have bounds: "byte c < 256" for c by (rule byte_bound)
  show ?thesis
  proof (cases "byte a < 128")
    case True
    with decoded Cons show ?thesis by (simp add: decode_rune.simps valid_rune_def)
  next
    case False
    with decoded Cons obtain c1 cs1 where c1: "cs = c1 # cs1" "second_ok (byte a) c1"
      by (cases cs) (auto simp: decode_rune.simps Let_def split: if_splits)
    from c1(2) have b1: "128 \<le> byte c1" "byte c1 < 192" "byte a = 237 \<longrightarrow> byte c1 < 160" "byte a = 244 \<longrightarrow> byte c1 < 144"
      by (auto simp: second_ok_def continuation_def)
    show ?thesis
    proof (cases "194 \<le> byte a \<and> byte a < 224")
      case True
      with decoded Cons False c1 b1 show ?thesis
        by (auto simp: decode_rune.simps Let_def valid_rune_def split: if_splits)
    next
      case two: False
      with decoded Cons False c1 obtain c2 cs2 where c2: "cs1 = c2 # cs2" "continuation c2"
        by (cases cs1) (auto simp: decode_rune.simps Let_def split: if_splits)
      from c2(2) have b2: "128 \<le> byte c2" "byte c2 < 192" by (auto simp: continuation_def)
      show ?thesis
      proof (cases "224 \<le> byte a \<and> byte a < 240")
        case True
        define k x y where "k = byte a - 224" and "x = byte c1 - 128" and "y = byte c2 - 128"
        with decoded Cons False two c1 c2 True have r: "r = (k * 64 + x) * 64 + y"
          by (auto simp: decode_rune.simps Let_def)
        have xy: "x < 64" "y < 64" "k < 16" "k = 13 \<longrightarrow> x < 32"
          using b1 b2 True by (auto simp: k_def x_def y_def)
        then have "k \<le> 12 \<or> k = 13 \<or> 14 \<le> k" by linarith
        with r xy show ?thesis by (auto simp: valid_rune_def)
      next
        case three: False
        with decoded Cons False two c1 c2 obtain c3 cs3 where c3: "cs2 = c3 # cs3" "continuation c3"
          "240 \<le> byte a" "byte a < 245"
          and r: "r = (((byte a - 240) * 64 + (byte c1 - 128)) * 64 + (byte c2 - 128)) * 64 + (byte c3 - 128)"
          by (cases cs2) (auto simp: decode_rune.simps Let_def split: if_splits)
        define k x y z where "k = byte a - 240" and "x = byte c1 - 128" and "y = byte c2 - 128"
          and "z = byte c3 - 128"
        have lead: "byte a = 240 \<longrightarrow> 144 \<le> byte c1" using c1(2) by (simp add: second_ok_def)
        have "r = ((k * 64 + x) * 64 + y) * 64 + z" unfolding k_def x_def y_def z_def by (rule r)
        moreover have "x < 64" "y < 64" "z < 64" "k = 0 \<longrightarrow> 16 \<le> x" "k < 4 \<or> k = 4 \<and> x < 16"
          using b1 b2 c3 lead by (auto simp: k_def x_def y_def z_def continuation_def)
        moreover have "r \<le> 1114111" if "x < 64" "k < 4" using calculation that by simp
        ultimately show ?thesis by (auto simp: valid_rune_def)
      qed
    qed
  qed
qed (simp add: decode_rune.simps)

lemma runes_valid: "r \<in> set (runes s) \<Longrightarrow> valid_rune r"
proof (induction s rule: runes.induct)
  case (2 c cs)
  show ?case
  proof (cases "decode_rune (c # cs)")
    case None
    with 2 show ?thesis by (auto simp: valid_rune_def)
  next
    case (Some p)
    with 2 decode_rune_valid show ?thesis by (cases p) auto
  qed
qed simp

lemma base64_digits:
  fixes r :: nat
  shows "r = (r div 4096 * 64 + r div 64 mod 64) * 64 + r mod 64"
    and "r = ((r div 262144 * 64 + r div 4096 mod 64) * 64 + r div 64 mod 64) * 64 + r mod 64"
proof -
  have quotients: "r div 64 div 64 = r div 4096" "r div 4096 div 64 = r div 262144"
    by (simp_all add: div_mult2_eq [symmetric])
  have mid: "r div 4096 * 64 + r div 64 mod 64 = r div 64"
    by (subst quotients(1) [symmetric]) (rule div_mult_mod_eq)
  have high: "r div 262144 * 64 + r div 4096 mod 64 = r div 4096"
    by (subst quotients(2) [symmetric]) (rule div_mult_mod_eq)
  show "r = (r div 4096 * 64 + r div 64 mod 64) * 64 + r mod 64"
    unfolding mid by (rule div_mult_mod_eq [symmetric])
  show "r = ((r div 262144 * 64 + r div 4096 mod 64) * 64 + r div 64 mod 64) * 64 + r mod 64"
    unfolding high mid by (rule div_mult_mod_eq [symmetric])
qed

lemma decode_encode_rune:
  assumes "valid_rune r"
  shows "decode_rune (encode_rune r @ s) = Some (r, length (encode_rune r))"
proof -
  consider "r < 128" | "128 \<le> r" "r < 2048" | "2048 \<le> r" "r < 65536" | "65536 \<le> r" by linarith
  then show ?thesis
  proof cases
    case 1
    then show ?thesis by (simp add: encode_rune_def decode_rune.simps byte_char_of)
  next
    case 2
    then have "r div 64 < 32" "2 \<le> r div 64" by auto
    with 2 show ?thesis
      by (simp add: Let_def encode_rune_def decode_rune.simps byte_char_of second_ok_def continuation_def)
  next
    case 3
    let ?a = "r div 4096" and ?b = "r div 64 mod 64" and ?c = "r mod 64"
    note base64_digits(1) [of r]
    then have parts: "r = (?a * 64 + ?b) * 64 + ?c" "?b < 64" "?c < 64" "?a < 16" using 3 by auto
    have "?a = 0 \<longrightarrow> 32 \<le> ?b" using 3 by auto
    moreover have "?a = 13 \<longrightarrow> ?b < 32"
    proof (rule impI, rule ccontr)
      assume that: "?a = 13" and "\<not> ?b < 32"
      then have b: "32 \<le> ?b" by simp
      have "r = 53248 + ?b * 64 + ?c" "r < 57344" using parts(1,2,3) that by simp_all
      with b have "55296 \<le> r" by linarith
      with assms \<open>r < 57344\<close> show False by (simp add: valid_rune_def)
    qed
    ultimately show ?thesis using 3 parts
      by (simp add: Let_def encode_rune_def decode_rune.simps byte_char_of second_ok_def continuation_def)
  next
    case 4
    let ?a = "r div 262144" and ?b = "r div 4096 mod 64" and ?c = "r div 64 mod 64" and ?d = "r mod 64"
    note base64_digits(2) [of r]
    then have parts: "r = ((?a * 64 + ?b) * 64 + ?c) * 64 + ?d" "?b < 64" "?c < 64" "?d < 64" by auto
    have "?a \<le> 4" using assms by (auto simp: valid_rune_def)
    moreover have "?a = 0 \<longrightarrow> 16 \<le> ?b" using 4 by auto
    moreover have "?a = 4 \<longrightarrow> ?b < 16"
    proof (rule impI, rule ccontr)
      assume that: "?a = 4" and "\<not> ?b < 16"
      then have b: "16 \<le> ?b" by simp
      have "r = 1048576 + ?b * 4096 + ?c * 64 + ?d" using parts(1) that by simp
      with b have "1114112 \<le> r" by linarith
      with assms show False by (simp add: valid_rune_def)
    qed
    ultimately show ?thesis using 4 parts
      by (simp add: Let_def encode_rune_def decode_rune.simps byte_char_of second_ok_def continuation_def)
  qed
qed

lemma encode_rune_cons: "\<exists>c cs. encode_rune r = c # cs"
  by (simp add: encode_rune_def)

lemma runes_encode_rune: "valid_rune r \<Longrightarrow> runes (encode_rune r @ s) = r # runes s"
  using encode_rune_cons [of r] decode_encode_rune [of r s] by (elim exE) simp

definition encode_runes :: "nat list \<Rightarrow> string" where
  "encode_runes rs = concat (map encode_rune rs)"

lemma runes_encode_runes:
  "list_all valid_rune rs \<Longrightarrow> runes (encode_runes rs @ s) = rs @ runes s"
  by (induction rs) (simp_all add: encode_runes_def runes_encode_rune)

lemma encode_rune_ascii: "r < 128 \<Longrightarrow> encode_rune r = [char_of r]"
  by (simp add: encode_rune_def)

lemma encode_runes_ascii: "ascii s \<Longrightarrow> encode_runes (map byte s) = s"
  by (induction s) (auto simp: encode_runes_def encode_rune_ascii ascii_def)

lemma ascii_valid: "ascii s \<Longrightarrow> list_all valid_rune (map byte s)"
  by (induction s) (auto simp: ascii_def valid_rune_def)

lemma runes_ascii: "ascii a \<Longrightarrow> runes (a @ s) = map byte a @ runes s"
  using runes_encode_runes [OF ascii_valid, of a s] by (simp add: encode_runes_ascii)

lemma encode_runes_append: "encode_runes (xs @ ys) = encode_runes xs @ encode_runes ys"
  by (simp add: encode_runes_def)

end
