(* ===== verification/Presentation.thy ===== *)
theory Presentation
  imports QueryRead Utf8Text
begin

text \<open>
  The human output of the command line (\<open>humanValue\<close>, \<open>safeCell\<close>, \<open>printHuman\<close> in
  \<^verbatim>\<open>cmd/logal/presentation.go\<close>): labels, the escaping of control characters, the
  table with its column widths, and the byte limit.
\<close>

section \<open>Values\<close>

text \<open>
  \<open>strconv.FormatFloat(x, 'g', -1, 64)\<close>, and \<open>json.Unmarshal\<close> into a map of raw values,
  into a string, and into a list of keys with maps of raw values. A map is the list of its
  entries in the order of the iteration.
\<close>

record human_codec =
  hc_float :: "64 word \<Rightarrow> string"
  hc_object :: "string \<Rightarrow> (string \<times> string) list option"
  hc_text :: "string \<Rightarrow> string option"
  hc_attrs :: "string \<Rightarrow> (string \<times> (string \<times> string) list) list option"
  hc_cell :: codec

definition kind_labels :: "string list" where
  "kind_labels = [''unspecified'', ''internal'', ''server'', ''client'', ''producer'', ''consumer'']"

definition status_labels :: "string list" where
  "status_labels = [''unset'', ''ok'', ''error'']"

definition severity_labels :: "string list" where
  "severity_labels = [''trace'', ''debug'', ''info'', ''warn'', ''error'', ''fatal'']"

definition code_label :: "string \<Rightarrow> int \<Rightarrow> string option" where
  "code_label column n =
     (if column = ''kind'' \<or> column = ''span_kind''
      then (if 0 \<le> n \<and> n \<le> 5 then Some (kind_labels ! nat n) else None)
      else if column = ''status_code''
      then (if 0 \<le> n \<and> n \<le> 2 then Some (status_labels ! nat n) else None)
      else if column = ''severity_number''
      then (if 1 \<le> n \<and> n \<le> 24 then Some (severity_labels ! nat ((n - 1) div 4)) else None)
      else None)"

definition body_label :: "human_codec \<Rightarrow> string \<Rightarrow> string option" where
  "body_label hc raw =
     (case hc_object hc raw of
        None \<Rightarrow> None
      | Some body \<Rightarrow>
     (case map_of body ''string'' of
        None \<Rightarrow> None
      | Some message \<Rightarrow> hc_text hc message))"

definition attr_pairs :: "human_codec \<Rightarrow> string \<times> (string \<times> string) list \<Rightarrow> string list" where
  "attr_pairs hc attr =
     map (\<lambda>(kind, v). fst attr @ ''='' @
         (if kind = ''intValue'' then (case hc_text hc v of Some number \<Rightarrow> number | None \<Rightarrow> v) else v))
       (snd attr)"

definition attrs_label :: "human_codec \<Rightarrow> string \<Rightarrow> string option" where
  "attrs_label hc raw =
     map_option (\<lambda>attrs. join '', '' (concat (map (attr_pairs hc) attrs))) (hc_attrs hc raw)"

definition plain_value :: "human_codec \<Rightarrow> cell \<Rightarrow> string" where
  "plain_value hc v =
     (case v of
        CText s \<Rightarrow> s
      | CReal x \<Rightarrow> hc_float hc x
      | _ \<Rightarrow> (case encode_cell (hc_cell hc) v of Inl _ \<Rightarrow> [] | Inr s \<Rightarrow> s))"

definition otel_label :: "human_codec \<Rightarrow> string \<Rightarrow> cell \<Rightarrow> string option" where
  "otel_label hc column v =
     (case v of
        CInt n \<Rightarrow> code_label column n
      | CRaw raw \<Rightarrow>
          if column = ''body'' then body_label hc raw
          else if column = ''attributes'' \<or> column = ''resource_attributes'' \<or> column = ''scope_attributes''
          then attrs_label hc raw
          else None
      | _ \<Rightarrow> None)"

definition humanValue :: "human_codec \<Rightarrow> string \<Rightarrow> cell \<Rightarrow> bool \<Rightarrow> string" where
  "humanValue hc column v otel =
     (case (if otel then otel_label hc column v else None) of
        Some label \<Rightarrow> label
      | None \<Rightarrow> plain_value hc v)"

section \<open>Escaping\<close>

text \<open>\<open>unicode.IsControl\<close>\<close>

definition is_control :: "nat \<Rightarrow> bool" where
  "is_control r \<longleftrightarrow> r < 32 \<or> (127 \<le> r \<and> r < 160)"

definition safe_rune :: "nat \<Rightarrow> string" where
  "safe_rune r =
     (if r = 10 then [backslash, CHR ''n'']
      else if r = 13 then [backslash, CHR ''r'']
      else if r = 9 then [backslash, CHR ''t'']
      else if is_control r \<or> r = 8232 \<or> r = 8233 then unicode_escape r
      else encode_rune r)"

definition safeCell :: "string \<Rightarrow> string" where
  "safeCell s = concat (map safe_rune (runes s))"

definition rune_count :: "string \<Rightarrow> nat" where
  "rune_count s = length (runes s)"

section \<open>The table\<close>

definition ellipsis :: string where
  "ellipsis = [CHR 0xE2, CHR 0x80, CHR 0xA6]"

definition tab :: char where
  "tab = CHR 0x09"

text \<open>The text of a cell, and whether it was shortened.\<close>

definition cell_text :: "human_codec \<Rightarrow> bool \<Rightarrow> bool \<Rightarrow> string \<Rightarrow> cell \<Rightarrow> string \<times> bool" where
  "cell_text hc compact otel column v =
     (let cell = safeCell (humanValue hc column v otel) in
      if compact \<and> rune_count cell > 64
      then (encode_runes (take 63 (runes cell)) @ ellipsis, True)
      else (cell, False))"

definition row_cells :: "human_codec \<Rightarrow> bool \<Rightarrow> bool \<Rightarrow> string list \<Rightarrow> row \<Rightarrow> (string \<times> bool) list" where
  "row_cells hc compact otel columns r =
     map (\<lambda>c. case map_of r c of None \<Rightarrow> ([], False) | Some v \<Rightarrow> cell_text hc compact otel c v) columns"

definition widen :: "nat list \<Rightarrow> string list \<Rightarrow> nat list" where
  "widen widths cells = map2 (\<lambda>w cell. max w (rune_count cell)) widths cells"

definition column_widths :: "string list \<Rightarrow> string list list \<Rightarrow> nat list" where
  "column_widths columns cells = foldl widen (map (\<lambda>c. rune_count (safeCell c)) columns) cells"

text \<open>\<open>strings.Repeat\<close> panics on a negative number; \<open>None\<close> is a panic.\<close>

definition spaces :: "int \<Rightarrow> string option" where
  "spaces n = (if n < 0 then None else Some (replicate (nat n) CHR '' ''))"

definition gap :: "bool \<Rightarrow> nat list \<Rightarrow> nat \<Rightarrow> string \<Rightarrow> string option" where
  "gap compact widths i v =
     (if \<not> compact then Some [tab]
      else if i < length widths then spaces (int (widths ! i) - int (rune_count v) + 2)
      else None)"

fun write_cells :: "bool \<Rightarrow> nat list \<Rightarrow> nat \<Rightarrow> string list \<Rightarrow> string option" where
  "write_cells compact widths i [] = Some []"
| "write_cells compact widths i [v] = Some v"
| "write_cells compact widths i (v # v' # vs) =
     (case gap compact widths i v of
        None \<Rightarrow> None
      | Some space \<Rightarrow>
          map_option (\<lambda>rest. v @ space @ rest) (write_cells compact widths (Suc i) (v' # vs)))"

definition writeRow :: "bool \<Rightarrow> nat list \<Rightarrow> string list \<Rightarrow> string option" where
  "writeRow compact widths vs = map_option (\<lambda>s. s @ [newline]) (write_cells compact widths 0 vs)"

definition over_budget :: go_error where
  "over_budget = Msg ''formatted output exceeds --max-bytes; reduce --limit or --columns, or increase --max-bytes''"

fun write_rows :: "bool \<Rightarrow> nat list \<Rightarrow> int \<Rightarrow> string \<Rightarrow> string list list \<Rightarrow> string result option" where
  "write_rows compact widths maxBytes buffer [] = Some (Inr buffer)"
| "write_rows compact widths maxBytes buffer (r # rs) =
     (case writeRow compact widths r of
        None \<Rightarrow> None
      | Some line \<Rightarrow>
          if int (length (buffer @ line)) > maxBytes then Some (Inl over_budget)
          else write_rows compact widths maxBytes (buffer @ line) rs)"

text \<open>A nil \<open>NextOffset\<close> would be dereferenced.\<close>

definition count_line :: "Result \<Rightarrow> string option" where
  "count_line res =
     (if \<not> Truncated res then Some (show_int (Count res) @ '' rows'')
      else map_option (\<lambda>n. show_int (Count res) @ '' rows'' @ ''; truncated ('' @ Reason res @
          ''), next --offset '' @ show_int n) (NextOffset res))"

definition shortened_line :: string where
  "shortened_line = ''Long cells shortened; use --details or --json for complete values.''"

definition summary_line :: string where
  "summary_line = ''Summary view; use --details for all fields, or --columns to choose them.''"

definition human_cells :: "human_codec \<Rightarrow> bool \<Rightarrow> bool \<Rightarrow> Result \<Rightarrow> (string \<times> bool) list list" where
  "human_cells hc compact otel res = map (row_cells hc compact otel (r_Columns res)) (r_Rows res)"

text \<open>The bytes handed to \<open>out.Write\<close>, or the error; \<open>None\<close> is a panic.\<close>

definition printHuman :: "human_codec \<Rightarrow> int \<Rightarrow> bool \<Rightarrow> bool \<Rightarrow> Result \<Rightarrow> string result option" where
  "printHuman hc maxBytes compact otel res =
     (let marked = human_cells hc compact otel res;
          cells = map (map fst) marked;
          shortened = (\<exists>r\<in>set marked. \<exists>c\<in>set r. snd c);
          widths = column_widths (r_Columns res) cells
      in
     (case (if r_Columns res = [] then Some [] else writeRow compact widths (map safeCell (r_Columns res))) of
        None \<Rightarrow> None
      | Some header \<Rightarrow>
     (case write_rows compact widths maxBytes header cells of
        None \<Rightarrow> None
      | Some (Inl e) \<Rightarrow> Some (Inl e)
      | Some (Inr buffer) \<Rightarrow>
     (case count_line res of
        None \<Rightarrow> None
      | Some line \<Rightarrow>
          let text = buffer @ line @ [newline] @
                (if shortened then shortened_line @ [newline] else []) @
                (if compact \<and> otel then summary_line @ [newline] else [])
          in if int (length text) > maxBytes then Some (Inl over_budget) else Some (Inr text)))))"

section \<open>Clean text\<close>

text \<open>Code points that neither move the cursor nor end a line.\<close>

definition printable :: "nat \<Rightarrow> bool" where
  "printable r \<longleftrightarrow> valid_rune r \<and> \<not> is_control r \<and> r \<noteq> 8232 \<and> r \<noteq> 8233"

definition clean :: "string \<Rightarrow> bool" where
  "clean s \<longleftrightarrow> (\<exists>rs. s = encode_runes rs \<and> list_all printable rs)"

lemma printable_valid: "list_all printable rs \<Longrightarrow> list_all valid_rune rs"
  by (induction rs) (simp_all add: printable_def)

lemma clean_runes: "clean s \<Longrightarrow> s = encode_runes (runes s) \<and> list_all printable (runes s)"
  using runes_encode_runes [OF printable_valid, of _ "[]"] by (auto simp: clean_def)

lemma clean_runes_append: "clean s \<Longrightarrow> runes (s @ t) = runes s @ runes t"
  using runes_encode_runes [OF printable_valid] by (metis append_Nil2 clean_def runes.simps(1))

lemma clean_append [intro]: "clean s \<Longrightarrow> clean t \<Longrightarrow> clean (s @ t)"
  unfolding clean_def by (metis encode_runes_append list_all_append)

lemma clean_Nil [simp]: "clean []"
  unfolding clean_def by (rule exI [of _ "[]"]) (simp add: encode_runes_def)

lemma clean_concat: "(\<And>s. s \<in> set ss \<Longrightarrow> clean s) \<Longrightarrow> clean (concat ss)"
  by (induction ss) auto

lemma clean_encode: "list_all printable rs \<Longrightarrow> clean (encode_runes rs)"
  unfolding clean_def by blast

definition plain_ascii :: "string \<Rightarrow> bool" where
  "plain_ascii s \<longleftrightarrow> list_all (\<lambda>c. 32 \<le> byte c \<and> byte c < 127) s"

lemma plain_ascii_clean: "plain_ascii s \<Longrightarrow> clean s"
proof -
  assume plain: "plain_ascii s"
  then have "s = encode_runes (map byte s)"
    by (intro encode_runes_ascii [symmetric]) (auto simp: plain_ascii_def ascii_def list_all_iff)
  moreover have "list_all printable (map byte s)"
    using plain by (auto simp: plain_ascii_def printable_def is_control_def valid_rune_def list_all_iff)
  ultimately show ?thesis unfolding clean_def by blast
qed

lemma plain_ascii_append [simp]: "plain_ascii (s @ t) \<longleftrightarrow> plain_ascii s \<and> plain_ascii t"
  by (simp add: plain_ascii_def)

lemma plain_ascii_Cons [simp]: "plain_ascii (c # s) \<longleftrightarrow> 32 \<le> byte c \<and> byte c < 127 \<and> plain_ascii s"
  by (simp add: plain_ascii_def)

lemma plain_ascii_Nil [simp]: "plain_ascii []"
  by (simp add: plain_ascii_def)

lemma hex_digit_plain: "n < 16 \<Longrightarrow> 32 \<le> byte (hex_digit n) \<and> byte (hex_digit n) < 127"
  by (simp add: hex_digit_def byte_char_of)

lemma unicode_escape_plain: "plain_ascii (unicode_escape r)"
  using hex_digit_plain by (simp add: unicode_escape_def plain_ascii_def byte_def)

lemma safe_rune_clean: "valid_rune r \<Longrightarrow> clean (safe_rune r)"
proof -
  assume valid: "valid_rune r"
  have "clean [backslash, c]" if "c \<in> {CHR ''n'', CHR ''r'', CHR ''t''}" for c
    using that by (intro plain_ascii_clean) (auto simp: plain_ascii_def byte_def)
  moreover have "clean (encode_rune r)" if "\<not> is_control r" "r \<noteq> 8232" "r \<noteq> 8233"
    using clean_encode [of "[r]"] that valid by (simp add: encode_runes_def printable_def)
  ultimately show ?thesis
    using plain_ascii_clean [OF unicode_escape_plain] by (simp add: safe_rune_def)
qed

lemma safeCell_clean: "clean (safeCell s)"
  unfolding safeCell_def by (rule clean_concat) (auto intro: safe_rune_clean runes_valid)

lemma ellipsis_clean: "clean ellipsis"
proof -
  have "ellipsis = encode_runes [8230]"
    by (simp add: encode_runes_def encode_rune_def ellipsis_def char_of_def bit_0)
  then show ?thesis
    using clean_encode [of "[8230]"] by (simp add: printable_def valid_rune_def is_control_def)
qed

lemma list_all_take: "list_all P xs \<Longrightarrow> list_all P (take n xs)"
  by (simp add: list_all_iff) (meson in_set_takeD)

lemma cell_text_clean: "clean (fst (cell_text hc compact otel column v))"
proof -
  have "clean (encode_runes (take 63 (runes (safeCell x))) @ ellipsis)" for x
    using clean_runes [OF safeCell_clean, of x] ellipsis_clean
    by (intro clean_append clean_encode list_all_take) auto
  then show ?thesis by (simp add: cell_text_def Let_def safeCell_clean)
qed

lemma row_cells_clean: "c \<in> set (row_cells hc compact otel columns r) \<Longrightarrow> clean (fst c)"
  by (auto simp: row_cells_def cell_text_clean split: option.split)

text \<open>No byte of clean text is a tab or a newline.\<close>

lemma encode_rune_bytes: "c \<in> set (encode_rune r) \<Longrightarrow> valid_rune r \<Longrightarrow> byte c = r \<or> 128 \<le> byte c"
  by (auto simp: encode_rune_def byte_char_of valid_rune_def split: if_splits)

lemma clean_no_control: "clean s \<Longrightarrow> c \<in> set s \<Longrightarrow> \<not> byte c < 32"
proof -
  assume "clean s" "c \<in> set s"
  then obtain rs where "c \<in> set (concat (map encode_rune rs))" "\<forall>r\<in>set rs. printable r"
    by (auto simp: clean_def encode_runes_def list_all_iff)
  then obtain r where "printable r" "c \<in> set (encode_rune r)" by auto
  with encode_rune_bytes [of c r] show ?thesis by (auto simp: printable_def is_control_def)
qed

lemma split_at_append: "sep \<notin> set v \<Longrightarrow> split_at sep (v @ sep # s) = v # split_at sep s"
  by (induction v) auto

lemma split_at_whole: "sep \<notin> set v \<Longrightarrow> split_at sep v = [v]"
  by (induction v) auto

lemma clean_no_tab: "clean s \<Longrightarrow> tab \<notin> set s"
  using clean_no_control [of s tab] by (auto simp: tab_def byte_def)

section \<open>Writing rows\<close>

text \<open>The widths are at least those of the cells, so that no padding is negative.\<close>

definition fits :: "nat list \<Rightarrow> string list \<Rightarrow> bool" where
  "fits widths vs \<longleftrightarrow> list_all2 (\<lambda>w v. rune_count v \<le> w) widths vs"

lemma write_cells_fit:
  assumes "fits (drop i widths) vs" "\<forall>v\<in>set vs. clean v"
  shows "\<exists>line. write_cells compact widths i vs = Some line \<and>
    (compact \<longrightarrow> clean line) \<and> (\<not> compact \<longrightarrow> line = join [tab] vs)"
  using assms
proof (induction compact widths i vs rule: write_cells.induct)
  case (3 compact widths i v v' vs)
  from 3(2) have "i < length widths" by (cases "i < length widths") (auto simp: fits_def)
  then have "drop i widths = widths ! i # drop (Suc i) widths" by (simp add: Cons_nth_drop_Suc)
  with 3(2) have i: "i < length widths" "rune_count v \<le> widths ! i" "fits (drop (Suc i) widths) (v' # vs)"
    using \<open>i < length widths\<close> by (simp_all add: fits_def)
  define space where "space = (if compact then replicate (nat (int (widths ! i) - int (rune_count v) + 2)) CHR '' '' else [tab])"
  have g: "gap compact widths i v = Some space" using i(1,2) by (simp add: gap_def spaces_def space_def)
  from 3(1) [OF g i(3)] 3(3) obtain line where line: "write_cells compact widths (Suc i) (v' # vs) = Some line"
    "compact \<longrightarrow> clean line" "\<not> compact \<longrightarrow> line = join [tab] (v' # vs)" by auto
  have "plain_ascii (replicate n CHR '' '')" for n by (simp add: plain_ascii_def byte_def list_all_iff)
  then have "clean space" if compact using that by (simp add: space_def plain_ascii_clean)
  with 3(3) line(2) have "clean (v @ space @ line)" if compact using that by auto
  with g line show ?case by (auto simp: space_def)
qed (auto simp: fits_def)

lemma widen_fits: "fits widths vs \<Longrightarrow> length cells = length widths \<Longrightarrow> fits (widen widths cells) vs"
  by (auto simp: fits_def widen_def list_all2_conv_all_nth max_def intro: order.trans)

lemma widen_self: "length cells = length widths \<Longrightarrow> fits (widen widths cells) cells"
  by (auto simp: fits_def widen_def list_all2_conv_all_nth)

lemma length_widen: "length cells = length widths \<Longrightarrow> length (widen widths cells) = length widths"
  by (simp add: widen_def)

lemma foldl_widen_fits:
  assumes "\<forall>c\<in>set cells. length c = length widths"
  shows "(fits widths vs \<longrightarrow> fits (foldl widen widths cells) vs) \<and>
    (\<forall>c\<in>set cells. fits (foldl widen widths cells) c)"
  using assms
proof (induction cells arbitrary: widths vs)
  case (Cons c cells)
  have "\<forall>d\<in>set cells. length d = length (widen widths c)" using Cons.prems by (simp add: length_widen)
  note step = Cons.IH [OF this]
  have "fits widths vs \<longrightarrow> fits (widen widths c) vs" "fits (widen widths c) c"
    using Cons.prems by (simp_all add: widen_fits widen_self)
  with step show ?case by fastforce
qed simp

lemma header_fits: "fits (map (\<lambda>c. rune_count (safeCell c)) columns) (map safeCell columns)"
  by (simp add: fits_def list_all2_conv_all_nth)

text \<open>Lines with their newlines.\<close>

definition lines_text :: "string list \<Rightarrow> string" where
  "lines_text ls = concat (map (\<lambda>l. l @ [newline]) ls)"

lemma lines_text_append [simp]: "lines_text (xs @ ys) = lines_text xs @ lines_text ys"
  by (simp add: lines_text_def)

lemma lines_text_Nil [simp]: "lines_text [] = []"
  by (simp add: lines_text_def)

lemma lines_text_Cons [simp]: "lines_text (l # ls) = l @ newline # lines_text ls"
  by (simp add: lines_text_def)

definition row_line :: "bool \<Rightarrow> string list \<Rightarrow> string \<Rightarrow> bool" where
  "row_line compact vs line \<longleftrightarrow> (if compact then clean line else line = join [tab] vs)"

lemma write_rows_fit:
  assumes "\<forall>r\<in>set rs. fits widths r \<and> (\<forall>v\<in>set r. clean v)"
  shows "write_rows compact widths maxBytes buffer rs = Some (Inl over_budget) \<or>
    (\<exists>ls. write_rows compact widths maxBytes buffer rs = Some (Inr (buffer @ lines_text ls)) \<and>
      list_all2 (row_line compact) rs ls)"
  using assms
proof (induction rs arbitrary: buffer)
  case (Cons r rs)
  then obtain line where line: "write_cells compact widths 0 r = Some line"
    "compact \<longrightarrow> clean line" "\<not> compact \<longrightarrow> line = join [tab] r"
    using write_cells_fit [of 0 widths r compact] by auto
  then have ok: "row_line compact r line" by (simp add: row_line_def)
  have w: "writeRow compact widths r = Some (line @ [newline])" using line(1) by (simp add: writeRow_def)
  show ?case
  proof (cases "int (length (buffer @ line @ [newline])) > maxBytes")
    case True
    with w show ?thesis by simp
  next
    case False
    with w have "write_rows compact widths maxBytes buffer (r # rs) =
        write_rows compact widths maxBytes (buffer @ line @ [newline]) rs" by simp
    moreover have "write_rows compact widths maxBytes (buffer @ line @ [newline]) rs = Some (Inl over_budget) \<or>
        (\<exists>ls. write_rows compact widths maxBytes (buffer @ line @ [newline]) rs =
            Some (Inr ((buffer @ line @ [newline]) @ lines_text ls)) \<and> list_all2 (row_line compact) rs ls)"
      by (rule Cons.IH) (use Cons.prems in simp)
    ultimately show ?thesis
    proof (elim disjE exE conjE, goal_cases)
      case (2 ls)
      with ok show ?case by (intro disjI2 exI [of _ "line # ls"]) simp
    qed simp
  qed
qed simp

text \<open>The rows of the table with its header, as cells.\<close>

definition table_rows :: "human_codec \<Rightarrow> bool \<Rightarrow> bool \<Rightarrow> Result \<Rightarrow> string list list" where
  "table_rows hc compact otel res =
     (if r_Columns res = [] then [] else [map safeCell (r_Columns res)]) @
     map (map fst) (human_cells hc compact otel res)"

lemma show_int_plain: "plain_ascii (show_int n)"
proof -
  have "plain_ascii s" if "list_all is_digit s" for s
    using that by (auto simp: plain_ascii_def is_digit_def list_all_iff)
  then show ?thesis using show_nat_digits by (auto simp: show_int_def plain_ascii_def byte_def)
qed

lemma count_line_clean:
  "count_line res = Some line \<Longrightarrow> plain_ascii (Reason res) \<Longrightarrow> clean line"
  by (intro plain_ascii_clean) (auto simp: count_line_def show_int_plain byte_def split: if_splits)

lemma notes_clean: "clean shortened_line" "clean summary_line"
  by (simp_all add: plain_ascii_clean shortened_line_def summary_line_def byte_def)

lemma length_row_cells [simp]: "length (row_cells hc compact otel columns r) = length columns"
  by (simp add: row_cells_def)

lemma table_cells:
  "r \<in> set (table_rows hc compact otel res) \<Longrightarrow>
     length r = length (r_Columns res) \<and> (\<forall>v\<in>set r. clean v)"
proof -
  assume "r \<in> set (table_rows hc compact otel res)"
  then consider "r = map safeCell (r_Columns res)"
    | x where "r = map fst (row_cells hc compact otel (r_Columns res) x)"
    by (auto simp: table_rows_def human_cells_def split: if_splits)
  then show ?thesis by cases (auto simp: safeCell_clean dest: row_cells_clean)
qed

lemma table_fits:
  "r \<in> set (table_rows hc compact otel res) \<Longrightarrow>
     fits (column_widths (r_Columns res) (map (map fst) (human_cells hc compact otel res))) r"
proof -
  let ?w = "map (\<lambda>c. rune_count (safeCell c)) (r_Columns res)"
  let ?cells = "map (map fst) (human_cells hc compact otel res)"
  have "\<forall>c\<in>set ?cells. length c = length ?w" by (auto simp: human_cells_def row_cells_def)
  from foldl_widen_fits [OF this, of "map safeCell (r_Columns res)"] header_fits
  show "r \<in> set (table_rows hc compact otel res) \<Longrightarrow> ?thesis"
    by (auto simp: table_rows_def column_widths_def simp del: set_map split: if_splits)
qed

lemma printHuman_lines:
  assumes "Truncated res \<longrightarrow> NextOffset res \<noteq> None" "plain_ascii (Reason res)"
  shows "printHuman hc maxBytes compact otel res = Some (Inl over_budget) \<or>
    (\<exists>ls remarks. printHuman hc maxBytes compact otel res = Some (Inr (lines_text (ls @ remarks))) \<and>
      int (length (lines_text (ls @ remarks))) \<le> maxBytes \<and>
      list_all2 (row_line compact) (table_rows hc compact otel res) ls \<and>
      remarks \<noteq> [] \<and> (\<forall>n\<in>set remarks. clean n))"
proof -
  let ?cells = "map (map fst) (human_cells hc compact otel res)"
  let ?w = "column_widths (r_Columns res) ?cells"
  let ?header = "if r_Columns res = [] then [] else [map safeCell (r_Columns res)]"
  have rows: "\<forall>r\<in>set (table_rows hc compact otel res). fits ?w r \<and> (\<forall>v\<in>set r. clean v)"
    using table_fits table_cells by blast
  have "\<exists>ls. (if r_Columns res = [] then Some [] else writeRow compact ?w (map safeCell (r_Columns res))) =
      Some (lines_text ls) \<and> list_all2 (row_line compact) ?header ls"
  proof (cases "r_Columns res = []")
    case False
    with rows have "fits ?w (map safeCell (r_Columns res))" by (simp add: table_rows_def)
    with write_cells_fit [of 0 ?w "map safeCell (r_Columns res)" compact] obtain line where
      "write_cells compact ?w 0 (map safeCell (r_Columns res)) = Some line"
      "row_line compact (map safeCell (r_Columns res)) line"
      by (auto simp: row_line_def safeCell_clean)
    with False show ?thesis by (intro exI [of _ "[line]"]) (simp add: writeRow_def)
  qed simp
  then obtain hs where h: "(if r_Columns res = [] then Some [] else writeRow compact ?w (map safeCell (r_Columns res))) =
      Some (lines_text hs)" "list_all2 (row_line compact) ?header hs" by blast
  have "count_line res \<noteq> None" using assms(1) by (auto simp: count_line_def)
  then obtain line where line: "count_line res = Some line" by blast
  have "clean line" by (rule count_line_clean [OF line assms(2)])
  have "set ?cells \<subseteq> set (table_rows hc compact otel res)" unfolding table_rows_def by (simp del: set_map)
  with rows have "\<forall>r\<in>set ?cells. fits ?w r \<and> (\<forall>v\<in>set r. clean v)" by blast
  from write_rows_fit [OF this, of compact maxBytes "lines_text hs"] show ?thesis
  proof (elim disjE exE conjE)
    assume "write_rows compact ?w maxBytes (lines_text hs) ?cells = Some (Inl over_budget)"
    with h(1) show ?thesis by (simp add: printHuman_def)
  next
    fix ls
    assume w: "write_rows compact ?w maxBytes (lines_text hs) ?cells = Some (Inr (lines_text hs @ lines_text ls))"
      and ls: "list_all2 (row_line compact) ?cells ls"
    define remarks where "remarks = [line] @
      (if \<exists>r\<in>set (human_cells hc compact otel res). \<exists>c\<in>set r. snd c then [shortened_line] else []) @
      (if compact \<and> otel then [summary_line] else [])"
    have "printHuman hc maxBytes compact otel res =
        (if int (length (lines_text ((hs @ ls) @ remarks))) > maxBytes then Some (Inl over_budget)
         else Some (Inr (lines_text ((hs @ ls) @ remarks))))"
      unfolding printHuman_def Let_def h(1) option.case w sum.case line remarks_def by simp
    moreover have "list_all2 (row_line compact) (table_rows hc compact otel res) (hs @ ls)"
      unfolding table_rows_def using h(2) ls by (rule list_all2_appendI)
    moreover have "remarks \<noteq> [] \<and> (\<forall>n\<in>set remarks. clean n)"
      using \<open>clean line\<close> notes_clean by (auto simp: remarks_def)
    ultimately show ?thesis by (metis not_less)
  qed
qed

end
