(* ===== verification/CliQuery.thy ===== *)
theory CliQuery
  imports Presentation QueryColumns QueryReadProps
begin

text \<open>
  The query commands (\<open>queryAction\<close>, \<open>readSQL\<close>, \<open>printColumns\<close>, \<open>printResult\<close> in
  \<^verbatim>\<open>cmd/logal/query.go\<close>) and the choice of the command
  (\<^verbatim>\<open>cmd/logal/main.go\<close>). The flags arrive parsed; what the files, the standard
  input, SQLite and the output do comes from the environment.
\<close>

section \<open>Which command runs\<close>

datatype route = Collector "string list" | Command | UnknownCommand go_error

definition cli_commands :: "string list" where
  "cli_commands = [''services'', ''spans'', ''logs'', ''trace'', ''metrics'', ''sql'', ''clear'', ''reset-db'',
     ''help'', ''--help'', ''-h'', ''--version'', ''-v'']"

definition collector_commands :: "string list" where
  "collector_commands = [''components'', ''validate'', ''featuregate'', ''print-config'']"

text \<open>\<open>args\<close> is without the program name.\<close>

definition run_route :: "string list \<Rightarrow> route" where
  "run_route args =
     (case args of
        [] \<Rightarrow> Collector []
      | a # rest \<Rightarrow>
          if a = ''serve'' then Collector rest
          else if a \<in> set cli_commands then Command
          else if has_prefix ''-'' a \<or> a \<in> set collector_commands then Collector args
          else UnknownCommand (Msg (''unknown command '' @ go_quote a @ ''; use logal --help'')))"

text \<open>The text of a failed command on the error output.\<close>

definition error_output :: "string list \<Rightarrow> go_error \<Rightarrow> string" where
  "error_output args e =
     (if \<exists>a\<in>set args. a = ''--json'' \<or> a = ''--json=true''
      then ''{'' @ json_string ''error'' @ '':{'' @ json_string ''code'' @ '':'' @ json_string ''command_failed'' @
        '','' @ json_string ''message'' @ '':'' @ json_string (err_text e) @ ''}}''
      else err_text e) @ [newline]"

section \<open>Flags and environment\<close>

text \<open>\<open>None\<close> in the options stands for a flag that is not set.\<close>

record query_flags =
  qf_list_columns :: bool
  qf_json :: bool
  qf_details :: bool
  qf_include_empty :: bool
  qf_columns :: "string option"
  qf_db :: string
  qf_limit :: int
  qf_offset :: int
  qf_max_bytes :: int
  qf_timeout :: int
  qf_filters :: Filters
  qf_query :: "string option"
  qf_file :: "string option"
  qf_args :: "string list"

text \<open>
  A reader is its contents and the error after them, if any; opening a file may fail. The
  bound arguments go to SQLite, whose answer is \<open>qe_read\<close>.
\<close>

record query_env =
  qe_fold :: "string \<Rightarrow> string"
  qe_parsers :: parsers
  qe_now :: int
  qe_stdin :: "string \<times> go_error option"
  qe_open :: "string \<Rightarrow> (string \<times> go_error option) result"
  qe_codec :: codec
  qe_human :: human_codec
  qe_read :: "string \<Rightarrow> arg list \<Rightarrow> read_env"
  qe_duration :: "int \<Rightarrow> string"
  qe_write :: "string \<Rightarrow> go_error option"

section \<open>The statement\<close>

text \<open>\<open>io.ReadAll\<close> of a reader limited to n bytes: an error beyond the limit is not seen.\<close>

definition read_limited :: "nat \<Rightarrow> string \<times> go_error option \<Rightarrow> string result" where
  "read_limited n src =
     (case src of (contents, err) \<Rightarrow>
        if length contents < n then (case err of Some e \<Rightarrow> Inl e | None \<Rightarrow> Inr contents)
        else Inr (take n contents))"

definition readSQL :: "query_env \<Rightarrow> query_flags \<Rightarrow> string result" where
  "readSQL env fl =
     (if (qf_query fl \<noteq> None) = (qf_file fl \<noteq> None)
      then Inl (Msg ''sql requires exactly one of --query or --file'')
      else (case qf_query fl of
        Some q \<Rightarrow> Inr q
      | None \<Rightarrow>
     (case (if qf_file fl = Some ''-'' then Inr (qe_stdin env)
            else qe_open env (case qf_file fl of Some f \<Rightarrow> f | None \<Rightarrow> [])) of
        Inl e \<Rightarrow> Inl e
      | Inr reader \<Rightarrow>
     (case read_limited (MaxSQLBytes + 1) reader of
        Inl e \<Rightarrow> Inl e
      | Inr data \<Rightarrow>
          if length data > MaxSQLBytes then Inl (Msg ''SQL file exceeds 64 KiB'') else Inr data))))"

fun trim_columns :: "string list \<Rightarrow> string list result" where
  "trim_columns [] = Inr []"
| "trim_columns (c # cs) =
     (if trim_space c = []
      then Inl (Msg ''--columns requires nonempty comma-separated column names'')
      else (case trim_columns cs of Inl e \<Rightarrow> Inl e | Inr cs' \<Rightarrow> Inr (trim_space c # cs')))"

definition requested_columns :: "query_flags \<Rightarrow> string \<Rightarrow> string \<Rightarrow> string list result" where
  "requested_columns fl name view =
     (case qf_columns fl of
        Some text \<Rightarrow> trim_columns (split_at CHR '','' text)
      | None \<Rightarrow>
          Inr (if \<not> qf_json fl \<and> \<not> qf_details fl \<and> \<not> Payload (qf_filters fl)
               then summaryColumns name view else []))"

definition flag_options :: "query_flags \<Rightarrow> Options" where
  "flag_options fl = \<lparr>ColumnsOnly = qf_list_columns fl, IncludeEmpty = qf_include_empty fl, o_Columns = [],
     o_Path = qf_db fl, Limit = qf_limit fl, Offset = qf_offset fl, MaxBytes = qf_max_bytes fl,
     Timeout = qf_timeout fl\<rparr>"

text \<open>From the options to the answer of \<open>Read\<close>.\<close>

definition query_result ::
    "query_env \<Rightarrow> string \<Rightarrow> string \<Rightarrow> query_flags \<Rightarrow> (Result \<times> string list) result" where
  "query_result env name view fl =
     (case options_validate (flag_options fl) of
        Some e \<Rightarrow> Inl e
      | None \<Rightarrow>
     if name \<noteq> ''trace'' \<and> qf_args fl \<noteq> []
     then Inl (Msg (name @ '' does not accept positional arguments''))
     else
     (case command_statement (qe_fold env) (qe_parsers env) name view (qf_filters fl) (qf_args fl)
         (qe_now env) (readSQL env fl) of
        Inl e \<Rightarrow> Inl e
      | Inr (st, args) \<Rightarrow>
     (case requested_columns fl name view of
        Inl e \<Rightarrow> Inl e
      | Inr columns \<Rightarrow>
     (case Read (qe_codec env) ((flag_options fl)\<lparr>o_Columns := columns\<rparr>) st (name \<noteq> ''sql'')
         (qe_read env st args) of
        Inl e \<Rightarrow>
          Inl (if errors_is e DeadlineExceeded
               then WrapErr (''query exceeded --timeout '' @ qe_duration env (qf_timeout fl) @
                 ''; narrow the query or increase --timeout: '') e []
               else e)
      | Inr answer \<Rightarrow> Inr answer))))"

section \<open>Output\<close>

text \<open>The error of the command and the bytes given to the output; \<open>None\<close> is a panic.\<close>

type_synonym printed = "(go_error option \<times> string) option"

definition emit :: "query_env \<Rightarrow> string \<Rightarrow> go_error option \<times> string" where
  "emit env text = (qe_write env text, text)"

definition printColumns :: "query_env \<Rightarrow> string list \<Rightarrow> bool \<Rightarrow> go_error option \<times> string" where
  "printColumns env columns json_output =
     emit env (if json_output
       then ''{'' @ json_string ''columns'' @ '':['' @ join '','' (map json_string columns) @ '']}'' @ [newline]
       else join [newline] columns @ [newline])"

fun encode_rows :: "codec \<Rightarrow> row list \<Rightarrow> string list result" where
  "encode_rows cd [] = Inr []"
| "encode_rows cd (r # rs) =
     (case encode_row cd r of
        Inl e \<Rightarrow> Inl e
      | Inr t \<Rightarrow> (case encode_rows cd rs of Inl e \<Rightarrow> Inl e | Inr ts \<Rightarrow> Inr (t # ts)))"

definition print_text :: "query_env \<Rightarrow> string result option \<Rightarrow> printed" where
  "print_text env text =
     (case text of
        None \<Rightarrow> None
      | Some (Inl e) \<Rightarrow> Some (Some e, [])
      | Some (Inr t) \<Rightarrow> Some (emit env t))"

definition printResult :: "query_env \<Rightarrow> Result \<Rightarrow> bool \<Rightarrow> int \<Rightarrow> printed" where
  "printResult env res json_output maxBytes =
     (if \<not> json_output then print_text env (printHuman (qe_human env) maxBytes False True res)
      else (case encode_rows (qe_codec env) (r_Rows res) of
        Inl e \<Rightarrow> Some (Some e, [])
      | Inr ts \<Rightarrow>
          (let text = encode_result res ts @ [newline] in
           if int (length text) > maxBytes then Some (Some over_budget, []) else Some (emit env text))))"

definition compact_output :: "query_flags \<Rightarrow> bool" where
  "compact_output fl \<longleftrightarrow> \<not> qf_details fl \<and> \<not> Payload (qf_filters fl)"

definition queryAction :: "query_env \<Rightarrow> string \<Rightarrow> string \<Rightarrow> query_flags \<Rightarrow> printed" where
  "queryAction env name view fl =
     (if qf_list_columns fl \<and> name \<noteq> ''sql''
      then (case OutputColumns name view (Payload (qf_filters fl)) of
              Inl e \<Rightarrow> Some (Some e, [])
            | Inr columns \<Rightarrow> Some (printColumns env columns (qf_json fl)))
      else
     (case query_result env name view fl of
        Inl e \<Rightarrow> Some (Some e, [])
      | Inr (res, _) \<Rightarrow>
          if qf_json fl
          then (if qf_list_columns fl then Some (printColumns env (r_Columns res) True)
                else printResult env res True (qf_max_bytes fl))
          else if qf_list_columns fl then Some (printColumns env (r_Columns res) False)
          else print_text env (printHuman (qe_human env) (qf_max_bytes fl) (compact_output fl)
                 (name \<noteq> ''sql'') res)))"

section \<open>What is printed\<close>

lemma encode_rows_texts:
  "list_all2 (\<lambda>row t. encode_row cd row = Inr t) rs ts \<Longrightarrow> encode_rows cd rs = Inr ts"
  by (induction rule: list_all2_induct) simp_all

lemma query_result_Read:
  assumes "query_result env name view fl = Inr (res, ts)"
  obtains opts st args where "Read (qe_codec env) opts st (name \<noteq> ''sql'') (qe_read env st args) = Inr (res, ts)"
    "MaxBytes opts = qf_max_bytes fl"
proof -
  from assms obtain st args columns where
    "Read (qe_codec env) ((flag_options fl)\<lparr>o_Columns := columns\<rparr>) st (name \<noteq> ''sql'') (qe_read env st args) =
       Inr (res, ts)"
    by (auto simp: query_result_def split: option.splits sum.splits if_splits prod.splits)
  then show ?thesis by (rule that) (simp add: flag_options_def)
qed

lemma join_split:
  "vs \<noteq> [] \<Longrightarrow> \<forall>v\<in>set vs. sep \<notin> set v \<Longrightarrow> split_at sep (join [sep] vs) = vs"
  by (induction "[sep]" vs rule: join.induct) (simp_all add: split_at_append split_at_whole)

lemma details_lines_split:
  assumes "list_all2 (row_line False) rows ls" "\<forall>r\<in>set rows. r \<noteq> [] \<and> (\<forall>v\<in>set r. clean v)"
  shows "map (split_at tab) ls = rows"
  using assms by (induction rule: list_all2_induct) (auto simp: row_line_def clean_no_tab join_split)

lemma row_lines:
  assumes "list_all2 (row_line compact) rows ls" "\<forall>r\<in>set rows. length r = n \<and> (\<forall>v\<in>set r. clean v)"
  shows "length ls = length rows \<and>
    (if compact then \<forall>l\<in>set ls. clean l else n \<noteq> 0 \<longrightarrow> map (split_at tab) ls = rows)"
proof (cases compact)
  case True
  with assms(1) show ?thesis by (auto simp: list_all2_conv_all_nth row_line_def in_set_conv_nth)
next
  case False
  then have "map (split_at tab) ls = rows" if "n \<noteq> 0"
    using assms that by (intro details_lines_split) auto
  with False list_all2_lengthD [OF assms(1)] show ?thesis by simp
qed

lemma query_json:
  assumes "query_result env name view fl = Inr (res, ts)" "\<not> qf_list_columns fl" "qf_json fl"
  shows "queryAction env name view fl = Some (emit env (encode_result res ts @ [newline])) \<and>
    int (length (encode_result res ts @ [newline])) \<le> qf_max_bytes fl"
proof -
  from assms(1) obtain opts st args where
    r: "Read (qe_codec env) opts st (name \<noteq> ''sql'') (qe_read env st args) = Inr (res, ts)"
    and m: "MaxBytes opts = qf_max_bytes fl" by (rule query_result_Read)
  note budget = Read_budget [OF r]
  then have "encode_rows (qe_codec env) (r_Rows res) = Inr ts" using encode_rows_texts by blast
  with assms budget m show ?thesis by (simp add: queryAction_def printResult_def Let_def)
qed

lemma query_human:
  assumes "query_result env name view fl = Inr (res, ts)" "\<not> qf_list_columns fl" "\<not> qf_json fl"
  shows "queryAction env name view fl = Some (Some over_budget, []) \<or>
    (\<exists>ls remarks. queryAction env name view fl = Some (emit env (lines_text (ls @ remarks))) \<and>
       int (length (lines_text (ls @ remarks))) \<le> qf_max_bytes fl \<and>
       list_all2 (row_line (compact_output fl))
         (table_rows (qe_human env) (compact_output fl) (name \<noteq> ''sql'') res) ls \<and>
       remarks \<noteq> [] \<and> (\<forall>l\<in>set remarks. clean l))"
proof -
  let ?print = "printHuman (qe_human env) (qf_max_bytes fl) (compact_output fl) (name \<noteq> ''sql'') res"
  from assms(1) obtain opts st args where
    r: "Read (qe_codec env) opts st (name \<noteq> ''sql'') (qe_read env st args) = Inr (res, ts)"
    by (rule query_result_Read)
  note metadata = Read_metadata [OF r]
  then have "plain_ascii (Reason res)" by (auto simp: byte_def)
  with metadata have "?print = Some (Inl over_budget) \<or>
    (\<exists>ls remarks. ?print = Some (Inr (lines_text (ls @ remarks))) \<and>
       int (length (lines_text (ls @ remarks))) \<le> qf_max_bytes fl \<and>
       list_all2 (row_line (compact_output fl))
         (table_rows (qe_human env) (compact_output fl) (name \<noteq> ''sql'') res) ls \<and>
       remarks \<noteq> [] \<and> (\<forall>l\<in>set remarks. clean l))"
    by (intro printHuman_lines) blast+
  moreover have "queryAction env name view fl = print_text env ?print"
    using assms by (simp add: queryAction_def)
  ultimately show ?thesis by (elim disjE exE conjE) (auto simp: print_text_def simp del: list_all2_Cons)
qed


end
