(* ===== verification/CliAdmin.thy ===== *)
theory CliAdmin
  imports CliQuery StatusHandlers Ownership
begin

text \<open>
  The commands that delete telemetry: \<open>clear\<close> (\<^verbatim>\<open>cmd/logal/clear.go\<close>), which asks
  the running collector over HTTP, and \<open>reset-db\<close> (\<^verbatim>\<open>cmd/logal/reset.go\<close>),
  which removes the files of a stopped one. URL parsing, the HTTP client and the JSON decoder
  are parameters.
\<close>

section \<open>The endpoint\<close>

record url =
  url_scheme :: string
  url_user :: bool
  url_host :: string
  url_path :: string
  url_query :: string
  url_fragment :: string

fun contains_sub :: "string \<Rightarrow> string \<Rightarrow> bool" where
  "contains_sub sub [] = (sub = [])"
| "contains_sub sub (c # cs) = (has_prefix sub (c # cs) \<or> contains_sub sub cs)"

text \<open>
  What the client uses: \<open>url.Parse\<close> with the host name of the result, \<open>IsLoopback\<close> of a
  parsed address, \<open>filepath.Abs\<close>, the construction and the outcome of the request, the body of the response, and the decoder.
\<close>

record clear_call =
  cl_endpoint :: url
  cl_confirm :: string
  cl_content_type :: string
  cl_body :: string
  cl_timeout :: int

record clear_client =
  cc_url :: "string \<Rightarrow> url option"
  cc_hostname :: "url \<Rightarrow> string"
  cc_loopback :: "string \<Rightarrow> bool"
  cc_abs :: "string \<Rightarrow> string result"
  cc_request :: "go_error option"
  cc_send :: "clear_call \<Rightarrow> response result"
  cc_read :: "go_error option"
  cc_decode :: "string \<Rightarrow> ClearResult option"
  cc_encode :: "ClearResult \<Rightarrow> string"
  cc_time :: "int option \<Rightarrow> string"
  cc_write :: "string \<Rightarrow> go_error option"

definition clearEndpoint :: "clear_client \<Rightarrow> string \<Rightarrow> url result" where
  "clearEndpoint cc v =
     (let v = (if contains_sub ''://'' v then v else ''http://'' @ v);
          refused = Inl (Msg ''endpoint must be a local HTTP health endpoint, such as 127.0.0.1:13133'')
      in (case cc_url cc v of
        None \<Rightarrow> refused
      | Some u \<Rightarrow>
          if url_scheme u \<noteq> ''http'' \<or> url_user u \<or> url_query u \<noteq> [] \<or> url_fragment u \<noteq> [] \<or>
             (url_path u \<noteq> [] \<and> url_path u \<noteq> ''/'')
          then refused
          else if cc_hostname cc u \<noteq> ''localhost'' \<and> \<not> cc_loopback cc (cc_hostname cc u)
          then Inl (Msg ''clear endpoint must use a loopback IP address or localhost'')
          else Inr (u\<lparr>url_path := ''/clear''\<rparr>)))"

section \<open>The clear command\<close>

record clear_flags =
  cf_args :: "string list"
  cf_confirm :: bool
  cf_db :: string
  cf_endpoint :: string
  cf_json :: bool
  cf_timeout :: int

definition clear_body :: "string \<Rightarrow> string" where
  "clear_body path = ''{'' @ json_string ''database'' @ '':'' @ json_string path @ ''}''"

definition max_response :: nat where
  "max_response = 65536"

text \<open>The request, or the error before anything is sent.\<close>

definition clear_prepare :: "clear_client \<Rightarrow> clear_flags \<Rightarrow> clear_call result" where
  "clear_prepare cc fl =
     (if cf_args fl \<noteq> [] then Inl (Msg ''clear does not accept positional arguments'')
      else if \<not> cf_confirm fl
      then Inl (Msg ''clear requires --confirm to delete all stored logs, spans, and metrics'')
      else if cf_db fl = [] then Inl (Msg ''database path is required (--db or LOGAL_DB_PATH)'')
      else if cf_timeout fl \<le> 0 \<or> cf_timeout fl > 30000000000
      then Inl (Msg ''timeout must be positive and at most 30s'')
      else (case cc_abs cc (cf_db fl) of
        Inl e \<Rightarrow> Inl e
      | Inr path \<Rightarrow>
     (case clearEndpoint cc (cf_endpoint fl) of
        Inl e \<Rightarrow> Inl e
      | Inr endpoint \<Rightarrow>
     (case cc_request cc of
        Some e \<Rightarrow> Inl e
      | None \<Rightarrow>
          Inr \<lparr>cl_endpoint = endpoint, cl_confirm = ''clear'', cl_content_type = ''application/json'',
            cl_body = clear_body path, cl_timeout = cf_timeout fl\<rparr>))))"

definition clear_report :: "clear_client \<Rightarrow> ClearResult \<Rightarrow> string" where
  "clear_report cc res =
     ''Cleared '' @ show_int (DeletedLogCount res) @ '' logs, '' @ show_int (DeletedSpanCount res) @
     '' spans, and '' @ show_int (DeletedMetricCount res) @ '' metric points from '' @ Database res @
     '' at '' @ cc_time cc (ClearedAt res) @ ''.'' @ [newline]"

text \<open>The error of the command and its output, from the answer to the request.\<close>

definition clear_finish :: "clear_client \<Rightarrow> clear_flags \<Rightarrow> response result \<Rightarrow> go_error option \<times> string" where
  "clear_finish cc fl answer =
     (case answer of
        Inl e \<Rightarrow>
          (Some (WrapErr ''clear request failed: '' e ''; check the collector and query telemetry before retrying''), [])
      | Inr a \<Rightarrow>
     (case cc_read cc of
        Some e \<Rightarrow> (Some (WrapErr ''read clear result: '' e ''; query telemetry before retrying''), [])
      | None \<Rightarrow>
          let data = take max_response (body a) in
          if code a \<noteq> 200
          then (Some (Msg (''clear failed (HTTP '' @ show_nat (code a) @ ''): '' @ trim_space data)), [])
          else (case cc_decode cc data of
              None \<Rightarrow> (Some (Msg ''invalid collector clear response; query telemetry before retrying''), [])
            | Some res \<Rightarrow>
                if Database res = [] \<or> ClearedAt res = None
                then (Some (Msg ''invalid collector clear response; query telemetry before retrying''), [])
                else let text = (if cf_json fl then cc_encode cc res @ [newline] else clear_report cc res)
                     in (cc_write cc text, text))))"

definition clearAction :: "clear_client \<Rightarrow> clear_flags \<Rightarrow> go_error option \<times> string" where
  "clearAction cc fl =
     (case clear_prepare cc fl of
        Inl e \<Rightarrow> (Some e, [])
      | Inr call \<Rightarrow> clear_finish cc fl (cc_send cc call))"

section \<open>The reset command\<close>

record reset_flags =
  rf_args :: "string list"
  rf_confirm :: bool
  rf_path :: string

definition resetAction ::
    "os_env \<Rightarrow> (string \<Rightarrow> go_error option) \<Rightarrow> nat \<Rightarrow> reset_flags \<Rightarrow> machine
      \<Rightarrow> go_error option \<times> string \<times> machine" where
  "resetAction os write pid fl m =
     (if rf_args fl \<noteq> [] then (Some (Msg ''reset-db does not accept positional arguments''), [], m)
      else if \<not> rf_confirm fl
      then (Some (Msg ''reset-db requires --confirm to delete the disposable database''), [], m)
      else (case Reset os pid (rf_path fl) m of
        (Some e, m) \<Rightarrow> (Some e, [], m)
      | (None, m) \<Rightarrow>
          let text = ''Removed disposable Logal database files at '' @ rf_path fl @ [newline]
          in (write text, text, m)))"

section \<open>Clearing end to end\<close>

text \<open>
  The collector at the other end: its handler gets the request the client sent from the given
  address, and its decoder the body. \<open>clear_served\<close> is its answer with its store after it.
\<close>

definition received_request :: "string \<Rightarrow> clear_call \<Rightarrow> clear_request" where
  "received_request remote call = \<lparr>cr_method = ''POST'', cr_remote = remote, cr_origin = [],
     cr_confirm = cl_confirm call, cr_content_type = cl_content_type call\<rparr>"

definition clear_served ::
    "clear_client \<Rightarrow> (string \<Rightarrow> clear_parsers) \<Rightarrow> clear_env \<Rightarrow> string \<Rightarrow> gate \<Rightarrow> clear_call
      \<Rightarrow> response \<times> Store option" where
  "clear_served cc p env remote g call =
     handleClear (cc_encode cc) (p (cl_body call)) env (received_request remote call) g"

lemma clear_prepare_Inr:
  assumes "clear_prepare cc fl = Inr call"
  obtains path u where "cf_args fl = []" "cf_confirm fl" "cf_db fl \<noteq> []" "0 < cf_timeout fl"
    "cf_timeout fl \<le> 30000000000" "cc_abs cc (cf_db fl) = Inr path"
    "url_scheme u = ''http''" "\<not> url_user u" "url_query u = []" "url_fragment u = []"
    "cc_hostname cc u = ''localhost'' \<or> cc_loopback cc (cc_hostname cc u)"
    "cl_endpoint call = u\<lparr>url_path := ''/clear''\<rparr>" "cl_body call = clear_body path"
    "cl_confirm call = ''clear''" "cl_content_type call = ''application/json''"
  using assms
  by (auto simp: clear_prepare_def clearEndpoint_def Let_def split: if_splits sum.splits option.splits)

lemma handleClear_200:
  assumes "handleClear encode p env r g = (a, st)" "code a = 200"
  obtains path s res s' where "cp_database p = Inr path" "g_store g = Some s" "st = Some s'"
    "Clear env path s = (Inr res, s')" "body a = encode res @ [newline]"
proof -
  from assms have "clear_guard p r g = Inr path \<Longrightarrow> thesis" for path
    using that [of path]
    by (auto simp: handleClear_def clear_guard_def split: option.splits sum.splits prod.splits if_splits)
  moreover have "\<exists>path. clear_guard p r g = Inr path"
    using assms by (cases "clear_guard p r g")
      (auto simp: handleClear_def clear_guard_def split: if_splits sum.splits)
  ultimately show thesis by blast
qed

lemma handleClear_refused:
  assumes "handleClear encode p env r g = (a, st)" "code a \<noteq> 200" "g_store g = Some s"
  shows "\<exists>s'. st = Some s' \<and> same_data s s'"
proof (cases "clear_guard p r g")
  case (Inl answer)
  with assms have "st = Some s" by (auto simp: handleClear_def)
  then show ?thesis by (simp add: same_data_def)
next
  case (Inr path)
  obtain res s' where c: "Clear env path s = (res, s')" by fastforce
  with assms Inr Clear_Inl [of env path s _ s'] show ?thesis
    by (cases res) (auto simp: handleClear_def)
qed

text \<open>What the command makes of a success.\<close>

lemma clear_success:
  assumes "Clear env path s = (Inr res, s')" "body a = cc_encode cc res @ [newline]" "code a = 200"
    "cc_read cc = None"
    "Database res \<noteq> [] \<and> cc_decode cc (take max_response (cc_encode cc res @ [newline])) = Some res"
  shows "\<exists>d. ce_eval env path = Inr (Database res) \<and> db s = Some d \<and> db s' = Some empty_database \<and>
    DeletedLogCount res = int (length (otel_logs d)) \<and>
    DeletedSpanCount res = int (length (otel_spans d)) \<and>
    DeletedMetricCount res = int (length (otel_metric_points d)) \<and>
    (let text = if cf_json fl then cc_encode cc res @ [newline] else clear_report cc res
     in clear_finish cc fl (Inr a) = (cc_write cc text, text))"
proof -
  have "ClearedAt res \<noteq> None" using assms(1)
    by (auto simp: Clear_def split: option.splits sum.splits prod.splits dest!: clear_tx_cases(2))
  with assms(2-5) have "let text = if cf_json fl then cc_encode cc res @ [newline] else clear_report cc res
     in clear_finish cc fl (Inr a) = (cc_write cc text, text)"
    by (auto simp: clear_finish_def Let_def)
  moreover obtain d where "db s = Some d" "ce_eval env path = Inr (Database res)"
    "DeletedLogCount res = int (length (otel_logs d))" "DeletedSpanCount res = int (length (otel_spans d))"
    "DeletedMetricCount res = int (length (otel_metric_points d))" "db s' = Some empty_database"
    using assms(1) by (rule Clear_Inr) simp
  ultimately show ?thesis by simp
qed


end
