(* ===== verification/CliWitnesses.thy ===== *)
theory CliWitnesses
  imports CliAdmin QueryShape StatusWitnesses
begin

text \<open>A query command at a table of two rows, and \<open>clear\<close> at a running collector.\<close>

definition id_human :: human_codec where
  "id_human = \<lparr>hc_float = (\<lambda>_. []), hc_object = (\<lambda>_. None), hc_text = (\<lambda>_. None), hc_attrs = (\<lambda>_. None),
     hc_cell = plain_codec\<rparr>"

definition id_env :: query_env where
  "id_env = \<lparr>qe_fold = id, qe_parsers = some_parsers, qe_now = 0, qe_stdin = ([], None),
     qe_open = (\<lambda>f. Inl (NotExist f)), qe_codec = plain_codec, qe_human = id_human,
     qe_read = (\<lambda>_ _. two_rows), qe_duration = show_int, qe_write = (\<lambda>_. None)\<rparr>"

definition id_flags :: "bool \<Rightarrow> query_flags" where
  "id_flags json_output = \<lparr>qf_list_columns = False, qf_json = json_output, qf_details = True,
     qf_include_empty = False, qf_columns = None, qf_db = ''t.db'', qf_limit = 1, qf_offset = 0,
     qf_max_bytes = 1024, qf_timeout = 2000000000, qf_filters = service_filter [],
     qf_query = Some ''SELECT id'', qf_file = None, qf_args = []\<rparr>"

lemma id_result:
  "query_result id_env ''sql'' view (id_flags b) = Read plain_codec one_per_page ''SELECT id'' False two_rows"
proof -
  have "flag_options (id_flags b) = one_per_page"
    by (simp add: flag_options_def id_flags_def one_per_page_def)
  moreover have "requested_columns (id_flags b) ''sql'' view = Inr []"
    by (simp add: requested_columns_def id_flags_def)
  moreover have "options_validate one_per_page = None" by (simp add: options_validate_def one_per_page_def)
  moreover have "one_per_page\<lparr>o_Columns := []\<rparr> = one_per_page" by (simp add: one_per_page_def)
  ultimately show ?thesis
    by (simp add: query_result_def command_statement_def readSQL_def first_page)
      (simp add: id_flags_def id_env_def first_page)
qed


definition local_url :: url where
  "local_url = \<lparr>url_scheme = ''http'', url_user = False, url_host = ''127.0.0.1:13133'', url_path = [],
     url_query = [], url_fragment = []\<rparr>"

definition local_parsers :: clear_parsers where
  "local_parsers = \<lparr>cp_host = (\<lambda>s. Inr s), cp_loopback = (\<lambda>_. True), cp_media = (\<lambda>s. Inr s),
     cp_database = Inr ''/d/logal.db'', cp_at_end = True\<rparr>"

definition calm_clear :: clear_env where
  "calm_clear = \<lparr>ce_lock = None, ce_abs = Inr, ce_eval = Inr, ce_begin = None, ce_delete = (\<lambda>_. None),
     ce_affected = (\<lambda>_. None), ce_commit = None, ce_now = 9\<rparr>"

definition cleared_nothing :: ClearResult where
  "cleared_nothing = \<lparr>Database = ''/d/logal.db'', ClearedAt = Some 9, DeletedLogCount = 0,
     DeletedSpanCount = 0, DeletedMetricCount = 0\<rparr>"

definition loop_client :: clear_client where
  "loop_client = \<lparr>cc_url = (\<lambda>_. Some local_url), cc_hostname = (\<lambda>_. ''127.0.0.1''), cc_loopback = (\<lambda>_. True),
     cc_abs = (\<lambda>_. Inr ''/d/logal.db''), cc_request = None,
     cc_send = (\<lambda>call. Inr (fst (handleClear (\<lambda>_. []) local_parsers calm_clear
       (received_request ''127.0.0.1'' call) open_gate))),
     cc_read = None, cc_decode = (\<lambda>_. Some cleared_nothing), cc_encode = (\<lambda>_. []),
     cc_time = (\<lambda>_. ''now''), cc_write = (\<lambda>_. None)\<rparr>"

definition confirmed :: clear_flags where
  "confirmed = \<lparr>cf_args = [], cf_confirm = True, cf_db = ''logal.db'', cf_endpoint = ''127.0.0.1:13133'',
     cf_json = False, cf_timeout = 10000000000\<rparr>"

lemma loop_clear: "fst (Clear calm_clear path (open_store empty_database)) = Inr res \<Longrightarrow> res = cleared_nothing"
  by (auto simp: Clear_def clear_target_def clear_tx_def calm_clear_def open_store_def new_store_def
      empty_database_def cleared_nothing_def Let_def split: if_splits)

lemma loop_prepared: "\<exists>call. clear_prepare loop_client confirmed = Inr call"
  by (simp add: clear_prepare_def clearEndpoint_def loop_client_def confirmed_def local_url_def Let_def)

lemma loop_served:
  "clear_prepare loop_client confirmed = Inr call \<Longrightarrow>
     code (fst (clear_served loop_client (\<lambda>_. local_parsers) calm_clear ''127.0.0.1'' open_gate call)) = 200"
  by (auto simp: clear_prepare_def clearEndpoint_def loop_client_def confirmed_def local_url_def Let_def
      clear_served_def handleClear_def clear_guard_def received_request_def local_parsers_def open_gate_def
      new_gate_def Clear_def clear_target_def clear_tx_def calm_clear_def open_store_def new_store_def
      empty_database_def is_abs_def split: if_splits)


end
