(* ===== verification/Keeper.thy ===== *)
theory Keeper
  imports StoreRuns StoreWitnesses
begin

text \<open>
  The store as its users see it: three finite maps from identities to contents, without row
  ids, row order or SQL. Batches are learned as a whole, first content wins; contents are only
  ever forgotten; after the shutdown has begun nothing changes until everything is gone. Every
  operation of the store is a step of this keeper.
\<close>

section \<open>The keeper\<close>

record keeper =
  k_logs :: "string \<Rightarrow> log_row option"
  k_spans :: "string \<times> string \<Rightarrow> span_row option"
  k_points :: "string \<Rightarrow> metric_row option"
  k_open :: bool
  k_closing :: bool

fun absorb :: "('k \<times> 'v) list \<Rightarrow> ('k \<Rightarrow> 'v option) \<Rightarrow> 'k \<Rightarrow> 'v option" where
  "absorb [] m = m"
| "absorb ((k, v) # es) m = absorb es (if m k = None then m(k \<mapsto> v) else m)"

definition log_entry :: "LogRecord \<Rightarrow> string \<times> log_row" where
  "log_entry r = (l_Fingerprint r, log_row_of 0 r)"

definition span_entry :: "SpanRecord \<Rightarrow> (string \<times> string) \<times> span_row" where
  "span_entry r = ((s_TraceID r, s_SpanID r), span_row_of 0 r)"

definition point_entry :: "MetricPointRecord \<Rightarrow> string \<times> metric_row" where
  "point_entry r = (m_Fingerprint r, metric_row_of 0 r)"

text \<open>A batch of spans agrees with a map when every identity is there with the record's fingerprint.\<close>

definition agrees :: "SpanRecord list \<Rightarrow> (string \<times> string \<Rightarrow> span_row option) \<Rightarrow> bool" where
  "agrees rs m \<longleftrightarrow>
     (\<forall>r\<in>set rs. map_option sr_fingerprint (m (s_TraceID r, s_SpanID r)) = Some (s_Fingerprint r))"

inductive keeper_step :: "keeper \<Rightarrow> keeper \<Rightarrow> bool" where
  stay: "keeper_step k k"
| learn_logs: "k_open k \<Longrightarrow> \<not> k_closing k \<Longrightarrow>
     keeper_step k (k\<lparr>k_logs := absorb (map log_entry rs) (k_logs k)\<rparr>)"
| learn_spans: "k_open k \<Longrightarrow> \<not> k_closing k \<Longrightarrow> agrees rs (absorb (map span_entry rs) (k_spans k)) \<Longrightarrow>
     keeper_step k (k\<lparr>k_spans := absorb (map span_entry rs) (k_spans k)\<rparr>)"
| learn_points: "k_open k \<Longrightarrow> \<not> k_closing k \<Longrightarrow>
     keeper_step k (k\<lparr>k_points := absorb (map point_entry rs) (k_points k)\<rparr>)"
| forget: "k_open k \<Longrightarrow> \<not> k_closing k \<Longrightarrow>
     ls \<subseteq>\<^sub>m k_logs k \<Longrightarrow> ss \<subseteq>\<^sub>m k_spans k \<Longrightarrow> ps \<subseteq>\<^sub>m k_points k \<Longrightarrow>
     keeper_step k (k\<lparr>k_logs := ls, k_spans := ss, k_points := ps\<rparr>)"
| begin_close: "keeper_step k (k\<lparr>k_closing := True\<rparr>)"
| end_close: "k_closing k \<Longrightarrow>
     keeper_step k (k\<lparr>k_logs := Map.empty, k_spans := Map.empty, k_points := Map.empty, k_open := False\<rparr>)"

section \<open>The abstraction\<close>

definition table_map :: "('t \<Rightarrow> 'k) \<Rightarrow> ('t \<Rightarrow> 't) \<Rightarrow> 't list \<Rightarrow> 'k \<Rightarrow> 't option" where
  "table_map key content t = map_of (map (\<lambda>r. (key r, content r)) t)"

definition log_content :: "log_row \<Rightarrow> log_row" where
  "log_content r = r\<lparr>lr_id := 0\<rparr>"

definition span_content :: "span_row \<Rightarrow> span_row" where
  "span_content r = r\<lparr>sr_id := 0\<rparr>"

definition point_content :: "metric_row \<Rightarrow> metric_row" where
  "point_content r = r\<lparr>mr_id := 0\<rparr>"

definition keep :: "Store \<Rightarrow> keeper" where
  "keep s = \<lparr>k_logs = table_map lr_fingerprint log_content (logs_of s),
     k_spans = table_map span_key span_content (spans_of s),
     k_points = table_map mr_fingerprint point_content (points_of s),
     k_open = (db s \<noteq> None), k_closing = closing s\<rparr>"

lemmas content_defs = log_content_def span_content_def point_content_def

lemma table_map_None: "table_map key content t k = None \<longleftrightarrow> k \<notin> set (map key t)"
  by (induction t) (auto simp: table_map_def)

lemma table_map_append:
  "key r \<notin> set (map key t) \<Longrightarrow>
     table_map key content (t @ [r]) = (table_map key content t)(key r \<mapsto> content r)"
  by (induction t) (auto simp: table_map_def intro: fun_upd_twist)

lemma table_map_subset:
  assumes "set t' \<subseteq> set t" "distinct (map key t)"
  shows "table_map key content t' \<subseteq>\<^sub>m table_map key content t"
proof -
  let ?pairs = "\<lambda>t. map (\<lambda>r. (key r, content r)) t"
  have distinct: "distinct (map fst (?pairs t))" using assms(2) by (simp add: comp_def)
  show ?thesis unfolding table_map_def map_le_def
  proof
    fix k
    assume "k \<in> dom (map_of (?pairs t'))"
    then obtain v where v: "map_of (?pairs t') k = Some v" by blast
    then have "(k, v) \<in> set (?pairs t)" using assms(1) map_of_SomeD [OF v] by (auto simp: image_iff)
    with distinct v show "map_of (?pairs t') k = map_of (?pairs t) k" by simp
  qed
qed

section \<open>Batches\<close>

text \<open>
  One execution of an INSERT seen through a map: the row is absorbed. Under this law the whole
  batch is.
\<close>

locale absorbing =
  fixes step :: "nat \<Rightarrow> 'r \<Rightarrow> 't list \<Rightarrow> ('t list \<times> u64) result"
    and view :: "'t list \<Rightarrow> 'k \<Rightarrow> 'v option"
    and entry :: "'r \<Rightarrow> 'k \<times> 'v"
  assumes step_absorbs: "step i r t = Inr (t', n) \<Longrightarrow> view t' = absorb [entry r] (view t)"
begin

lemma batch_absorbs:
  "exec_batch step i rs t n = Inr (t', n') \<Longrightarrow> view t' = absorb (map entry rs) (view t)"
proof (induction rs arbitrary: i t n)
  case (Cons r rs)
  then obtain t1 k where s: "step i r t = Inr (t1, k)" "exec_batch step (Suc i) rs t1 (n + k) = Inr (t', n')"
    by (auto split: sum.splits)
  from Cons.IH [OF s(2)] step_absorbs [OF s(1)]
  have "view t' = absorb (map entry rs) (absorb [entry r] (view t))" by simp
  also have "\<dots> = absorb (map entry (r # rs)) (view t)" by (cases "entry r") simp
  finally show ?case .
qed simp

end

text \<open>A row is appended under a new key, or its key is there.\<close>

lemma absorb_row:
  "(k \<in> set (map key t) \<Longrightarrow> t' = t) \<Longrightarrow>
   (k \<notin> set (map key t) \<Longrightarrow> \<exists>r. t' = t @ [r] \<and> key r = k \<and> content r = v) \<Longrightarrow>
     table_map key content t' = absorb [(k, v)] (table_map key content t)"
  using table_map_append [of key _ t content] table_map_None [of key content t k]
  by (cases "k \<in> set (map key t)") auto

interpretation log_view: absorbing "log_step jv env" "table_map lr_fingerprint log_content" log_entry
proof
  fix i r t t' n
  assume "log_step jv env i r t = Inr (t', n)"
  then show "table_map lr_fingerprint log_content t' = absorb [log_entry r] (table_map lr_fingerprint log_content t)"
    unfolding log_entry_def
    by (intro absorb_row) (auto simp: log_step_def log_insert_def log_content_def log_row_of_def
        split: option.splits if_splits)
qed

interpretation span_view: absorbing "span_step jv env" "table_map span_key span_content" span_entry
proof
  fix i r t t' n
  assume step: "span_step jv env i r t = Inr (t', n)"
  show "table_map span_key span_content t' = absorb [span_entry r] (table_map span_key span_content t)"
    unfolding span_entry_def
  proof (rule absorb_row)
    assume "(s_TraceID r, s_SpanID r) \<in> set (map span_key t)"
    then have "span_fingerprint (s_TraceID r) (s_SpanID r) t \<noteq> None"
      by (auto simp: span_fingerprint_def find_None_iff)
    with step show "t' = t" by (auto simp: span_step_def split: option.splits if_splits)
  next
    assume new: "(s_TraceID r, s_SpanID r) \<notin> set (map span_key t)"
    then have "span_fingerprint (s_TraceID r) (s_SpanID r) t = None"
      by (auto simp: span_fingerprint_def find_None_iff image_iff)
    with step new show "\<exists>w. t' = t @ [w] \<and> span_key w = (s_TraceID r, s_SpanID r) \<and> span_content w = span_row_of 0 r"
      by (auto simp: span_step_def span_insert_def span_content_def span_row_of_def
          split: option.splits if_splits)
  qed
qed

interpretation point_view: absorbing "metric_step gv jv env" "table_map mr_fingerprint point_content" point_entry
proof
  fix i r t t' n
  assume "metric_step gv jv env i r t = Inr (t', n)"
  then show "table_map mr_fingerprint point_content t' = absorb [point_entry r] (table_map mr_fingerprint point_content t)"
    unfolding point_entry_def
    by (intro absorb_row) (auto simp: metric_step_def metric_insert_def point_content_def metric_row_of_def
        split: option.splits if_splits)
qed

lemma span_fingerprint_view:
  "span_fingerprint a b t = map_option sr_fingerprint (table_map span_key span_content t (a, b))"
  by (induction t) (auto simp: span_fingerprint_def table_map_def span_content_def)

lemma span_step_fingerprint:
  assumes "span_step jv env i r t = Inr (t', n)"
  shows "span_fingerprint (s_TraceID r) (s_SpanID r) t' = Some (s_Fingerprint r)"
    and "span_fingerprint a b t = Some fp \<Longrightarrow> span_fingerprint a b t' = Some fp"
proof -
  have view: "table_map span_key span_content t' = absorb [span_entry r] (table_map span_key span_content t)"
    using assms by (rule span_view.step_absorbs)
  show "span_fingerprint a b t = Some fp \<Longrightarrow> span_fingerprint a b t' = Some fp"
    unfolding span_fingerprint_view view by (auto simp: span_entry_def)
  show "span_fingerprint (s_TraceID r) (s_SpanID r) t' = Some (s_Fingerprint r)"
  proof (cases "span_fingerprint (s_TraceID r) (s_SpanID r) t")
    case None
    then show ?thesis unfolding span_fingerprint_view view by (simp add: span_entry_def span_row_of_def)
  next
    case (Some fp)
    with assms show ?thesis by (auto simp: span_step_def split: option.splits if_splits)
  qed
qed

lemma span_batch_keeps:
  "exec_batch (span_step jv env) i rs t n = Inr (t', n') \<Longrightarrow> span_fingerprint a b t = Some fp \<Longrightarrow>
     span_fingerprint a b t' = Some fp"
proof (induction rs arbitrary: i t n)
  case (Cons r rs)
  then obtain t1 k where s: "span_step jv env i r t = Inr (t1, k)"
    "exec_batch (span_step jv env) (Suc i) rs t1 (n + k) = Inr (t', n')" by (auto split: sum.splits)
  show ?case by (rule Cons.IH [OF s(2) span_step_fingerprint(2) [OF s(1) Cons.prems(2)]])
qed simp

lemma span_batch_agrees:
  "exec_batch (span_step jv env) i rs t n = Inr (t', n') \<Longrightarrow> agrees rs (table_map span_key span_content t')"
proof (induction rs arbitrary: i t n)
  case (Cons r rs)
  then obtain t1 k where s: "span_step jv env i r t = Inr (t1, k)"
    "exec_batch (span_step jv env) (Suc i) rs t1 (n + k) = Inr (t', n')" by (auto split: sum.splits)
  from span_batch_keeps [OF s(2) span_step_fingerprint(1) [OF s(1)]] Cons.IH [OF s(2)]
  show ?case by (simp add: agrees_def span_fingerprint_view)
qed (simp add: agrees_def)

section \<open>Simulation\<close>

lemma keep_same: "db s' = db s \<Longrightarrow> closing s' = closing s \<Longrightarrow> keep s' = keep s"
  by (simp add: keep_def logs_of_def spans_of_def points_of_def)

lemma keep_same_data: "same_data s s' \<Longrightarrow> keeper_step (keep s) (keep s')"
  using keep_same [of s' s] stay by (simp add: same_data_def)

lemma insert_learned:
  assumes "run_insert get put tally step env rs s = (Inr u, s')"
  obtains d t n where "db s = Some d" "exec_batch step 0 rs (get d) 0 = Inr (t, n)" "\<not> closing s"
    "s' = tally n (s\<lparr>db := Some (put t d)\<rparr>)"
  using run_insert_Inr [OF assms] closing_insert [OF assms] by auto

lemma open_keep: "db s = Some d \<Longrightarrow> \<not> closing s \<Longrightarrow> k_open (keep s) \<and> \<not> k_closing (keep s)"
  by (simp add: keep_def)

lemmas keep_defs = keep_def logs_of_def spans_of_def points_of_def put_defs count_defs

text \<open>What an insert does to the keeper: nothing when it fails, and otherwise one step.\<close>

lemma InsertLogs_keeps:
  assumes "InsertLogs jv env rs s = (r, s')"
  shows "case r of
     Inl e \<Rightarrow> keep s' = keep s
   | Inr _ \<Rightarrow> k_open (keep s) \<and> \<not> k_closing (keep s) \<and>
       keep s' = (keep s)\<lparr>k_logs := absorb (map log_entry rs) (k_logs (keep s))\<rparr>"
proof (cases r)
  case (Inl e)
  with assms have "same_data s s'" unfolding InsertLogs_def by (auto dest: run_insert_Inl)
  with Inl keep_same [of s' s] show ?thesis by (simp add: same_data_def)
next
  case (Inr u)
  from assms [unfolded InsertLogs_def Inr] obtain d t n where
    d: "db s = Some d" and b: "exec_batch (log_step jv env) 0 rs (otel_logs d) 0 = Inr (t, n)"
    and c: "\<not> closing s" and s': "s' = add_logs n (s\<lparr>db := Some (put_logs t d)\<rparr>)" by (rule insert_learned)
  have "keep s' = (keep s)\<lparr>k_logs := absorb (map log_entry rs) (k_logs (keep s))\<rparr>"
    unfolding s' using d log_view.batch_absorbs [OF b] by (simp add: keep_defs)
  with Inr open_keep [OF d c] show ?thesis by simp
qed

lemma InsertSpans_keeps:
  assumes "InsertSpans jv env rs s = (r, s')"
  shows "case r of
     Inl e \<Rightarrow> keep s' = keep s
   | Inr _ \<Rightarrow> k_open (keep s) \<and> \<not> k_closing (keep s) \<and> agrees rs (k_spans (keep s')) \<and>
       keep s' = (keep s)\<lparr>k_spans := absorb (map span_entry rs) (k_spans (keep s))\<rparr>"
proof (cases r)
  case (Inl e)
  with assms have "same_data s s'" unfolding InsertSpans_def by (auto dest: run_insert_Inl)
  with Inl keep_same [of s' s] show ?thesis by (simp add: same_data_def)
next
  case (Inr u)
  from assms [unfolded InsertSpans_def Inr] obtain d t n where
    d: "db s = Some d" and b: "exec_batch (span_step jv env) 0 rs (otel_spans d) 0 = Inr (t, n)"
    and c: "\<not> closing s" and s': "s' = add_spans n (s\<lparr>db := Some (put_spans t d)\<rparr>)" by (rule insert_learned)
  have "keep s' = (keep s)\<lparr>k_spans := absorb (map span_entry rs) (k_spans (keep s))\<rparr>"
    unfolding s' using d span_view.batch_absorbs [OF b] by (simp add: keep_defs)
  moreover have "agrees rs (k_spans (keep s'))"
    using span_batch_agrees [OF b] by (simp add: s' keep_defs)
  ultimately show ?thesis using Inr open_keep [OF d c] by simp
qed

lemma InsertMetricPoints_keeps:
  assumes "InsertMetricPoints gv jv env rs s = (r, s')"
  shows "case r of
     Inl e \<Rightarrow> keep s' = keep s
   | Inr _ \<Rightarrow> k_open (keep s) \<and> \<not> k_closing (keep s) \<and>
       keep s' = (keep s)\<lparr>k_points := absorb (map point_entry rs) (k_points (keep s))\<rparr>"
proof (cases r)
  case (Inl e)
  with assms have "same_data s s'" unfolding InsertMetricPoints_def by (auto dest: run_insert_Inl)
  with Inl keep_same [of s' s] show ?thesis by (simp add: same_data_def)
next
  case (Inr u)
  from assms [unfolded InsertMetricPoints_def Inr] obtain d t n where
    d: "db s = Some d" and b: "exec_batch (metric_step gv jv env) 0 rs (otel_metric_points d) 0 = Inr (t, n)"
    and c: "\<not> closing s" and s': "s' = add_metrics n (s\<lparr>db := Some (put_metrics t d)\<rparr>)" by (rule insert_learned)
  have "keep s' = (keep s)\<lparr>k_points := absorb (map point_entry rs) (k_points (keep s))\<rparr>"
    unfolding s' using d point_view.batch_absorbs [OF b] by (simp add: keep_defs)
  with Inr open_keep [OF d c] show ?thesis by simp
qed

text \<open>Maintenance and clears: the tables lose rows, or nothing happens.\<close>

definition removes :: "Store \<Rightarrow> Store \<Rightarrow> bool" where
  "removes s s' \<longleftrightarrow> keep s' = keep s \<or>
     (\<exists>d d'. db s = Some d \<and> database_ok d \<and> db s' = Some d' \<and> rows_subset d' d \<and>
        closing s' = closing s \<and> \<not> closing s)"

definition forgets :: "keeper \<Rightarrow> keeper \<Rightarrow> bool" where
  "forgets k k' \<longleftrightarrow> k_logs k' \<subseteq>\<^sub>m k_logs k \<and> k_spans k' \<subseteq>\<^sub>m k_spans k \<and> k_points k' \<subseteq>\<^sub>m k_points k"

lemma removes_forgets: "removes s s' \<Longrightarrow> forgets (keep s) (keep s')"
  by (auto simp: removes_def forgets_def keep_def logs_of_def spans_of_def points_of_def rows_subset_def
      database_ok_def table_ok_def table_map_subset)

lemma removes_keeps:
  assumes "removes s s'"
  shows "keeper_step (keep s) (keep s')"
proof (cases "keep s' = keep s")
  case False
  with assms have h: "k_open (keep s') = k_open (keep s)" "k_closing (keep s') = k_closing (keep s)"
    "k_open (keep s)" "\<not> k_closing (keep s)" by (auto simp: removes_def keep_def)
  with removes_forgets [OF assms] have "keeper_step (keep s) ((keep s)\<lparr>k_logs := k_logs (keep s'),
      k_spans := k_spans (keep s'), k_points := k_points (keep s')\<rparr>)"
    by (intro forget) (simp_all add: forgets_def)
  also have "(keep s)\<lparr>k_logs := k_logs (keep s'), k_spans := k_spans (keep s'), k_points := k_points (keep s')\<rparr> = keep s'"
    using h by simp
  finally show ?thesis .
qed (simp add: stay)

lemma Maintain_removes:
  assumes "Maintain env now s = (r, s')" "\<And>d. db s = Some d \<Longrightarrow> database_ok d"
  shows "removes s s'"
proof (cases "me_lock env = None \<and> \<not> closing s \<and> db s \<noteq> None")
  case False
  with assms(1) have "db s' = db s \<and> closing s' = closing s"
    by (auto simp: Maintain_def maintain_locked_def maintain_publish_def frame_simps
        split: option.splits if_splits)
  with keep_same [of s' s] show ?thesis by (simp add: removes_def)
next
  case True
  then obtain d where d: "db s = Some d" by blast
  obtain r0 s0 where locked: "maintain_locked env now s = (r0, s0)" "s' = maintain_publish r0 s0"
    using assms(1) True by (auto simp: Maintain_def split: prod.splits)
  from maintain_locked_shrinks [OF locked(1) d assms(2) [OF d]] obtain d' where
    "db s0 = Some d'" "rows_subset d' d" "closing s0 = closing s"
    using d by (auto simp: shrinks_def)
  moreover have "db s' = db s0 \<and> closing s' = closing s0"
    by (auto simp: locked(2) maintain_publish_def frame_simps split: sum.splits)
  ultimately show ?thesis using True d assms(2) [OF d] by (simp add: removes_def)
qed

lemma Clear_removes:
  assumes "Clear env expected s = (r, s')" "\<And>d. db s = Some d \<Longrightarrow> database_ok d"
  shows "removes s s'"
proof (cases r)
  case (Inl e)
  with assms have "same_data s s'" by (auto dest: Clear_Inl)
  with keep_same [of s' s] show ?thesis by (simp add: removes_def same_data_def)
next
  case (Inr res)
  with assms(1) have "Clear env expected s = (Inr res, s')" by simp
  then show ?thesis
    by (rule Clear_Inr) (use assms(2) in \<open>auto simp: removes_def rows_subset_def empty_database_def\<close>)
qed

text \<open>The end of a shutdown empties the keeper.\<close>

definition emptied :: "keeper \<Rightarrow> keeper" where
  "emptied k = k\<lparr>k_logs := Map.empty, k_spans := Map.empty, k_points := Map.empty, k_open := False\<rparr>"

lemma shutdown_finish_keeps: "shutdown_finish env s = (r, s') \<Longrightarrow> keep s' = emptied (keep s)"
  by (auto simp: shutdown_finish_def emptied_def keep_defs table_map_def split: if_splits)

lemma shutdown_begin_keeps: "keep (shutdown_begin s) = (keep s)\<lparr>k_closing := True\<rparr>"
  by (simp add: keep_defs shutdown_begin_def)

lemma store_step_keeps:
  assumes "store_step s s'" "\<And>d. db s = Some d \<Longrightarrow> database_ok d"
  shows "keeper_step (keep s) (keep s')"
  using assms
proof (induction rule: store_step.induct)
  case (insert_logs jv env rs s r s')
  from InsertLogs_keeps [OF insert_logs(1)] show ?case
    by (auto intro: stay learn_logs split: sum.splits)
next
  case (insert_spans jv env ss s r s')
  from InsertSpans_keeps [OF insert_spans(1)] learn_spans [of "keep s" ss] stay [of "keep s"] show ?case
    by (auto split: sum.splits)
next
  case (insert_points gv jv env ms s r s')
  from InsertMetricPoints_keeps [OF insert_points(1)] show ?case
    by (auto intro: stay learn_points split: sum.splits)
next
  case (maintain menv now s r s')
  then show ?case by (intro removes_keeps Maintain_removes)
next
  case (clear cenv expected s cr s')
  then show ?case by (intro removes_keeps Clear_removes)
next
  case (closing_begins s)
  show ?case unfolding shutdown_begin_keeps by (rule begin_close)
next
  case (closing_ends senv s r s')
  have "keep s' = emptied (keep s)" using closing_ends(1) by (rule shutdown_finish_keeps)
  moreover have "k_closing (keep s)" using closing_ends by (simp add: keep_def)
  ultimately show ?case using end_close [of "keep s"] by (simp add: emptied_def)
qed

text \<open>
  C2. The store refines the keeper. From a well-formed open database every run of the store,
  with any failures, is a run of the keeper; and at every state of it an insert that succeeds is
  exactly the absorption of its batch into the map of its signal - spans only if every identity
  ends up with the record's own fingerprint - while one that fails changes nothing.
\<close>

theorem store_refines_keeper:
  assumes "store_run s0 s" "db s0 = Some d0" "database_ok d0"
  shows "keeper_step\<^sup>*\<^sup>* (keep s0) (keep s) \<and>
    (case InsertLogs jv env rs s of
       (Inl e, s') \<Rightarrow> keep s' = keep s
     | (Inr _, s') \<Rightarrow> k_open (keep s) \<and> \<not> k_closing (keep s) \<and>
         keep s' = (keep s)\<lparr>k_logs := absorb (map log_entry rs) (k_logs (keep s))\<rparr>) \<and>
    (case InsertSpans jv env ss s of
       (Inl e, s') \<Rightarrow> keep s' = keep s
     | (Inr _, s') \<Rightarrow> k_open (keep s) \<and> \<not> k_closing (keep s) \<and> agrees ss (k_spans (keep s')) \<and>
         keep s' = (keep s)\<lparr>k_spans := absorb (map span_entry ss) (k_spans (keep s))\<rparr>) \<and>
    (case InsertMetricPoints gv jv env ms s of
       (Inl e, s') \<Rightarrow> keep s' = keep s
     | (Inr _, s') \<Rightarrow> k_open (keep s) \<and> \<not> k_closing (keep s) \<and>
         keep s' = (keep s)\<lparr>k_points := absorb (map point_entry ms) (k_points (keep s))\<rparr>)"
proof -
  have run: "keeper_step\<^sup>*\<^sup>* (keep s0) (keep s)" if "accounts b s0" for b
    using assms(1)
  proof (induction rule: rtranclp_induct)
    case (step s s')
    from store_run_accounts [OF step(1) that] have "db s = Some d \<Longrightarrow> database_ok d" for d
      by (simp add: accounts_def)
    from store_step_keeps [OF step(2) this] step.IH show ?case by simp
  qed simp
  have "accounts (balances s0) s0" using assms(2,3) by (simp add: accounts_def)
  moreover obtain r1 s1 where 1: "InsertLogs jv env rs s = (r1, s1)" by fastforce
  moreover obtain r2 s2 where 2: "InsertSpans jv env ss s = (r2, s2)" by fastforce
  moreover obtain r3 s3 where 3: "InsertMetricPoints gv jv env ms s = (r3, s3)" by fastforce
  ultimately show ?thesis
    using run InsertLogs_keeps [OF 1] InsertSpans_keeps [OF 2] InsertMetricPoints_keeps [OF 3]
    by (intro conjI) (auto split: sum.splits)
qed

theorem store_refines_keeper_witness:
  "\<exists>s'. InsertLogs (\<lambda>_. True) calm_writes [a_log] (open_store empty_database) = (Inr (), s') \<and>
     k_logs (keep s') (l_Fingerprint a_log) = Some (log_row_of 0 a_log)"
proof -
  obtain s' where run: "InsertLogs (\<lambda>_. True) calm_writes [a_log] (open_store empty_database) = (Inr (), s')"
    using insert_a_log by blast
  have "store_run (open_store empty_database) (open_store empty_database)" by simp
  from store_refines_keeper [OF this open_store_state(1) empty_database_ok, where jv = "\<lambda>_. True" and env = calm_writes and rs = "[a_log]"] run
  have "keep s' = (keep (open_store empty_database))
      \<lparr>k_logs := absorb [log_entry a_log] (k_logs (keep (open_store empty_database)))\<rparr>" by simp
  moreover have "k_logs (keep (open_store empty_database)) = Map.empty"
    by (simp add: keep_defs open_store_state empty_database_def table_map_def)
  ultimately show ?thesis using run by (simp add: log_entry_def)
qed

end
