(* ===== verification/Collector.thy ===== *)
theory Collector
  imports Keeper StatusWitnesses ExportWitnesses
begin

text \<open>
  The running collector: the gate of the status extension in front of the exporters, the store
  behind them with its maintenance, the clear endpoint and the shutdown. The pipelines of
  \<^verbatim>\<open>config/collector.yaml\<close> have no queue or batch stage, so an exporter runs only
  inside a request that the gate has let in; the receivers between them are the OpenTelemetry
  library's. Every step is one atomic operation of a component on the shared state.
\<close>

section \<open>Steps\<close>

text \<open>What a step means for the stored telemetry.\<close>

datatype event = Between | StoredLogs "LogRecord list" | StoredSpans "SpanRecord list"
  | StoredPoints "MetricPointRecord list" | Removing | Closing

text \<open>The records an exporter hands to the store.\<close>

definition walked :: "(go_error + 'r export_state) option \<Rightarrow> 'r list" where
  "walked w = (case w of Some (Inr st) \<Rightarrow> x_records st | _ \<Rightarrow> [])"

text \<open>An export counts when its answer is success.\<close>

definition answered :: "go_error option \<Rightarrow> event \<Rightarrow> event" where
  "answered a e = (case a of None \<Rightarrow> e | Some _ \<Rightarrow> Between)"

inductive collector_step :: "gate \<Rightarrow> event \<Rightarrow> gate \<Rightarrow> bool" where
  traffic: "gate_step g g' \<Longrightarrow> g_store g' = g_store g \<Longrightarrow> collector_step g Between g'"
| export_logs: "Serving \<in># requests g \<Longrightarrow> g_store g = Some s \<Longrightarrow>
     ConsumeLogs env mlogs jv wenv logs s = Some (a, s') \<Longrightarrow>
     collector_step g (answered a (StoredLogs (walked (walk ''log'' (log_item env mlogs) logs))))
       (g\<lparr>g_store := Some s'\<rparr>)"
| export_traces: "Serving \<in># requests g \<Longrightarrow> g_store g = Some s \<Longrightarrow>
     ConsumeTraces env mspans jv wenv spans s = Some (a, s') \<Longrightarrow>
     collector_step g (answered a (StoredSpans (walked (walk ''span'' (span_item env mspans) spans))))
       (g\<lparr>g_store := Some s'\<rparr>)"
| export_metrics: "Serving \<in># requests g \<Longrightarrow> g_store g = Some s \<Longrightarrow>
     ConsumeMetrics env mmetrics gv jv wenv metrics s = Some (a, s') \<Longrightarrow>
     collector_step g (answered a (StoredPoints (walked (walk ''metric'' (metric_item env mmetrics) metrics))))
       (g\<lparr>g_store := Some s'\<rparr>)"
| maintenance: "g_store g = Some s \<Longrightarrow> Maintain menv now s = (r, s') \<Longrightarrow>
     collector_step g Removing (g\<lparr>g_store := Some s'\<rparr>)"
| clearing: "handleClear encode p cenv q g = (answer, st) \<Longrightarrow>
     collector_step g Removing (g\<lparr>g_store := st\<rparr>)"
| close_begin: "g_store g = Some s \<Longrightarrow>
     collector_step g Closing (g\<lparr>g_store := Some (shutdown_begin s)\<rparr>)"
| close_end: "g_store g = Some s \<Longrightarrow> closing s \<Longrightarrow> shutdown_finish senv s = (r, s') \<Longrightarrow>
     collector_step g Removing (g\<lparr>g_store := Some s'\<rparr>)"

inductive_cases collector_stepE: "collector_step g e g'"

inductive collector_run :: "gate \<Rightarrow> event list \<Rightarrow> gate \<Rightarrow> bool" where
  run_start: "collector_run g [] g"
| run_step: "collector_run g es g' \<Longrightarrow> collector_step g' e g'' \<Longrightarrow> collector_run g (es @ [e]) g''"

section \<open>Each component sees its own run\<close>

lemma set_store_outside: "gate_step g (g\<lparr>g_store := st\<rparr>)"
proof -
  have "g\<lparr>g_store := st\<rparr> = g\<lparr>pipelineReady := pipelineReady g, g_store := st, g_disk := g_disk g\<rparr>" by simp
  then show ?thesis by (metis outside)
qed

lemma collector_step_gate: "collector_step g e g' \<Longrightarrow> gate_step g g'"
  by (induction rule: collector_step.induct) (simp_all add: set_store_outside)

lemma handleClear_store:
  assumes "handleClear encode p env q g = (answer, st)" "g_store g = Some s"
  obtains "st = Some s" | path r s' where "Clear env path s = (r, s')" "st = Some s'"
  using assms by (auto simp: handleClear_def split: sum.splits prod.splits)

text \<open>A step of the collector on the store.\<close>

lemma collector_step_store:
  assumes "collector_step g e g'" "g_store g = Some s"
  shows "\<exists>s'. g_store g' = Some s' \<and> (s' = s \<or> store_step s s')"
  using assms
proof (induction rule: collector_step.induct)
  case (export_logs g s0 env mlogs jv wenv logs a s')
  from export_logs(3) show ?case
    by (rule logs_out.consume_cases) (use export_logs in \<open>auto intro: insert_logs\<close>)
next
  case (export_traces g s0 env mspans jv wenv spans a s')
  from export_traces(3) show ?case
    by (rule spans_out.consume_cases) (use export_traces in \<open>auto intro: insert_spans\<close>)
next
  case (export_metrics g s0 env mmetrics gv jv wenv metrics a s')
  from export_metrics(3) show ?case
    by (rule points_out.consume_cases) (use export_metrics in \<open>auto intro: insert_points\<close>)
next
  case (clearing encode p cenv q g answer st)
  then show ?case by (rule handleClear_store) (auto intro: clear)
qed (auto intro: store_step.maintain store_step.closing_begins store_step.closing_ends)

section \<open>The ledger\<close>

text \<open>What an event does to the keeper, removals apart.\<close>

fun learn :: "event \<Rightarrow> keeper \<Rightarrow> keeper" where
  "learn (StoredLogs rs) k = k\<lparr>k_logs := absorb (map log_entry rs) (k_logs k)\<rparr>"
| "learn (StoredSpans rs) k = k\<lparr>k_spans := absorb (map span_entry rs) (k_spans k)\<rparr>"
| "learn (StoredPoints rs) k = k\<lparr>k_points := absorb (map point_entry rs) (k_points k)\<rparr>"
| "learn Closing k = k\<lparr>k_closing := True\<rparr>"
| "learn Between k = k"
| "learn Removing k = k"

fun learned_logs :: "event \<Rightarrow> (string \<times> log_row) list" where
  "learned_logs (StoredLogs rs) = map log_entry rs"
| "learned_logs _ = []"

fun learned_spans :: "event \<Rightarrow> ((string \<times> string) \<times> span_row) list" where
  "learned_spans (StoredSpans rs) = map span_entry rs"
| "learned_spans _ = []"

fun learned_points :: "event \<Rightarrow> (string \<times> metric_row) list" where
  "learned_points (StoredPoints rs) = map point_entry rs"
| "learned_points _ = []"

text \<open>Every content of a map was there at the start or is one of the entries.\<close>

definition from_entries :: "('k \<times> 'v) list \<Rightarrow> ('k \<rightharpoonup> 'v) \<Rightarrow> ('k \<rightharpoonup> 'v) \<Rightarrow> bool" where
  "from_entries es m m' \<longleftrightarrow> (\<forall>k v. m' k = Some v \<longrightarrow> m k = Some v \<or> (k, v) \<in> set es)"

lemma from_entries_refl: "from_entries [] m m"
  by (simp add: from_entries_def)

lemma from_entries_absorb: "from_entries es m (absorb es m)"
proof (induction es m rule: absorb.induct)
  case (2 k v es m)
  then show ?case by (auto simp: from_entries_def split: if_splits)
qed (simp add: from_entries_def)

lemma from_entries_subset: "m' \<subseteq>\<^sub>m m \<Longrightarrow> from_entries [] m m'"
  by (force simp: from_entries_def map_le_def)

lemma from_entries_trans:
  "from_entries es m m' \<Longrightarrow> from_entries es' m' m'' \<Longrightarrow> from_entries (es @ es') m m''"
  unfolding from_entries_def by (metis Un_iff set_append)

definition accounted :: "event list \<Rightarrow> keeper \<Rightarrow> keeper \<Rightarrow> bool" where
  "accounted es k k' \<longleftrightarrow>
     from_entries (concat (map learned_logs es)) (k_logs k) (k_logs k') \<and>
     from_entries (concat (map learned_spans es)) (k_spans k) (k_spans k') \<and>
     from_entries (concat (map learned_points es)) (k_points k) (k_points k')"

lemma accounted_refl: "accounted [] k k"
  by (simp add: accounted_def from_entries_refl)

lemma accounted_step: "accounted es k k' \<Longrightarrow> accounted [e] k' k'' \<Longrightarrow> accounted (es @ [e]) k k''"
  by (auto simp: accounted_def intro: from_entries_trans)

lemma accounted_learn: "accounted [e] k (learn e k)"
  by (cases e) (simp_all add: accounted_def from_entries_absorb from_entries_refl)

lemma accounted_forgets: "forgets k k' \<Longrightarrow> accounted [Removing] k k'"
  by (simp add: accounted_def forgets_def from_entries_subset)

text \<open>A step of the collector on the keeper.\<close>

lemma collector_step_keeps:
  assumes "collector_step g e g'" "g_store g = Some s" "\<And>d. db s = Some d \<Longrightarrow> database_ok d"
    "g_store g' = Some s'"
  shows "accounted [e] (keep s) (keep s') \<and> (e \<noteq> Removing \<longrightarrow> keep s' = learn e (keep s))"
  using assms
proof (induction rule: collector_step.induct)
  case (export_logs g s0 env mlogs jv wenv logs a s1)
  from export_logs(3) have "keep s' = learn (answered a (StoredLogs (walked (walk ''log'' (log_item env mlogs) logs)))) (keep s)"
    by (rule logs_out.consume_cases)
      (use export_logs in \<open>auto simp: answered_def walked_def split: sum.splits option.splits dest: InsertLogs_keeps\<close>)
  then show ?case using accounted_learn by simp
next
  case (export_traces g s0 env mspans jv wenv spans a s1)
  from export_traces(3) have "keep s' = learn (answered a (StoredSpans (walked (walk ''span'' (span_item env mspans) spans)))) (keep s)"
    by (rule spans_out.consume_cases)
      (use export_traces in \<open>auto simp: answered_def walked_def split: sum.splits option.splits dest: InsertSpans_keeps\<close>)
  then show ?case using accounted_learn by simp
next
  case (export_metrics g s0 env mmetrics gv jv wenv metrics a s1)
  from export_metrics(3) have "keep s' = learn (answered a (StoredPoints (walked (walk ''metric'' (metric_item env mmetrics) metrics)))) (keep s)"
    by (rule points_out.consume_cases)
      (use export_metrics in \<open>auto simp: answered_def walked_def split: sum.splits option.splits dest: InsertMetricPoints_keeps\<close>)
  then show ?case using accounted_learn by simp
next
  case (maintenance g s0 menv now r s1)
  then show ?case by (auto intro!: accounted_forgets removes_forgets intro: Maintain_removes)
next
  case (clearing encode p cenv q g answer st)
  from clearing(1,2) show ?case
    by (rule handleClear_store)
      (use clearing in \<open>auto intro!: accounted_forgets removes_forgets intro: Clear_removes simp: removes_def\<close>)
next
  case (close_end g s0 senv r s1)
  then have "keep s' = emptied (keep s)" using shutdown_finish_keeps by simp
  then show ?case by (simp add: accounted_forgets forgets_def emptied_def)
next
  case (close_begin g s0)
  then have "keep s' = learn Closing (keep s)" using shutdown_begin_keeps [of s0] by auto
  then show ?case using accounted_learn [of Closing] by simp
qed (simp add: accounted_learn [of Between, simplified])

section \<open>The whole collector\<close>

lemma collector_run_store:
  assumes "collector_run g0 es g" "g_store g0 = Some s0" "db s0 = Some d0" "database_ok d0"
  shows "gate_step\<^sup>*\<^sup>* g0 g \<and>
    (\<exists>s. g_store g = Some s \<and> store_run s0 s \<and> accounted es (keep s0) (keep s) \<and>
       (Removing \<notin> set es \<longrightarrow> keep s = fold learn es (keep s0)))"
  using assms
proof (induction rule: collector_run.induct)
  case (run_start g)
  then show ?case by (auto simp: accounted_refl)
next
  case (run_step g es g' e g'')
  then obtain s where s: "gate_step\<^sup>*\<^sup>* g g'" "g_store g' = Some s" "store_run s0 s"
    "accounted es (keep s0) (keep s)" "Removing \<notin> set es \<longrightarrow> keep s = fold learn es (keep s0)" by blast
  from collector_step_store [OF run_step(2) s(2)] obtain s' where
    s': "g_store g'' = Some s'" "s' = s \<or> store_step s s'" by blast
  have "accounts (balances s0) s0" using run_step.prems by (simp add: accounts_def)
  from store_run_accounts [OF s(3) this] have ok: "db s = Some d \<Longrightarrow> database_ok d" for d
    by (simp add: accounts_def)
  from collector_step_keeps [OF run_step(2) s(2) ok s'(1)]
  have k: "accounted [e] (keep s) (keep s')" "e \<noteq> Removing \<longrightarrow> keep s' = learn e (keep s)" by blast+
  have "gate_step\<^sup>*\<^sup>* g g''" using s(1) collector_step_gate [OF run_step(2)] by simp
  moreover have "store_run s0 s'" using s(3) s'(2) by auto
  ultimately show ?case using s'(1) accounted_step [OF s(4) k(1)] k(2) s(5) by auto
qed

text \<open>
  C1. The running collector. From a gate in a consistent state over a well-formed open store,
  whatever happens in whatever order: at most \<open>MaxInFlight\<close> export handlers run at a
  time; the store's history is a run of the store; everything it holds was there at the start
  or is a record of an export that was answered with success; and as long as nothing has been
  removed by maintenance, a clear or the end of a shutdown, it holds exactly what the
  acknowledged exports, in their order, make of the start - so the identity of every
  acknowledged record is there, and a refused or failed export has left no trace.
\<close>

theorem collector_holds_acknowledged:
  assumes "collector_run g0 es g" "gate_inv g0" "g_store g0 = Some s0" "db s0 = Some d0" "database_ok d0"
  shows "int (count (requests g) Serving) \<le> max 0 (MaxInFlight (g_cfg g0)) \<and>
    (\<exists>s. g_store g = Some s \<and> store_run s0 s \<and>
       from_entries (concat (map learned_logs es)) (k_logs (keep s0)) (k_logs (keep s)) \<and>
       from_entries (concat (map learned_spans es)) (k_spans (keep s0)) (k_spans (keep s)) \<and>
       from_entries (concat (map learned_points es)) (k_points (keep s0)) (k_points (keep s)) \<and>
       (Removing \<notin> set es \<longrightarrow> keep s = fold learn es (keep s0)))"
proof -
  from collector_run_store [OF assms(1,3-5)] obtain s where s: "gate_step\<^sup>*\<^sup>* g0 g" "g_store g = Some s"
    "store_run s0 s" "accounted es (keep s0) (keep s)"
    "Removing \<notin> set es \<longrightarrow> keep s = fold learn es (keep s0)" by blast
  from gate_run_inv [OF s(1) assms(2)] have "int (count (requests g) Serving) \<le> max 0 (MaxInFlight (g_cfg g0))"
    by (auto simp: gate_inv_def capacity_def)
  with s show ?thesis unfolding accounted_def by blast
qed

section \<open>A run\<close>

text \<open>A request that is being served exports a log record.\<close>

lemma serving_gate_inv: "gate_inv serving_gate"
  by (simp add: gate_inv_def serving_gate_def open_gate_def new_gate_def capacity_def default_status_config_def)

lemma serving_store: "g_store serving_gate = Some (open_store empty_database)" "Serving \<in># requests serving_gate"
  by (simp_all add: serving_gate_def open_gate_def)

lemma open_store_db: "db (open_store empty_database) = Some empty_database" "database_ok empty_database"
  by (simp_all add: open_store_def database_ok_def table_ok_def empty_database_def)

lemma password_run:
  "\<exists>r s'. l_Fingerprint r = replicate 32 CHR ''f'' \<and>
     collector_run serving_gate [StoredLogs [r]] (serving_gate\<lparr>g_store := Some s'\<rparr>)"
proof -
  let ?logs = "one_request (password_log ''hunter2'' 5)"
  obtain st where st: "walk ''log'' (log_item plain_env (\<lambda>_. Inr ''x'')) ?logs = Some (Inr st)"
    "x_records st = [log_record plain_env ''unknown_service'' (password_log ''hunter2'' 5) ''null''
      (log_body plain_env (password_log ''hunter2'' 5))]"
    using password_item by blast
  obtain s' where s': "ConsumeLogs plain_env (\<lambda>_. Inr ''x'') (\<lambda>_. True) calm_writes ?logs
      (open_store empty_database) = Some (None, s')"
    using password_export by blast
  from export_logs [OF serving_store(2,1) s']
  have "collector_step serving_gate (StoredLogs (x_records st)) (serving_gate\<lparr>g_store := Some s'\<rparr>)"
    by (simp add: answered_def walked_def st(1))
  then have "collector_run serving_gate ([] @ [StoredLogs (x_records st)]) (serving_gate\<lparr>g_store := Some s'\<rparr>)"
    by (rule run_step [OF run_start])
  then show ?thesis
    by (intro exI [of _ "hd (x_records st)"] exI [of _ s']) (simp add: st(2) log_record_def plain_env_def)
qed

theorem collector_holds_acknowledged_witness:
  "\<exists>es g s. collector_run serving_gate es g \<and> g_store g = Some s \<and>
     k_logs (keep s) (replicate 32 CHR ''f'') \<noteq> None"
proof -
  obtain r s' where r: "l_Fingerprint r = replicate 32 CHR ''f''"
    "collector_run serving_gate [StoredLogs [r]] (serving_gate\<lparr>g_store := Some s'\<rparr>)" using password_run by blast
  from collector_holds_acknowledged [OF r(2) serving_gate_inv serving_store(1) open_store_db]
  have "keep s' = learn (StoredLogs [r]) (keep (open_store empty_database))" by simp
  then have "k_logs (keep s') (replicate 32 CHR ''f'') \<noteq> None"
    using r(1) by (simp add: log_entry_def)
  with r(2) show ?thesis by fastforce
qed

end
