(* ===== verification/Background.thy ===== *)
theory Background
  imports StoreRuns "HOL-Library.Multiset"
begin

text \<open>
  The maintenance goroutine and \<open>Shutdown\<close> (\<^verbatim>\<open>internal/store/maintenance.go\<close>,
  \<^verbatim>\<open>internal/store/store.go\<close>) statement by statement, with any number of calls of
  \<open>Shutdown\<close> and with writers and clears in between. Shared are the store, the
  \<open>sync.Once\<close>, the channels \<open>stop\<close> and \<open>done\<close> and the maintenance context.
\<close>

section \<open>State\<close>

text \<open>
  The stages of \<open>maintenanceLoop\<close>: \<open>Publishing\<close> and \<open>Writing\<close> are inside the
  deferred function of \<open>Maintain\<close>, before and after its look at \<open>closing\<close>, with the
  writer lock held.
\<close>

datatype loop_stage = NoLoop | AtSelect | Ticked | Publishing "unit result" | Writing "unit result"
  | Maintained | LoopEnded

text \<open>The stages of one call of \<open>Shutdown\<close>.\<close>

datatype call_stage = Called | ClosingSet | NotReadySet | Stopped | Awaiting | AtLock | Down

datatype once = Fresh | Running | Over

record background =
  bg_store :: Store
  bg_once :: once
  bg_cancelled :: bool
  bg_stop_closes :: nat
  bg_done_closes :: nat
  bg_loop :: loop_stage
  bg_calls :: "call_stage multiset"

text \<open>After \<open>Start\<close>, or without one: the loop runs exactly when \<open>maintenanceRun\<close>.\<close>

definition started :: "Store \<Rightarrow> background" where
  "started s = \<lparr>bg_store = s, bg_once = Fresh, bg_cancelled = False, bg_stop_closes = 0, bg_done_closes = 0,
     bg_loop = (if maintenanceRun s then AtSelect else NoLoop), bg_calls = {#}\<rparr>"

definition advance :: "call_stage \<Rightarrow> call_stage \<Rightarrow> background \<Rightarrow> background" where
  "advance c c' b = b\<lparr>bg_calls := add_mset c' (bg_calls b - {#c#})\<rparr>"

definition on_store :: "(Store \<Rightarrow> Store) \<Rightarrow> background \<Rightarrow> background" where
  "on_store f b = b\<lparr>bg_store := f (bg_store b)\<rparr>"

section \<open>Steps\<close>

text \<open>\<open>Shutdown\<close>; closing a channel is counted, since a second close would panic.\<close>

inductive shutdown_step :: "background \<Rightarrow> background \<Rightarrow> bool" where
  set_closing: "Called \<in># bg_calls b \<Longrightarrow>
     shutdown_step b (on_store (\<lambda>s. s\<lparr>closing := True\<rparr>) (advance Called ClosingSet b))"
| set_not_ready: "ClosingSet \<in># bg_calls b \<Longrightarrow>
     shutdown_step b (on_store (\<lambda>s. s\<lparr>ready := False\<rparr>) (advance ClosingSet NotReadySet b))"
| close_stop: "NotReadySet \<in># bg_calls b \<Longrightarrow> bg_once b = Fresh \<Longrightarrow>
     shutdown_step b ((on_store (\<lambda>s. s\<lparr>stopped := True\<rparr>) (advance NotReadySet Stopped b))
       \<lparr>bg_once := Running, bg_stop_closes := bg_stop_closes b + 1\<rparr>)"
| cancel_context: "Stopped \<in># bg_calls b \<Longrightarrow>
     shutdown_step b ((advance Stopped Awaiting b)
       \<lparr>bg_once := Over, bg_cancelled := bg_cancelled b \<or> maintenanceRun (bg_store b)\<rparr>)"
| once_over: "NotReadySet \<in># bg_calls b \<Longrightarrow> bg_once b = Over \<Longrightarrow>
     shutdown_step b (advance NotReadySet Awaiting b)"
| loop_over: "Awaiting \<in># bg_calls b \<Longrightarrow> \<not> maintenanceRun (bg_store b) \<or> 0 < bg_done_closes b \<Longrightarrow>
     shutdown_step b (advance Awaiting AtLock b)"
| release_all: "AtLock \<in># bg_calls b \<Longrightarrow> shutdown_finish env (bg_store b) = (r, s') \<Longrightarrow>
     shutdown_step b (on_store (\<lambda>_. s') (advance AtLock Down b))"

definition end_loop :: "background \<Rightarrow> background" where
  "end_loop b = b\<lparr>bg_loop := LoopEnded, bg_done_closes := bg_done_closes b + 1\<rparr>"

definition to_stage :: "loop_stage \<Rightarrow> background \<Rightarrow> background" where
  "to_stage l b = b\<lparr>bg_loop := l\<rparr>"

text \<open>What the deferred function writes once it has seen the store open.\<close>

definition publish_now :: "unit result \<Rightarrow> Store \<Rightarrow> Store" where
  "publish_now r s =
     (case r of
        Inl e \<Rightarrow>
          if \<not> errors_is e Canceled \<and> \<not> errors_is e DeadlineExceeded
          then setOperationalError e s else s
      | Inr _ \<Rightarrow> s\<lparr>lastError := None, ready := True\<rparr>)"

lemma maintain_publish_now: "maintain_publish r s = (if closing s then s else publish_now r s)"
  by (simp add: maintain_publish_def publish_now_def)

text \<open>
  The loop. The select may take a tick although the stop channel is closed. A lock that is not
  obtained is the deadline or the cancellation of the context.
\<close>

inductive tick_step :: "background \<Rightarrow> background \<Rightarrow> bool" where
  tick: "bg_loop b = AtSelect \<Longrightarrow> tick_step b (to_stage Ticked b)"

inductive loop_step :: "background \<Rightarrow> background \<Rightarrow> bool" where
  stop_seen: "bg_loop b = AtSelect \<Longrightarrow> stopped (bg_store b) \<Longrightarrow> loop_step b (end_loop b)"
| lock_failed: "bg_loop b = Ticked \<Longrightarrow> loop_step b (to_stage Maintained b)"
| maintained: "bg_loop b = Ticked \<Longrightarrow> maintain_locked env now (bg_store b) = (r, s') \<Longrightarrow>
     loop_step b (on_store (\<lambda>_. s') (to_stage (Publishing r) b))"
| hidden: "bg_loop b = Publishing r \<Longrightarrow> closing (bg_store b) \<Longrightarrow> loop_step b (to_stage Maintained b)"
| shown: "bg_loop b = Publishing r \<Longrightarrow> \<not> closing (bg_store b) \<Longrightarrow> loop_step b (to_stage (Writing r) b)"
| published: "bg_loop b = Writing r \<Longrightarrow>
     loop_step b (on_store (publish_now r) (to_stage Maintained b))"
| again: "bg_loop b = Maintained \<Longrightarrow> \<not> bg_cancelled b \<Longrightarrow> loop_step b (to_stage AtSelect b)"
| cancelled: "bg_loop b = Maintained \<Longrightarrow> bg_cancelled b \<Longrightarrow> loop_step b (end_loop b)"

text \<open>Everything else: new calls, and writers and clears while the lock is free.\<close>

definition lock_free :: "background \<Rightarrow> bool" where
  "lock_free b \<longleftrightarrow> (case bg_loop b of Publishing _ \<Rightarrow> False | Writing _ \<Rightarrow> False | _ \<Rightarrow> True)"

inductive user_step :: "background \<Rightarrow> background \<Rightarrow> bool" where
  new_call: "user_step b (b\<lparr>bg_calls := add_mset Called (bg_calls b)\<rparr>)"
| logs: "lock_free b \<Longrightarrow> InsertLogs jv env rs (bg_store b) = (r, s') \<Longrightarrow> user_step b (on_store (\<lambda>_. s') b)"
| spans: "lock_free b \<Longrightarrow> InsertSpans jv env ss (bg_store b) = (r, s') \<Longrightarrow> user_step b (on_store (\<lambda>_. s') b)"
| points: "lock_free b \<Longrightarrow> InsertMetricPoints gv jv env ms (bg_store b) = (r, s') \<Longrightarrow>
     user_step b (on_store (\<lambda>_. s') b)"
| cleared: "lock_free b \<Longrightarrow> Clear cenv expected (bg_store b) = (cr, s') \<Longrightarrow> user_step b (on_store (\<lambda>_. s') b)"

text \<open>
  Progress of a shutdown: its own statements and those of the loop, where a tick counts once
  the context is cancelled. Before that the ticker fires every 30 seconds for ever.
\<close>

definition progress_step :: "background \<Rightarrow> background \<Rightarrow> bool" where
  "progress_step b b' \<longleftrightarrow> shutdown_step b b' \<or> loop_step b b' \<or> (bg_cancelled b \<and> tick_step b b')"

definition background_step :: "background \<Rightarrow> background \<Rightarrow> bool" where
  "background_step b b' \<longleftrightarrow> shutdown_step b b' \<or> loop_step b b' \<or> tick_step b b' \<or> user_step b b'"

section \<open>The invariant\<close>

text \<open>The fields that only \<open>Start\<close> and \<open>Shutdown\<close> write.\<close>

definition flags :: "Store \<Rightarrow> bool \<times> bool \<times> bool \<times> bool" where
  "flags s = (closing s, stopped s, maintenanceRun s, lockHeld s)"

text \<open>An operation under the lock: it leaves the flags and the health, and never reopens.\<close>

definition tame :: "Store \<Rightarrow> Store \<Rightarrow> bool" where
  "tame s s' \<longleftrightarrow> flags s' = flags s \<and> (healthy s \<longrightarrow> healthy s') \<and> (db s = None \<longrightarrow> db s' = None)"

lemma same_data_tame: "same_data s s' \<Longrightarrow> tame s s'"
  by (simp add: tame_def flags_def healthy_def same_data_def)

lemma insert_tame:
  assumes "run_insert get put tally step env rs s = (r, s')" "healthy s \<Longrightarrow> healthy s'"
    and "\<And>n s. flags (tally n s) = flags s"
  shows "tame s s'"
proof (cases r)
  case (Inl e)
  with assms show ?thesis by (auto intro: same_data_tame dest: run_insert_Inl)
next
  case (Inr u)
  with run_insert_Inr [of get put tally step env rs s u s'] assms show ?thesis
    by (auto simp: tame_def flags_def)
qed

lemmas tame_tally = flags_def count_defs

lemma InsertLogs_tame:
  assumes "InsertLogs jv env rs s = (r, s')"
  shows "tame s s'"
proof (rule insert_tame [OF assms [unfolded InsertLogs_def]])
  show "healthy s \<Longrightarrow> healthy s'"
    unfolding healthy_accounts using InsertLogs_accounts [OF assms] by blast
qed (simp add: tame_tally)

lemma InsertSpans_tame:
  assumes "InsertSpans jv env rs s = (r, s')"
  shows "tame s s'"
proof (rule insert_tame [OF assms [unfolded InsertSpans_def]])
  show "healthy s \<Longrightarrow> healthy s'"
    unfolding healthy_accounts using InsertSpans_accounts [OF assms] by blast
qed (simp add: tame_tally)

lemma InsertMetricPoints_tame:
  assumes "InsertMetricPoints gv jv env rs s = (r, s')"
  shows "tame s s'"
proof (rule insert_tame [OF assms [unfolded InsertMetricPoints_def]])
  show "healthy s \<Longrightarrow> healthy s'"
    unfolding healthy_accounts using InsertMetricPoints_accounts [OF assms] by blast
qed (simp add: tame_tally)

lemma Clear_tame:
  assumes "Clear env expected s = (r, s')"
  shows "tame s s'"
proof (cases r)
  case (Inl e)
  with assms show ?thesis by (auto intro: same_data_tame dest: Clear_Inl)
next
  case (Inr res)
  with assms have "Clear env expected s = (Inr res, s')" by simp
  then show ?thesis
    by (rule Clear_Inr) (auto simp: tame_def flags_def healthy_def database_ok_def empty_database_def)
qed

lemma user_step_tame:
  "user_step b b' \<Longrightarrow> tame (bg_store b) (bg_store b')"
  by (induction rule: user_step.induct)
    (auto simp: on_store_def same_data_tame intro: InsertLogs_tame InsertSpans_tame InsertMetricPoints_tame Clear_tame)

lemma maintain_locked_tame:
  assumes "maintain_locked env now s = (r, s')" "healthy s"
  shows "tame s s'"
proof (cases "db s")
  case None
  with assms show ?thesis by (simp add: maintain_locked_def tame_def)
next
  case (Some d)
  with assms(2) have "database_ok d" by (simp add: healthy_def)
  from maintain_locked_shrinks [OF assms(1) Some this] show ?thesis
    by (auto simp: shrinks_def tame_def flags_def healthy_def)
qed

lemma publish_tame: "tame s (publish_now r s)"
  by (auto simp: publish_now_def tame_def flags_def healthy_def frame_simps split: sum.split)

text \<open>What a call in its stage can rely on.\<close>

definition call_ok :: "background \<Rightarrow> call_stage \<Rightarrow> bool" where
  "call_ok b c \<longleftrightarrow>
     (c \<noteq> Called \<longrightarrow> closing (bg_store b)) \<and>
     (c \<in> {Awaiting, AtLock, Down} \<longrightarrow> bg_once b = Over) \<and>
     (c \<in> {AtLock, Down} \<longrightarrow> bg_loop b \<in> {NoLoop, LoopEnded}) \<and>
     (c = Down \<longrightarrow> db (bg_store b) = None \<and> \<not> lockHeld (bg_store b))"

definition core_inv :: "background \<Rightarrow> bool" where
  "core_inv b \<longleftrightarrow> healthy (bg_store b) \<and>
     bg_stop_closes b = (if bg_once b = Fresh then 0 else 1) \<and>
     (stopped (bg_store b) \<longleftrightarrow> bg_once b \<noteq> Fresh) \<and>
     count (bg_calls b) Stopped = (if bg_once b = Running then 1 else 0) \<and>
     (bg_once b = Over \<and> maintenanceRun (bg_store b) \<longrightarrow> bg_cancelled b) \<and>
     bg_done_closes b = (if bg_loop b = LoopEnded then 1 else 0) \<and>
     (maintenanceRun (bg_store b) \<longleftrightarrow> bg_loop b \<noteq> NoLoop)"

definition bg_inv :: "background \<Rightarrow> bool" where
  "bg_inv b \<longleftrightarrow> core_inv b \<and> (\<forall>c\<in>#bg_calls b. call_ok b c)"

lemma bg_inv_started: "\<not> stopped s \<Longrightarrow> healthy s \<Longrightarrow> bg_inv (started s)"
  by (simp add: bg_inv_def core_inv_def started_def)

lemma bg_inv_advance:
  assumes "bg_inv b" "bg_calls b' = add_mset c' (bg_calls b - {#c#})"
    "call_ok b' c'" "\<And>x. call_ok b x \<Longrightarrow> call_ok b' x" "core_inv b'"
  shows "bg_inv b'"
  using assms by (auto simp: bg_inv_def dest: in_diffD)

lemma count_advance:
  "c \<in># bg_calls b \<Longrightarrow> count (add_mset c' (bg_calls b - {#c#})) Stopped =
     count (bg_calls b) Stopped - (if c = Stopped then 1 else 0) + (if c' = Stopped then 1 else 0)"
  by (cases "c = c'") auto

lemmas stage_simps = advance_def on_store_def to_stage_def end_loop_def

lemma stopped_once: "bg_inv b \<Longrightarrow> Stopped \<in># bg_calls b \<Longrightarrow> bg_once b = Running"
  unfolding bg_inv_def core_inv_def by (metis count_eq_zero_iff)

lemma call_known: "bg_inv b \<Longrightarrow> c \<in># bg_calls b \<Longrightarrow> call_ok b c"
  by (simp add: bg_inv_def)

lemma core_known: "bg_inv b \<Longrightarrow> core_inv b"
  by (simp add: bg_inv_def)

lemma shutdown_step_inv:
  assumes "shutdown_step b b'" "bg_inv b"
  shows "bg_inv b'"
  using assms
proof (induction rule: shutdown_step.induct)
  case (set_closing b)
  note known = call_known [OF set_closing(2,1)] core_known [OF set_closing(2)]
  show ?case
    by (rule bg_inv_advance [OF set_closing(2), of _ ClosingSet])
      (use set_closing known in \<open>auto simp: stage_simps call_ok_def core_inv_def count_advance healthy_def\<close>)
next
  case (set_not_ready b)
  note known = call_known [OF set_not_ready(2,1)] core_known [OF set_not_ready(2)]
  show ?case
    by (rule bg_inv_advance [OF set_not_ready(2), of _ NotReadySet])
      (use set_not_ready known in \<open>auto simp: stage_simps call_ok_def core_inv_def count_advance healthy_def\<close>)
next
  case (close_stop b)
  note known = call_known [OF close_stop(3,1)] core_known [OF close_stop(3)]
  show ?case
    by (rule bg_inv_advance [OF close_stop(3), of _ Stopped])
      (use close_stop known in \<open>auto simp: stage_simps call_ok_def core_inv_def count_advance healthy_def\<close>)
next
  case (cancel_context b)
  note known = call_known [OF cancel_context(2,1)] core_known [OF cancel_context(2)] stopped_once [OF cancel_context(2,1)]
  show ?case
    by (rule bg_inv_advance [OF cancel_context(2), of _ Awaiting])
      (use cancel_context known in \<open>auto simp: stage_simps call_ok_def core_inv_def count_advance healthy_def\<close>)
next
  case (once_over b)
  note known = call_known [OF once_over(3,1)] core_known [OF once_over(3)]
  show ?case
    by (rule bg_inv_advance [OF once_over(3), of _ Awaiting])
      (use once_over known in \<open>auto simp: stage_simps call_ok_def core_inv_def count_advance healthy_def\<close>)
next
  case (loop_over b)
  note known = call_known [OF loop_over(3,1)] core_known [OF loop_over(3)]
  show ?case
    by (rule bg_inv_advance [OF loop_over(3), of _ AtLock])
      (use loop_over known in \<open>auto simp: stage_simps call_ok_def core_inv_def count_advance healthy_def\<close>)
next
  case (release_all b env r s')
  then have s': "db s' = None" "lockHeld s' = False" "closing s' = closing (bg_store b)"
    "stopped s' = stopped (bg_store b)" "maintenanceRun s' = maintenanceRun (bg_store b)"
    by (auto simp: shutdown_finish_def split: if_splits)
  note known = call_known [OF release_all(3,1)] core_known [OF release_all(3)]
  show ?case
    by (rule bg_inv_advance [OF release_all(3), of _ Down])
      (use release_all(1) s' known in \<open>auto simp: stage_simps call_ok_def core_inv_def count_advance healthy_def\<close>)
qed

lemma tame_inv:
  assumes "bg_inv b" "tame (bg_store b) s'" "bg_loop b \<notin> {NoLoop, LoopEnded}" "l \<notin> {NoLoop, LoopEnded}"
  shows "bg_inv (on_store (\<lambda>_. s') (to_stage l b))"
  using assms by (auto simp: bg_inv_def core_inv_def stage_simps tame_def flags_def call_ok_def)

lemma on_store_refl: "on_store (\<lambda>_. bg_store b) b = b"
  by (simp add: on_store_def)

lemma loop_step_inv:
  assumes "loop_step b b'" "bg_inv b"
  shows "bg_inv b'"
  using assms
proof (induction rule: loop_step.induct)
  case (stop_seen b)
  then show ?case by (auto simp: bg_inv_def core_inv_def stage_simps call_ok_def)
next
  case (cancelled b)
  then show ?case by (auto simp: bg_inv_def core_inv_def stage_simps call_ok_def)
next
  case (maintained b env now r s')
  then have "tame (bg_store b) s'" using maintain_locked_tame by (simp add: bg_inv_def core_inv_def)
  with maintained show ?case by (intro tame_inv) auto
next
  case (published b r)
  from tame_inv [OF published(2) publish_tame [of _ r], of Maintained] published(1) show ?case
    by (simp add: stage_simps)
qed (auto simp: bg_inv_def core_inv_def stage_simps call_ok_def)

lemma user_step_inv:
  assumes "user_step b b'" "bg_inv b"
  shows "bg_inv b'"
proof -
  have "bg_inv (on_store (\<lambda>_. s') b)" if "tame (bg_store b) s'" for s'
    using that assms(2) by (auto simp: bg_inv_def core_inv_def stage_simps tame_def flags_def call_ok_def)
  moreover have "bg_inv (b\<lparr>bg_calls := add_mset Called (bg_calls b)\<rparr>)"
    using assms(2) by (auto simp: bg_inv_def core_inv_def call_ok_def)
  ultimately show ?thesis
    using user_step_tame [OF assms(1)] assms(1) by (elim user_step.cases) (auto simp: on_store_def)
qed

lemma tick_step_inv: "tick_step b b' \<Longrightarrow> bg_inv b \<Longrightarrow> bg_inv b'"
  by (induction rule: tick_step.induct) (auto simp: bg_inv_def core_inv_def stage_simps call_ok_def)

lemma background_run_inv: "background_step\<^sup>*\<^sup>* b b' \<Longrightarrow> bg_inv b \<Longrightarrow> bg_inv b'"
  by (induction rule: rtranclp_induct)
    (auto simp: background_step_def intro: shutdown_step_inv loop_step_inv user_step_inv tick_step_inv)

section \<open>Every shutdown returns\<close>

fun call_weight :: "call_stage \<Rightarrow> nat" where
  "call_weight Called = 13"
| "call_weight ClosingSet = 12"
| "call_weight NotReadySet = 11"
| "call_weight Stopped = 10"
| "call_weight Awaiting = 2"
| "call_weight AtLock = 1"
| "call_weight Down = 0"

text \<open>Before the cancellation the loop counts up to the next select, then up to its end.\<close>

fun loop_weight :: "bool \<Rightarrow> loop_stage \<Rightarrow> nat" where
  "loop_weight c NoLoop = 0"
| "loop_weight c AtSelect = (if c then 6 else 1)"
| "loop_weight c Ticked = 5"
| "loop_weight c (Publishing _) = 4"
| "loop_weight c (Writing _) = 3"
| "loop_weight c Maintained = 2"
| "loop_weight c LoopEnded = 0"

definition todo :: "background \<Rightarrow> nat" where
  "todo b = sum_mset (image_mset call_weight (bg_calls b)) + loop_weight (bg_cancelled b) (bg_loop b)"

lemma sum_advance:
  assumes "c \<in># bg_calls b"
  shows "sum_mset (image_mset call_weight (add_mset c' (bg_calls b - {#c#}))) + call_weight c =
    sum_mset (image_mset call_weight (bg_calls b)) + call_weight c'"
proof -
  from assms obtain M where "bg_calls b = add_mset c M" by (metis insert_DiffM)
  then show ?thesis by simp
qed

lemma loop_weight_cancel: "loop_weight c l \<le> 5 + loop_weight d l"
  by (cases l) auto

lemma shutdown_step_todo: "shutdown_step b b' \<Longrightarrow> todo b' < todo b"
proof (induction rule: shutdown_step.induct)
  case (set_closing b)
  then show ?case using sum_advance [OF set_closing, of ClosingSet] by (simp add: todo_def stage_simps)
next
  case (set_not_ready b)
  then show ?case using sum_advance [OF set_not_ready, of NotReadySet] by (simp add: todo_def stage_simps)
next
  case (close_stop b)
  then show ?case using sum_advance [OF close_stop(1), of Stopped] by (simp add: todo_def stage_simps)
next
  case (cancel_context b)
  then show ?case
    using sum_advance [OF cancel_context, of Awaiting]
      loop_weight_cancel [of "bg_cancelled b \<or> maintenanceRun (bg_store b)" "bg_loop b" "bg_cancelled b"]
    by (simp add: todo_def stage_simps)
next
  case (once_over b)
  then show ?case using sum_advance [OF once_over(1), of Awaiting] by (simp add: todo_def stage_simps)
next
  case (loop_over b)
  then show ?case using sum_advance [OF loop_over(1), of AtLock] by (simp add: todo_def stage_simps)
next
  case (release_all b env r s')
  then show ?case using sum_advance [OF release_all(1), of Down] by (simp add: todo_def stage_simps)
qed

lemma progress_todo: "progress_step b b' \<Longrightarrow> todo b' < todo b"
proof -
  have "loop_step b b' \<Longrightarrow> todo b' < todo b"
    by (induction rule: loop_step.induct) (auto simp: todo_def stage_simps)
  moreover have "tick_step b b' \<Longrightarrow> bg_cancelled b \<Longrightarrow> todo b' < todo b"
    by (induction rule: tick_step.induct) (auto simp: todo_def stage_simps)
  ultimately show "progress_step b b' \<Longrightarrow> todo b' < todo b"
    using shutdown_step_todo by (auto simp: progress_step_def)
qed

lemma loop_ends:
  assumes "bg_inv b" "\<nexists>b'. progress_step b b'" "stopped (bg_store b)"
  shows "bg_loop b \<in> {NoLoop, LoopEnded}"
proof (cases "bg_loop b")
  case AtSelect
  with assms stop_seen show ?thesis by (auto simp: progress_step_def)
next
  case Ticked
  with assms lock_failed show ?thesis by (auto simp: progress_step_def)
next
  case (Publishing r)
  with assms(2) hidden [of b r] shown [of b r] show ?thesis
    by (cases "closing (bg_store b)") (auto simp: progress_step_def)
next
  case (Writing r)
  with assms published show ?thesis by (auto simp: progress_step_def)
next
  case Maintained
  with assms again [of b] cancelled [of b] show ?thesis by (auto simp: progress_step_def)
qed simp_all

lemma stuck_down:
  assumes "bg_inv b" "\<nexists>b'. progress_step b b'" "c \<in># bg_calls b"
  shows "c = Down"
proof -
  have none: "\<not> shutdown_step b b'" for b' using assms(2) by (simp add: progress_step_def)
  have "AtLock \<notin># bg_calls b"
    using none release_all [of b undefined] by (cases "shutdown_finish undefined (bg_store b)") blast
  moreover have absent: "Called \<notin># bg_calls b" "ClosingSet \<notin># bg_calls b" "Stopped \<notin># bg_calls b"
    using none set_closing set_not_ready cancel_context by blast+
  have "bg_once b \<noteq> Running" using assms(1) absent(3) unfolding bg_inv_def core_inv_def by (metis count_eq_zero_iff one_neq_zero)
  then have "NotReadySet \<notin># bg_calls b" using none close_stop once_over by (metis once.exhaust)
  moreover have "Awaiting \<notin># bg_calls b"
  proof
    assume a: "Awaiting \<in># bg_calls b"
    with assms(1) have "stopped (bg_store b)" by (auto simp: bg_inv_def core_inv_def call_ok_def)
    with loop_ends [OF assms(1,2)] assms(1) have "\<not> maintenanceRun (bg_store b) \<or> 0 < bg_done_closes b"
      by (auto simp: bg_inv_def core_inv_def)
    with a none loop_over show False by blast
  qed
  ultimately show ?thesis using absent assms(3) by (cases c) auto
qed

text \<open>
  C38. Shutdown and the maintenance loop, in every interleaving of their statements with other
  calls of Shutdown, writers and clears: the channels are closed at most once, so nothing
  panics; as soon as one call has set its flag no write is admitted and no snapshot is ready,
  even if a maintenance that was under way still stores its success; a call that has returned
  has left the loop ended, the database closed and the ownership released, for good; and no
  call hangs: the statements of the calls and of the loop come to an end, and when none is left
  to execute every call has returned.
\<close>

theorem shutdown_completes:
  assumes "background_step\<^sup>*\<^sup>* (started s) b" "\<not> stopped s" "healthy s"
  shows "bg_stop_closes b \<le> 1 \<and> bg_done_closes b \<le> 1 \<and>
    ((\<exists>c\<in>#bg_calls b. c \<noteq> Called) \<longrightarrow>
       admissionErrorLocked dk (bg_store b) \<noteq> None \<and> \<not> Ready (OperationalSnapshot dk (bg_store b))) \<and>
    (Down \<in># bg_calls b \<longrightarrow> bg_loop b \<in> {NoLoop, LoopEnded} \<and> db (bg_store b) = None \<and> \<not> lockHeld (bg_store b)) \<and>
    wfp (\<lambda>y x. progress_step x y) \<and>
    ((\<nexists>b'. progress_step b b') \<longrightarrow> (\<forall>c\<in>#bg_calls b. c = Down))"
proof -
  have inv: "bg_inv b" by (rule background_run_inv [OF assms(1) bg_inv_started [OF assms(2,3)]])
  have "wfp (\<lambda>y x. progress_step x y)"
    by (rule wfp_if_convertible_to_nat [where f = todo]) (rule progress_todo)
  moreover have "admissionErrorLocked dk (bg_store b) \<noteq> None \<and> \<not> Ready (OperationalSnapshot dk (bg_store b))"
    if "c \<in># bg_calls b" "c \<noteq> Called" for c
    using that inv closing_refuses by (auto simp: bg_inv_def core_inv_def call_ok_def OperationalSnapshot_def)
  moreover have "bg_loop b \<in> {NoLoop, LoopEnded} \<and> db (bg_store b) = None \<and> \<not> lockHeld (bg_store b)"
    if "Down \<in># bg_calls b"
    using that inv by (simp add: bg_inv_def core_inv_def call_ok_def)
  moreover have "bg_stop_closes b \<le> 1 \<and> bg_done_closes b \<le> 1" using inv by (simp add: bg_inv_def core_inv_def)
  ultimately show ?thesis using stuck_down [OF inv] by blast
qed

section \<open>One shutdown\<close>

definition running_store :: Store where
  "running_store = (new_store default_config)
     \<lparr>db := Some empty_database, ready := True, maintenanceRun := True, lockHeld := True\<rparr>"

text \<open>A call up to its wait, the loop at its select.\<close>

definition waiting_call :: background where
  "waiting_call = \<lparr>bg_store = running_store\<lparr>closing := True, ready := False, stopped := True\<rparr>, bg_once = Over,
     bg_cancelled = True, bg_stop_closes = 1, bg_done_closes = 0, bg_loop = AtSelect, bg_calls = {#Awaiting#}\<rparr>"

lemma waiting_run: "background_step\<^sup>*\<^sup>* (started running_store) waiting_call"
proof -
  let ?b0 = "(started running_store)\<lparr>bg_calls := {#Called#}\<rparr>"
  let ?b1 = "on_store (\<lambda>s. s\<lparr>closing := True\<rparr>) (advance Called ClosingSet ?b0)"
  let ?b2 = "on_store (\<lambda>s. s\<lparr>ready := False\<rparr>) (advance ClosingSet NotReadySet ?b1)"
  let ?b3 = "(on_store (\<lambda>s. s\<lparr>stopped := True\<rparr>) (advance NotReadySet Stopped ?b2))
       \<lparr>bg_once := Running, bg_stop_closes := bg_stop_closes ?b2 + 1\<rparr>"
  have "background_step (started running_store) ?b0"
    using new_call [of "started running_store"] by (simp add: background_step_def started_def)
  moreover have "background_step ?b0 ?b1" by (simp add: background_step_def set_closing)
  moreover have "background_step ?b1 ?b2"
    unfolding background_step_def by (intro disjI1 set_not_ready) (simp add: stage_simps)
  moreover have "background_step ?b2 ?b3"
    unfolding background_step_def by (intro disjI1 close_stop) (simp_all add: stage_simps started_def)
  moreover have "background_step ?b3 waiting_call"
    using cancel_context [of ?b3]
    by (simp add: background_step_def stage_simps started_def waiting_call_def running_store_def)
  ultimately show ?thesis by (meson converse_rtranclp_into_rtranclp rtranclp.rtrancl_refl)
qed

lemma down_run: "\<exists>b. background_step\<^sup>*\<^sup>* (started running_store) b \<and> Down \<in># bg_calls b"
proof -
  let ?b1 = "end_loop waiting_call" and ?b2 = "advance Awaiting AtLock (end_loop waiting_call)"
  let ?b3 = "on_store (\<lambda>_. snd (shutdown_finish undefined (bg_store ?b2))) (advance AtLock Down ?b2)"
  have "background_step waiting_call ?b1"
    by (simp add: background_step_def stop_seen waiting_call_def)
  moreover have "background_step ?b1 ?b2"
    by (simp add: background_step_def loop_over end_loop_def waiting_call_def)
  moreover have "background_step ?b2 ?b3"
    unfolding background_step_def
    by (intro disjI1 release_all [OF _ prod.collapse [symmetric]]) (simp add: advance_def)
  moreover have "Down \<in># bg_calls ?b3" by (simp add: stage_simps)
  ultimately show ?thesis using waiting_run by (meson rtranclp.rtrancl_into_rtrancl)
qed

theorem shutdown_completes_witness:
  "(\<exists>b. background_step\<^sup>*\<^sup>* (started running_store) b \<and> Down \<in># bg_calls b \<and> db (bg_store b) = None) \<and>
   admissionErrorLocked (diskState (\<lparr>stat_size = (\<lambda>_. None), statfs_dir = (\<lambda>_. None)\<rparr>) []) (bg_store waiting_call) \<noteq> None"
proof -
  have start: "\<not> stopped running_store" "healthy running_store"
    by (simp_all add: running_store_def new_store_def healthy_def database_ok_def table_ok_def empty_database_def)
  obtain b where b: "background_step\<^sup>*\<^sup>* (started running_store) b" "Down \<in># bg_calls b"
    using down_run by blast
  from shutdown_completes [OF b(1) start] b(2) have "db (bg_store b) = None" by blast
  moreover have "\<exists>c\<in>#bg_calls waiting_call. c \<noteq> Called" by (simp add: waiting_call_def)
  ultimately show ?thesis using b shutdown_completes [OF waiting_run start] by blast
qed

end
