(* ===== verification/Recovery.thy ===== *)
theory Recovery
  imports Keeper
begin

text \<open>
  Storage failures and recovery (\<open>recordWriteError\<close>, \<open>admissionErrorLocked\<close> and the
  deferred function of \<open>Maintain\<close> in \<^verbatim>\<open>internal/store/maintenance.go\<close>): a write that
  SQLite could not carry out closes the store to writers, and only a maintenance that succeeds
  opens it again.
\<close>

section \<open>Runs without a successful maintenance\<close>

inductive failing_step :: "Store \<Rightarrow> Store \<Rightarrow> bool" where
  logs: "InsertLogs jv env rs s = (r, s') \<Longrightarrow> failing_step s s'"
| spans: "InsertSpans jv env ss s = (r, s') \<Longrightarrow> failing_step s s'"
| points: "InsertMetricPoints gv jv env ms s = (r, s') \<Longrightarrow> failing_step s s'"
| failed_maintenance: "Maintain menv now s = (Inl e, s') \<Longrightarrow> failing_step s s'"
| cleared: "Clear cenv expected s = (cr, s') \<Longrightarrow> failing_step s s'"
| shutdown_begins: "failing_step s (shutdown_begin s)"
| shutdown_ends: "shutdown_finish senv s = (r, s') \<Longrightarrow> closing s \<Longrightarrow> failing_step s s'"

lemma failing_store_step: "failing_step s s' \<Longrightarrow> store_step s s'"
  by (induction rule: failing_step.induct)
    (auto intro: insert_logs insert_spans insert_points maintain clear closing_begins closing_ends)

lemma insert_refused:
  "\<not> ready s \<Longrightarrow> run_insert get put tally step env rs s = (r, s') \<Longrightarrow> s' = s \<and> r = Inl not_ready"
  by (simp add: run_insert_def)

text \<open>What a store that is not ready keeps: counters of committed rows, and it learns nothing.\<close>

definition committed :: "Store \<Rightarrow> u64 \<times> u64 \<times> u64" where
  "committed s = (committedLogs s, committedSpans s, committedMetrics s)"

lemma forgets_refl: "forgets k k"
  by (simp add: forgets_def)

lemma forgets_trans: "forgets k k' \<Longrightarrow> forgets k' k'' \<Longrightarrow> forgets k k''"
  unfolding forgets_def by (meson map_le_trans)

lemma Maintain_failed:
  assumes "Maintain env now s = (Inl e, s')" "\<not> ready s" "\<And>d. db s = Some d \<Longrightarrow> database_ok d"
  shows "\<not> ready s' \<and> committed s' = committed s"
proof (cases "me_lock env = None \<and> db s \<noteq> None")
  case False
  with assms(1,2) show ?thesis
    by (auto simp: Maintain_def maintain_locked_def maintain_publish_def setOperationalError_def committed_def
        split: option.splits if_splits)
next
  case True
  then obtain d where d: "db s = Some d" by blast
  obtain r0 s0 where locked: "maintain_locked env now s = (r0, s0)" "r0 = Inl e" "s' = maintain_publish r0 s0"
    using assms(1) True by (auto simp: Maintain_def split: prod.splits)
  with maintain_locked_shrinks [OF locked(1) d assms(3) [OF d]] assms(2) show ?thesis
    by (auto simp: shrinks_def maintain_publish_def setOperationalError_def committed_def)
qed

lemma Clear_unready:
  assumes "Clear env expected s = (r, s')" "\<not> ready s"
  shows "\<not> ready s' \<and> committed s' = committed s"
proof (cases r)
  case (Inl e)
  with assms have "committed s' = committed s" by (auto simp: same_data_def committed_def dest: Clear_Inl)
  moreover have "\<not> ready s'" using assms Inl
    by (auto simp: Clear_def split: option.splits sum.splits prod.splits
        dest!: clear_tx_cases recordWriteError_ready)
  ultimately show ?thesis by simp
next
  case (Inr res)
  with assms(1) have "Clear env expected s = (Inr res, s')" by simp
  then show ?thesis by (rule Clear_Inr) (use assms(2) in \<open>simp add: committed_def\<close>)
qed

lemma failing_step_keeps:
  assumes "failing_step s s'" "\<not> ready s" "\<And>d. db s = Some d \<Longrightarrow> database_ok d"
  shows "\<not> ready s' \<and> committed s' = committed s \<and> forgets (keep s) (keep s')"
  using assms
proof (induction rule: failing_step.induct)
  case (logs jv env rs s r s')
  then show ?case by (auto simp: InsertLogs_def forgets_refl dest: insert_refused)
next
  case (spans jv env ss s r s')
  then show ?case by (auto simp: InsertSpans_def forgets_refl dest: insert_refused)
next
  case (points gv jv env ms s r s')
  then show ?case by (auto simp: InsertMetricPoints_def forgets_refl dest: insert_refused)
next
  case (failed_maintenance menv now s e s')
  then show ?case using Maintain_failed Maintain_removes removes_forgets by blast
next
  case (cleared cenv expected s cr s')
  then show ?case using Clear_unready Clear_removes removes_forgets by blast
next
  case (shutdown_begins s)
  then show ?case by (simp add: shutdown_begin_keeps forgets_def committed_def) (simp add: shutdown_begin_def)
next
  case (shutdown_ends senv s r s')
  then have "keep s' = emptied (keep s)" by (simp add: shutdown_finish_keeps)
  with shutdown_ends show ?case
    by (auto simp: forgets_def emptied_def committed_def shutdown_finish_def split: if_splits)
qed

section \<open>The failure and the recovery\<close>

definition storage_error :: "go_error \<Rightarrow> bool" where
  "storage_error e \<longleftrightarrow> (case errors_as_sqlite e of None \<Rightarrow> False | Some c \<Rightarrow> storage_failure c)"

lemma recordWriteError_storage:
  "recordWriteError (Some e) s = (if storage_error e then setOperationalError e s else s)"
  by (simp add: recordWriteError_def storage_error_def split: option.split)

lemma insert_fails_storage:
  assumes "run_insert get put tally step env rs s = (Inl e, s')" "storage_error e" "we_lock env = None"
  shows "\<not> ready s'"
  using assms by (auto simp: run_insert_def recordWriteError_storage setOperationalError_def
      split: if_splits prod.splits)

lemma Maintain_recovers:
  assumes "Maintain env now s = (Inr u, s')" "\<And>d. db s = Some d \<Longrightarrow> database_ok d"
  shows "ready s' \<and> lastError s' = None \<and> committed s' = committed s \<and> forgets (keep s) (keep s')"
proof -
  obtain r0 s0 where locked: "me_lock env = None" "maintain_locked env now s = (Inr u, s0)"
    "s' = maintain_publish (Inr u) s0"
    using assms(1) by (auto simp: Maintain_def split: option.splits prod.splits)
  then obtain d where d: "db s = Some d" "\<not> closing s"
    by (auto simp: maintain_locked_def split: if_splits)
  from maintain_locked_shrinks [OF locked(2) d(1) assms(2) [OF d(1)]] locked(3) d
  have "ready s' \<and> lastError s' = None \<and> committed s' = committed s"
    by (auto simp: shrinks_def maintain_publish_def committed_def)
  with removes_forgets [OF Maintain_removes [OF assms]] show ?thesis by blast
qed

definition batch_fails :: "write_env \<Rightarrow> go_error \<Rightarrow> Store \<Rightarrow> Store \<Rightarrow> bool" where
  "batch_fails env e t s \<longleftrightarrow>
     (\<exists>jv rs. InsertLogs jv env rs t = (Inl e, s)) \<or> (\<exists>jv rs. InsertSpans jv env rs t = (Inl e, s)) \<or>
     (\<exists>gv jv rs. InsertMetricPoints gv jv env rs t = (Inl e, s))"

lemma batch_fails_unready:
  "batch_fails env e t s \<Longrightarrow> we_lock env = None \<Longrightarrow> storage_error e \<Longrightarrow> \<not> ready s"
  unfolding batch_fails_def InsertLogs_def InsertSpans_def InsertMetricPoints_def
  by (elim disjE exE) (erule (2) insert_fails_storage)+

lemma batch_fails_data: "batch_fails env e t s \<Longrightarrow> same_data t s"
  unfolding batch_fails_def InsertLogs_def InsertSpans_def InsertMetricPoints_def
  by (elim disjE exE) (erule run_insert_Inl)+

lemma failing_run_keeps:
  assumes "failing_step\<^sup>*\<^sup>* s s'" "\<not> ready s" "healthy s"
  shows "\<not> ready s' \<and> committed s' = committed s \<and> forgets (keep s) (keep s') \<and> healthy s'"
  using assms(1)
proof (induction rule: rtranclp_induct)
  case (step t u)
  then have ok: "db t = Some d \<Longrightarrow> database_ok d" for d by (simp add: healthy_def)
  then have "accounts (balances t) t" by (simp add: accounts_def)
  from store_step_accounts [OF failing_store_step [OF step(2)] this] have "healthy u"
    by (simp add: accounts_def healthy_def)
  with failing_step_keeps [OF step(2) _ ok] step.IH show ?case by (auto intro: forgets_trans)
qed (use assms(2,3) forgets_refl in auto)

text \<open>
  C13. A storage failure stops all writes until maintenance has succeeded. When a batch of logs,
  spans or points fails under the lock with a storage error of SQLite, then from there on,
  whatever is called in whatever order and however it fails, as long as no maintenance succeeds:
  the store is not ready, no snapshot reports it ready, no write is admitted, nothing more is
  counted as committed and the tables learn nothing. The first maintenance that succeeds makes
  the store ready and clears the error.
\<close>

theorem failure_stops_writes_until_maintenance:
  assumes "batch_fails env e t s" "we_lock env = None" "storage_error e"
    "failing_step\<^sup>*\<^sup>* s s'" "db t = Some d" "database_ok d"
  shows "\<not> ready s' \<and> admissionErrorLocked dk s' \<noteq> None \<and> \<not> Ready (OperationalSnapshot dk s') \<and>
    committed s' = committed t \<and> forgets (keep t) (keep s') \<and>
    (\<forall>menv now s''. Maintain menv now s' = (Inr (), s'') \<longrightarrow> ready s'' \<and> lastError s'' = None)"
proof -
  have same: "keep s = keep t" "committed s = committed t" "healthy s"
    using batch_fails_data [OF assms(1)] assms(5,6) keep_same [of s t]
    by (auto simp: same_data_def committed_def healthy_def)
  from failing_run_keeps [OF assms(4) batch_fails_unready [OF assms(1-3)] same(3)] same(1,2)
  have run: "\<not> ready s'" "committed s' = committed t" "forgets (keep t) (keep s')" "healthy s'" by simp_all
  then have "\<forall>menv now s''. Maintain menv now s' = (Inr (), s'') \<longrightarrow> ready s'' \<and> lastError s'' = None"
    using Maintain_recovers unfolding healthy_def by blast
  with run show ?thesis by (simp add: admissionErrorLocked_def OperationalSnapshot_def)
qed

section \<open>A full disk\<close>

definition disk_full :: go_error where
  "disk_full = SqliteError ErrFull ''database or disk is full''"

definition full_writes :: write_env where
  "full_writes = calm_writes\<lparr>we_commit := Some disk_full\<rparr>"

lemma full_disk_batch:
  "\<exists>s. InsertLogs (\<lambda>_. True) full_writes [a_log] (open_store empty_database) = (Inl disk_full, s)"
  by (simp add: InsertLogs_def run_insert_def insert_locked_def roomy_admits open_store_state
        calm_calls log_step_def log_insert_def log_checks_def full_writes_def a_log_def empty_database_def)

theorem failure_stops_writes_until_maintenance_witness:
  "\<exists>s. batch_fails full_writes disk_full (open_store empty_database) s \<and>
     admissionErrorLocked roomy_disk s \<noteq> None \<and> committed s = (0, 0, 0)"
proof -
  obtain s where s: "InsertLogs (\<lambda>_. True) full_writes [a_log] (open_store empty_database) = (Inl disk_full, s)"
    using full_disk_batch by blast
  then have fails: "batch_fails full_writes disk_full (open_store empty_database) s"
    unfolding batch_fails_def by blast
  have "we_lock full_writes = None" "storage_error disk_full"
    by (simp_all add: full_writes_def calm_calls storage_error_def disk_full_def storage_failure_def)
  from failure_stops_writes_until_maintenance [OF fails this rtranclp.rtrancl_refl open_store_state(1) empty_database_ok]
  have "admissionErrorLocked roomy_disk s \<noteq> None \<and> committed s = committed (open_store empty_database)" by blast
  with fails show ?thesis by (auto simp: committed_def open_store_state)
qed

end
