(* ===== verification/JsonReader.thy ===== *)
theory JsonReader
  imports Utf8Text
begin

text \<open>
  A reader for the JSON text that \<open>json.Marshal\<close> writes, the inverse of \<open>marshal\<close>. The
  program leaves reading to \<open>encoding/json\<close> and SQLite; this reader is the specification
  against which the stored payloads are complete.
\<close>

section \<open>Strings\<close>

text \<open>Strings in which every byte belongs to a code point.\<close>

function valid_utf8 :: "string \<Rightarrow> bool" where
  "valid_utf8 [] = True"
| "valid_utf8 (c # cs) =
     (case decode_rune (c # cs) of None \<Rightarrow> False | Some (r, w) \<Rightarrow> valid_utf8 (drop w (c # cs)))"
  by pat_completeness auto
termination
  by (relation "measure length") (auto dest: decode_rune_width)

definition simple_escape :: "char \<Rightarrow> char option" where
  "simple_escape e =
     (if e = backslash \<or> e = dquote \<or> e = CHR ''/'' then Some e
      else if e = CHR ''b'' then Some (CHR 0x08) else if e = CHR ''f'' then Some (CHR 0x0C)
      else if e = CHR ''n'' then Some (CHR 0x0A) else if e = CHR ''r'' then Some (CHR 0x0D)
      else if e = CHR ''t'' then Some (CHR 0x09) else None)"

definition hex4 :: "string \<Rightarrow> nat option" where
  "hex4 ds =
     (case map hex_value ds of
        [Some a, Some b, Some c, Some d] \<Rightarrow> Some (((a * 16 + b) * 16 + c) * 16 + d)
      | _ \<Rightarrow> None)"

definition prepend :: "string \<Rightarrow> (string \<times> string) option \<Rightarrow> (string \<times> string) option" where
  "prepend u p = map_option (\<lambda>(s, x). (u @ s, x)) p"

text \<open>The content of a string up to its closing quote, and what follows it.\<close>

function read_chars :: "string \<Rightarrow> (string \<times> string) option" where
  "read_chars [] = None"
| "read_chars (c # cs) =
     (if c = dquote then Some ([], cs)
      else if c = backslash then
        (if cs = [] then None
         else if hd cs = CHR ''u'' then
           (case hex4 (take 4 (drop 1 cs)) of
              None \<Rightarrow> None
            | Some r \<Rightarrow> prepend (encode_rune r) (read_chars (drop 5 cs)))
         else (case simple_escape (hd cs) of
                 None \<Rightarrow> None
               | Some e \<Rightarrow> prepend [e] (read_chars (drop 1 cs))))
      else prepend [c] (read_chars cs))"
  by pat_completeness auto
termination
  by (relation "measure length") auto

lemma prepend_simps [simp]: "prepend u None = None" "prepend u (Some (s, x)) = Some (u @ s, x)"
  by (simp_all add: prepend_def)

lemma byte_char: "char_of (byte c) = c"
  by (simp add: byte_def)

lemma hex_digits:
  fixes n :: nat
  assumes "n < 65536"
  shows "((n div 4096 mod 16 * 16 + n div 256 mod 16) * 16 + n div 16 mod 16) * 16 + n mod 16 = n"
proof -
  have q: "n div 16 div 16 = n div 256" "n div 256 div 16 = n div 4096"
    by (simp_all add: div_mult2_eq [symmetric])
  have "n div 4096 mod 16 = n div 4096" using assms by simp
  then have "n div 4096 mod 16 * 16 + n div 256 mod 16 = n div 256"
    using div_mult_mod_eq [of "n div 256" 16] q by simp
  then show ?thesis
    using div_mult_mod_eq [of "n div 16" 16] div_mult_mod_eq [of n 16] q by simp
qed

lemma hex4_digits:
  "a < 16 \<Longrightarrow> b < 16 \<Longrightarrow> c < 16 \<Longrightarrow> d < 16 \<Longrightarrow>
     hex4 [hex_digit a, hex_digit b, hex_digit c, hex_digit d] = Some (((a * 16 + b) * 16 + c) * 16 + d)"
  by (simp add: hex4_def hex_value_digit)

lemma read_unicode_escape:
  assumes "n < 65536"
  shows "read_chars (unicode_escape n @ x) = prepend (encode_rune n) (read_chars x)"
proof -
  have "hex4 [hex_digit (n div 4096 mod 16), hex_digit (n div 256 mod 16),
      hex_digit (n div 16 mod 16), hex_digit (n mod 16)] = Some n"
    by (subst hex4_digits) (simp_all only: hex_digits [OF assms] mod_less_divisor zero_less_numeral)
  then show ?thesis by (simp add: unicode_escape_def)
qed

lemma read_json_escape:
  assumes "byte c < 128"
  shows "read_chars (json_escape c @ x) = prepend [c] (read_chars x)"
proof (cases "byte c < 32 \<or> c = CHR ''<'' \<or> c = CHR ''>'' \<or> c = CHR ''&''")
  case True
  have "encode_rune (byte c) = [c]" using assms byte_char [of c] by (simp add: encode_rune_ascii)
  with True read_unicode_escape [of "byte c" x] assms show ?thesis
    by (auto simp: json_escape_def simple_escape_def)
next
  case False
  then show ?thesis by (auto simp: json_escape_def simple_escape_def byte_def)
qed

lemma read_raw:
  "list_all (\<lambda>c. 128 \<le> byte c) u \<Longrightarrow> read_chars (u @ x) = prepend u (read_chars x)"
proof (induction u)
  case Nil
  then show ?case by (cases "read_chars x") auto
next
  case (Cons c u)
  then have "c \<noteq> dquote" "c \<noteq> backslash" by (auto simp: byte_def)
  with Cons show ?case by (cases "read_chars x") auto
qed

text \<open>The bytes of a code point beyond ASCII, and the two that are escaped.\<close>

lemma decode_rune_high:
  assumes "decode_rune (c # cs) = Some (r, w)" "128 \<le> byte c"
  shows "list_all (\<lambda>c. 128 \<le> byte c) (take w (c # cs))"
  using assms by (auto simp: decode_rune.simps Let_def second_ok_def continuation_def
      split: if_splits list.splits)

lemma decode_rune_separator:
  assumes "decode_rune s = Some (r, w)" "r = 8232 \<or> r = 8233"
  shows "take w s = encode_rune r"
proof -
  from assms(1) obtain c cs where s: "s = c # cs" by (cases s) (auto simp: decode_rune.simps)
  have "\<not> byte c < 128" using assms s by (auto simp: decode_rune.simps split: if_splits)
  with assms s obtain c1 cs1 where c1: "cs = c1 # cs1" "second_ok (byte c) c1"
    by (cases cs) (auto simp: decode_rune.simps Let_def split: if_splits)
  have b1: "128 \<le> byte c1" "byte c1 < 192" using c1(2) by (auto simp: second_ok_def continuation_def)
  have two: "\<not> (194 \<le> byte c \<and> byte c < 224)"
    using assms s c1 b1 by (auto simp: decode_rune.simps Let_def split: if_splits)
  with assms s c1 \<open>\<not> byte c < 128\<close> obtain c2 cs2 where c2: "cs1 = c2 # cs2" "continuation c2"
    by (cases cs1) (auto simp: decode_rune.simps Let_def split: if_splits)
  have b2: "128 \<le> byte c2" "byte c2 < 192" using c2(2) by (auto simp: continuation_def)
  show ?thesis
  proof (cases "224 \<le> byte c \<and> byte c < 240")
    case True
    with assms s c1 c2 two \<open>\<not> byte c < 128\<close> have
      w: "w = 3" and r: "r = ((byte c - 224) * 64 + (byte c1 - 128)) * 64 + (byte c2 - 128)"
      by (auto simp: decode_rune.simps Let_def)
    define k x y where "k = byte c - 224" and "x = byte c1 - 128" and "y = byte c2 - 128"
    have parts: "byte c = k + 224" "byte c1 = x + 128" "byte c2 = y + 128" "x < 64" "y < 64"
      using True b1 b2 by (auto simp: k_def x_def y_def)
    define q where "q = k * 64 + x"
    have "r = q * 64 + y" using r by (simp add: q_def k_def x_def y_def)
    then have "r div 64 = q" "r mod 64 = y" using parts(5) by simp_all
    then have q: "q = 128" and y: "y = r - 8192" using assms(2) by auto
    then have "q div 64 = 2" "q mod 64 = 0" by simp_all
    then have k: "k = 2" using parts(4) unfolding q_def by simp
    with q have "x = 0" unfolding q_def by simp
    with parts k y assms(2) have "byte c = 226" "byte c1 = 128" "byte c2 = r - 8064" by auto
    then have "c = char_of (226::nat)" "c1 = char_of (128::nat)" "c2 = char_of (r - 8064)"
      by (metis byte_char)+
    with s c1 c2 w assms(2) show ?thesis by (auto simp: encode_rune_def)
  next
    case False
    with assms s c1 c2 two \<open>\<not> byte c < 128\<close> obtain c3 cs3 where
      "240 \<le> byte c" "byte c < 245"
      "r = (((byte c - 240) * 64 + (byte c1 - 128)) * 64 + (byte c2 - 128)) * 64 + (byte c3 - 128)"
      by (cases cs2) (auto simp: decode_rune.simps Let_def split: if_splits)
    moreover have "byte c = 240 \<Longrightarrow> 144 \<le> byte c1" using c1(2) by (simp add: second_ok_def)
    ultimately have "65536 \<le> r" by (cases "byte c = 240") auto
    with assms(2) show ?thesis by auto
  qed
qed

lemma read_json_chars: "valid_utf8 s \<Longrightarrow> read_chars (json_chars s @ dquote # x) = Some (s, x)"
proof (induction s rule: json_chars.induct)
  case (2 c cs)
  show ?case
  proof (cases "byte c < 128")
    case True
    then have "decode_rune (c # cs) = Some (byte c, 1)" by (rule decode_rune_ascii)
    with 2 True read_json_escape [OF True] show ?thesis by simp
  next
    case False
    with 2(4) obtain r w where rw: "decode_rune (c # cs) = Some (r, w)" "valid_utf8 (drop w (c # cs))"
      by (auto split: option.splits)
    have rest: "read_chars (json_chars (drop w (c # cs)) @ dquote # x) = Some (drop w (c # cs), x)"
      using 2(3) [OF False rw(1) refl rw(2)] .
    have whole: "take w (c # cs) @ drop w (c # cs) = c # cs" by (rule append_take_drop_id)
    show ?thesis
    proof (cases "r = 8232 \<or> r = 8233")
      case True
      with decode_rune_separator [OF rw(1) True] rest whole read_unicode_escape [of r]
      show ?thesis using False rw(1) by auto
    next
      case plain: False
      from decode_rune_high [OF rw(1)] False have "list_all (\<lambda>c. 128 \<le> byte c) (take w (c # cs))" by simp
      from read_raw [OF this] rest whole show ?thesis using False rw(1) plain by simp
    qed
  qed
qed simp

section \<open>Values\<close>

definition number_char :: "char \<Rightarrow> bool" where
  "number_char c \<longleftrightarrow> c \<in> set ''0123456789+-.eE''"

text \<open>
  The documents a decoder yields: valid UTF-8, numbers in the characters of JSON numbers,
  distinct keys. And the form in which a document comes back: the fields sorted by key.
\<close>

fun wf_json :: "json \<Rightarrow> bool" where
  "wf_json (JNum n) = (n \<noteq> [] \<and> list_all number_char n)"
| "wf_json (JStr s) = valid_utf8 s"
| "wf_json (JArr vs) = list_all wf_json vs"
| "wf_json (JObj es) =
     (distinct (map fst es) \<and> list_all (\<lambda>e. valid_utf8 (fst e) \<and> wf_json (snd e)) es)"
| "wf_json v = True"

fun sorted_fields :: "json \<Rightarrow> json" where
  "sorted_fields (JArr vs) = JArr (map sorted_fields vs)"
| "sorted_fields (JObj es) = JObj (sort_key fst (map (\<lambda>e. (fst e, sorted_fields (snd e))) es))"
| "sorted_fields v = v"

fun read_value :: "nat \<Rightarrow> string \<Rightarrow> (json \<times> string) option"
  and read_items :: "nat \<Rightarrow> string \<Rightarrow> (json list \<times> string) option"
  and read_fields :: "nat \<Rightarrow> string \<Rightarrow> ((string \<times> json) list \<times> string) option" where
  "read_value 0 s = None"
| "read_value (Suc n) s =
     (case s of
        [] \<Rightarrow> None
      | c # cs \<Rightarrow>
          if c = dquote then map_option (\<lambda>(t, x). (JStr t, x)) (read_chars cs)
          else if c = CHR ''['' then
            (if take 1 cs = '']'' then Some (JArr [], drop 1 cs)
             else map_option (\<lambda>(vs, x). (JArr vs, x)) (read_items n cs))
          else if c = CHR ''{'' then
            (if take 1 cs = ''}'' then Some (JObj [], drop 1 cs)
             else map_option (\<lambda>(es, x). (JObj es, x)) (read_fields n cs))
          else if take 4 s = ''null'' then Some (JNull, drop 4 s)
          else if take 4 s = ''true'' then Some (JBool True, drop 4 s)
          else if take 5 s = ''false'' then Some (JBool False, drop 5 s)
          else if number_char c then Some (JNum (takeWhile number_char s), dropWhile number_char s)
          else None)"
| "read_items 0 s = None"
| "read_items (Suc n) s =
     (case read_value n s of
        None \<Rightarrow> None
      | Some (v, x) \<Rightarrow>
          if take 1 x = '','' then map_option (\<lambda>(vs, y). (v # vs, y)) (read_items n (drop 1 x))
          else if take 1 x = '']'' then Some ([v], drop 1 x)
          else None)"
| "read_fields 0 s = None"
| "read_fields (Suc n) s =
     (if take 1 s \<noteq> [dquote] then None
      else
     (case read_chars (drop 1 s) of
        None \<Rightarrow> None
      | Some (k, x) \<Rightarrow>
     if take 1 x \<noteq> '':'' then None
     else
     (case read_value n (drop 1 x) of
        None \<Rightarrow> None
      | Some (v, y) \<Rightarrow>
          if take 1 y = '','' then map_option (\<lambda>(es, z). ((k, v) # es, z)) (read_fields n (drop 1 y))
          else if take 1 y = ''}'' then Some ([(k, v)], drop 1 y)
          else None)))"

text \<open>Every step reads at least one byte, so the length of the text is enough fuel.\<close>

definition read_json :: "string \<Rightarrow> json option" where
  "read_json s = (case read_value (length s) s of Some (v, []) \<Rightarrow> Some v | _ \<Rightarrow> None)"

section \<open>Reading what was written\<close>

text \<open>What may follow a value: nothing that could continue a number.\<close>

definition stops :: "string \<Rightarrow> bool" where
  "stops x \<longleftrightarrow> x = [] \<or> \<not> number_char (hd x)"

definition reads :: "json \<Rightarrow> bool" where
  "reads v \<longleftrightarrow> (\<forall>n x. length (marshal v) \<le> n \<longrightarrow> stops x \<longrightarrow>
     read_value n (marshal v @ x) = Some (sorted_fields v, x))"

lemma stops_simps [simp]: "stops []" "stops (CHR '','' # x)" "stops (CHR '']'' # x)" "stops (CHR ''}'' # x)"
  by (simp_all add: stops_def number_char_def)

lemma marshal_start:
  "wf_json v \<Longrightarrow> \<exists>c cs. marshal v = c # cs \<and> c \<noteq> CHR '']'' \<and> c \<noteq> CHR ''}''"
proof (cases v)
  case (JNum n)
  moreover assume "wf_json v"
  ultimately show ?thesis by (cases n) (auto simp: number_char_def)
qed (auto simp: json_string_def)

lemma read_items_join:
  assumes "\<And>v. v \<in> set vs \<Longrightarrow> reads v" "vs \<noteq> []" "length (join '','' (map marshal vs)) < n"
  shows "read_items n (join '','' (map marshal vs) @ CHR '']'' # x) = Some (map sorted_fields vs, x)"
  using assms
proof (induction vs arbitrary: n)
  case (Cons v vs)
  then obtain m where n: "n = Suc m" by (cases n) auto
  show ?case
  proof (cases vs)
    case Nil
    with Cons.prems n have "read_value m (marshal v @ CHR '']'' # x) = Some (sorted_fields v, CHR '']'' # x)"
      by (simp add: reads_def)
    with Nil n show ?thesis by simp
  next
    case (Cons w ws)
    let ?rest = "join '','' (map marshal vs) @ CHR '']'' # x"
    have line: "join '','' (map marshal (v # vs)) @ CHR '']'' # x = marshal v @ CHR '','' # ?rest"
      using Cons by simp
    have "length (join '','' (map marshal (v # vs))) = length (marshal v) + 1 + length (join '','' (map marshal vs))"
      using Cons by simp
    with Cons.prems(3) n have m: "length (marshal v) \<le> m" "length (join '','' (map marshal vs)) < m" by simp_all
    have "read_value m (marshal v @ CHR '','' # ?rest) = Some (sorted_fields v, CHR '','' # ?rest)"
      using Cons.prems(1) m(1) by (simp add: reads_def)
    moreover have "read_items m ?rest = Some (map sorted_fields vs, x)"
      using Cons.IH Cons.prems(1) m(2) Cons by simp
    ultimately show ?thesis unfolding line n by simp
  qed
qed simp

definition field_text :: "string \<times> json \<Rightarrow> string" where
  "field_text e = json_string (fst e) @ '':'' @ marshal (snd e)"

lemma read_fields_join:
  assumes "\<And>e. e \<in> set es \<Longrightarrow> valid_utf8 (fst e) \<and> reads (snd e)" "es \<noteq> []"
    "length (join '','' (map field_text es)) < n"
  shows "read_fields n (join '','' (map field_text es) @ CHR ''}'' # x) =
    Some (map (\<lambda>e. (fst e, sorted_fields (snd e))) es, x)"
  using assms
proof (induction es arbitrary: n)
  case (Cons e es)
  then obtain m where n: "n = Suc m" by (cases n) auto
  have key: "read_chars (json_chars (fst e) @ dquote # y) = Some (fst e, y)" for y
    using Cons.prems(1) by (simp add: read_json_chars)
  have content: "read_value m (marshal (snd e) @ y) = Some (sorted_fields (snd e), y)"
    if "length (field_text e) \<le> m" "stops y" for y
    using Cons.prems(1) that by (simp add: reads_def field_text_def)
  show ?case
  proof (cases es)
    case Nil
    with Cons.prems(3) n have "length (field_text e) \<le> m" by simp
    from content [OF this, of "CHR ''}'' # x"] key Nil n show ?thesis
      by (simp add: field_text_def json_string_def)
  next
    case (Cons f fs)
    let ?rest = "join '','' (map field_text es) @ CHR ''}'' # x"
    have line: "join '','' (map field_text (e # es)) @ CHR ''}'' # x = field_text e @ CHR '','' # ?rest"
      using Cons by simp
    have "length (join '','' (map field_text (e # es))) = length (field_text e) + 1 + length (join '','' (map field_text es))"
      using Cons by simp
    with Cons.prems(3) n have m: "length (field_text e) \<le> m" "length (join '','' (map field_text es)) < m" by simp_all
    have "read_fields m ?rest = Some (map (\<lambda>e. (fst e, sorted_fields (snd e))) es, x)"
      using Cons.IH Cons.prems(1) m(2) Cons by simp
    with content [OF m(1), of "CHR '','' # ?rest"] key show ?thesis
      unfolding line n by (simp add: field_text_def json_string_def)
  qed
qed simp

text \<open>Sorting by keys commutes with what is done to the values.\<close>

lemma insort_key_map: "insort_key fst (g e) (map g es) = map g (insort_key fst e es)"
  if "\<And>e. fst (g e) = fst e" for g :: "'k::linorder \<times> 'a \<Rightarrow> 'k \<times> 'b"
  by (induction es) (simp_all add: that)

lemma sort_key_map:
  fixes g :: "'k::linorder \<times> 'a \<Rightarrow> 'k \<times> 'b"
  assumes "\<And>e. fst (g e) = fst e"
  shows "sort_key fst (map g es) = map g (sort_key fst es)"
  by (induction es) (simp_all add: insort_key_map [OF assms])

lemma marshal_object:
  "marshal (JObj es) = ''{'' @ join '','' (map field_text (sort_key fst es)) @ ''}''"
proof -
  have "sort_key fst (map (\<lambda>(k, v). (k, marshal v)) es) = map (\<lambda>(k, v). (k, marshal v)) (sort_key fst es)"
    by (rule sort_key_map) auto
  moreover have "field_text = (\<lambda>e. json_string (fst e) @ '':'' @ marshal (snd e))"
    by (rule ext) (simp add: field_text_def)
  ultimately show ?thesis by (simp add: comp_def split_beta')
qed

lemma sorted_object:
  "sorted_fields (JObj es) = JObj (map (\<lambda>e. (fst e, sorted_fields (snd e))) (sort_key fst es))"
  by (simp add: sort_key_map)

lemma read_marshal: "wf_json v \<Longrightarrow> reads v"
proof (induction v)
  case (JNum m)
  then obtain c cs where m: "m = c # cs" by (cases m) auto
  show ?case unfolding reads_def
  proof (intro allI impI)
    fix n x assume n: "length (marshal (JNum m)) \<le> n" and x: "stops x"
    from n m obtain k where k: "n = Suc k" by (cases n) auto
    have all: "\<forall>c \<in> set m. number_char c" using JNum by (simp add: list_all_iff)
    have "takeWhile number_char x = []" "dropWhile number_char x = x"
      using x by (cases x; simp add: stops_def)+
    then have "takeWhile number_char (m @ x) = m" "dropWhile number_char (m @ x) = x"
      using all by (auto simp: takeWhile_append2 dropWhile_append2)
    moreover have "number_char c" using all m by simp
    ultimately show "read_value n (marshal (JNum m) @ x) = Some (sorted_fields (JNum m), x)"
      unfolding k m by (auto simp: number_char_def)
  qed
next
  case (JStr s)
  show ?case unfolding reads_def
  proof (intro allI impI)
    fix n x assume n: "length (marshal (JStr s)) \<le> n"
    then obtain k where "n = Suc k" by (cases n) (auto simp: json_string_def)
    then show "read_value n (marshal (JStr s) @ x) = Some (sorted_fields (JStr s), x)"
      using JStr by (simp add: json_string_def read_json_chars)
  qed
next
  case (JArr vs)
  have items: "v \<in> set vs \<Longrightarrow> reads v" for v using JArr by (simp add: list_all_iff)
  show ?case unfolding reads_def
  proof (intro allI impI)
    fix n x assume n: "length (marshal (JArr vs)) \<le> n"
    then obtain k where k: "n = Suc k" by (cases n) auto
    show "read_value n (marshal (JArr vs) @ x) = Some (sorted_fields (JArr vs), x)"
    proof (cases vs)
      case (Cons v ws)
      with JArr.prems obtain c cs where "marshal v = c # cs" "c \<noteq> CHR '']''"
        using marshal_start [of v] by auto
      then have "take 1 (join '','' (map marshal vs) @ y) \<noteq> '']''" for y
        using Cons by (cases ws) auto
      moreover have "read_items k (join '','' (map marshal vs) @ CHR '']'' # x) = Some (map sorted_fields vs, x)"
        by (rule read_items_join) (use items n k Cons in auto)
      ultimately show ?thesis using k by simp
    qed (simp add: k)
  qed
next
  case (JObj es)
  let ?es = "sort_key fst es"
  have fields: "e \<in> set ?es \<Longrightarrow> valid_utf8 (fst e) \<and> reads (snd e)" for e
    using JObj by (cases e) (auto simp: list_all_iff)
  show ?case unfolding reads_def
  proof (intro allI impI)
    fix n x assume n: "length (marshal (JObj es)) \<le> n"
    then obtain k where k: "n = Suc k" by (cases n) (auto simp: marshal_object)
    show "read_value n (marshal (JObj es) @ x) = Some (sorted_fields (JObj es), x)"
    proof (cases "?es")
      case Nil
      then show ?thesis unfolding marshal_object sorted_object by (simp add: k)
    next
      case (Cons e fs)
      then have "take 1 (join '','' (map field_text ?es) @ y) \<noteq> ''}''" for y
        by (cases fs) (auto simp: field_text_def json_string_def)
      moreover have "read_fields k (join '','' (map field_text ?es) @ CHR ''}'' # x) =
          Some (map (\<lambda>e. (fst e, sorted_fields (snd e))) ?es, x)"
        by (rule read_fields_join [OF fields])
          (use n k Cons in \<open>auto simp: marshal_object simp del: marshal.simps\<close>)
      ultimately show ?thesis unfolding marshal_object sorted_object by (simp add: k)
    qed
  qed
qed (auto simp: reads_def Suc_le_eq dest: less_imp_Suc_add)

lemma read_json_marshal: "wf_json v \<Longrightarrow> read_json (marshal v) = Some (sorted_fields v)"
  using read_marshal [of v] unfolding reads_def read_json_def
  by (metis (no_types, lifting) append_Nil2 case_prod_conv list.case(1) option.case(2) order_refl stops_simps(1))

end
