(* ===== verification/Payload.thy ===== *)
theory Payload
  imports Canonical JsonReader
begin

text \<open>
  What a stored payload keeps of the document it was made from: everything but the order of
  fields and, stably, of the entries of attribute lists.
\<close>

section \<open>Stable rearrangements\<close>

text \<open>
  A rearrangement of a list of entries that keeps the entries of every key in their order, and
  the documents that arise from such rearrangements of attribute lists, at any depth.
\<close>

definition rearranged :: "json \<Rightarrow> json \<Rightarrow> bool" where
  "rearranged v u \<longleftrightarrow> (\<exists>vs us. v = JArr vs \<and> u = JArr us \<and>
     (\<forall>k. filter (\<lambda>e. entry_key e = k) us = filter (\<lambda>e. entry_key e = k) vs))"

inductive shuffled :: "string \<Rightarrow> json \<Rightarrow> json \<Rightarrow> bool" where
  same: "shuffled p v v"
| items: "list_all2 (shuffled p) vs ws \<Longrightarrow> shuffled p (JArr vs) (JArr ws)"
| fields: "list_all2 (\<lambda>e f. fst e = fst f \<and>
      (\<exists>u. (u = snd e \<or> attribute_list p (fst e) \<and> rearranged (snd e) u) \<and> shuffled (fst e) u (snd f)))
      es fs \<Longrightarrow> shuffled p (JObj es) (JObj fs)"

lemma sort_entries_rearranged:
  assumes "sort_entries v = Some w"
  shows "w = v \<or> rearranged v w"
proof (cases v)
  case (JArr vs)
  with assms have "w = JArr (sort_key entry_key vs)" by (auto simp: sort_entries_def split: if_splits)
  with JArr show ?thesis by (auto simp: rearranged_def sort_key_stable)
qed (use assms in \<open>auto simp: sort_entries_def\<close>)

lemma sort_entries_wf: "sort_entries v = Some w \<Longrightarrow> wf_json v \<Longrightarrow> wf_json w"
  by (auto simp: sort_entries_def list_all_iff split: json.splits if_splits)

lemma all_some_pairs: "all_some (map f xs) = Some ys \<Longrightarrow> list_all2 (\<lambda>x y. f x = Some y) xs ys"
  by (induction xs arbitrary: ys) (auto split: option.splits)

section \<open>What canonicalize does\<close>

lemma canonicalize_shuffled:
  "canonicalize p v = Some w \<Longrightarrow> wf_json v \<Longrightarrow> shuffled p v w \<and> wf_json w"
proof (induction p v arbitrary: w rule: canonicalize.induct)
  case (1 p es)
  let ?R = "\<lambda>e f. fst f = fst e \<and> canonical_field p (fst e) (snd e) = Some (snd f)"
  let ?S = "\<lambda>e f. (fst e = fst f \<and> (\<exists>u. (u = snd e \<or> attribute_list p (fst e) \<and> rearranged (snd e) u) \<and>
      shuffled (fst e) u (snd f))) \<and> wf_json (snd f)"
  from 1(2) obtain fs where w: "w = JObj fs" and
    "all_some (map (\<lambda>e. map_option (Pair (fst e)) (canonical_field p (fst e) (snd e))) es) = Some fs"
    unfolding canonicalize_object by auto
  from all_some_pairs [OF this(2)] have R: "list_all2 ?R es fs"
    by (rule list_all2_mono) auto
  have step: "?S e f" if e: "e \<in> set es" and f: "?R e f" for e f
  proof -
    have wf: "wf_json (snd e)" using 1(3) e by (auto simp: list_all_iff)
    obtain k v where kv: "e = (k, v)" by (cases e)
    from f kv obtain u where u: "(if attribute_list p k then sort_entries v else Some v) = Some u"
      and c: "canonicalize k u = Some (snd f)"
      by (auto simp: canonical_field_def split: option.splits)
    have "wf_json u" using u wf kv sort_entries_wf by (auto split: if_splits)
    with 1(1) [OF e [unfolded kv] refl u c] have "shuffled k u (snd f) \<and> wf_json (snd f)" by simp
    moreover have "u = v \<or> attribute_list p k \<and> rearranged v u"
      using u sort_entries_rearranged by (auto split: if_splits)
    ultimately show ?thesis using f kv by auto
  qed
  have S: "list_all2 ?S es fs"
    using R by (rule list.rel_mono_strong) (use step in blast)
  have "map fst fs = map fst es" using R by (induction rule: list_all2_induct) auto
  moreover have "list_all (\<lambda>f. wf_json (snd f)) fs"
    using S by (auto simp: list_all2_conv_all_nth list_all_length)
  moreover have "shuffled p (JObj es) (JObj fs)"
    by (rule shuffled.fields) (use S in \<open>rule list_all2_mono\<close>, blast)
  moreover have "distinct (map fst es)" "list_all valid_utf8 (map fst es)"
    using 1(3) by (auto simp: list_all_iff)
  ultimately have "distinct (map fst fs)" "list_all valid_utf8 (map fst fs)"
    "list_all (\<lambda>f. wf_json (snd f)) fs" "shuffled p (JObj es) (JObj fs)" by simp_all
  then show ?case unfolding w by (simp add: list_all_iff)
next
  case (2 p vs)
  from 2(2) obtain ws where w: "w = JArr ws" and "all_some (map (canonicalize p) vs) = Some ws" by auto
  from all_some_pairs [OF this(2)] have R: "list_all2 (\<lambda>v w. canonicalize p v = Some w) vs ws" .
  have "list_all2 (\<lambda>v w. shuffled p v w \<and> wf_json w) vs ws"
    using R by (rule list.rel_mono_strong) (use 2(1,3) in \<open>simp add: list_all_iff\<close>)
  then show ?case using w
    by (auto simp: list_all2_conv_all_nth list_all_length intro: shuffled.items)
qed (auto intro: shuffled.same)

section \<open>Payloads\<close>

text \<open>
  C11. Nothing is lost in a stored payload: for a document in valid UTF-8, the canonical payload
  reads back as that document, stably rearranged in its attribute lists and with its fields
  sorted. So telemetry that is dropped as a duplicate was a duplicate: two documents with the
  same canonical payload differ at most in these orders.
\<close>

theorem canonicalPayload_lossless:
  assumes "canonicalPayload decode (Inr p) = Some (Inr t)" "decode p = Inr v" "wf_json v"
  shows "(\<exists>u. shuffled [] v u \<and> read_json t = Some (sorted_fields u)) \<and>
    (\<forall>q w. decode q = Inr w \<and> wf_json w \<and> canonicalPayload decode (Inr q) = Some (Inr t) \<longrightarrow>
      (\<exists>u x. shuffled [] v u \<and> shuffled [] w x \<and> sorted_fields u = sorted_fields x))"
proof -
  have reads: "\<exists>u. shuffled [] w u \<and> read_json t = Some (sorted_fields u)"
    if "canonicalPayload decode (Inr q) = Some (Inr t)" "decode q = Inr w" "wf_json w" for q w
    using that canonicalize_shuffled [of "[]" w] read_json_marshal
    by (auto simp: canonicalPayload_def)
  from reads [OF assms] reads show ?thesis by (metis option.inject)
qed

theorem canonicalPayload_lossless_witness:
  "let v = document [entry ''b'' ''1'', entry ''a'' ''<'', entry ''b'' ''2''];
       w = document [entry ''b'' ''1'', entry ''b'' ''2'', entry ''a'' ''<''];
       decode = (\<lambda>s. if s = ''p'' then Inr v else Inr w)
   in \<exists>u x. shuffled [] v u \<and> shuffled [] w x \<and> sorted_fields u = sorted_fields x"
proof -
  let ?v = "document [entry ''b'' ''1'', entry ''a'' ''<'', entry ''b'' ''2'']"
  let ?w = "document [entry ''b'' ''1'', entry ''b'' ''2'', entry ''a'' ''<'']"
  let ?decode = "(\<lambda>s. if s = ''p'' then Inr ?v else Inr ?w)::string \<Rightarrow> json result"
  have same: "canonicalize [] ?v = canonicalize [] ?w"
    by (simp add: document_def entry_def attribute_list_def sort_entries_def)
  obtain c where c: "canonicalize [] ?v = Some c"
    by (simp add: document_def entry_def attribute_list_def sort_entries_def)
  have wf: "wf_json ?v" "wf_json ?w" by code_simp+
  have p: "canonicalPayload ?decode (Inr ''p'') = Some (Inr (marshal c))"
    using c by (simp add: canonicalPayload_def)
  have q: "canonicalPayload ?decode (Inr ''q'') = Some (Inr (marshal c))"
    using c same by (simp add: canonicalPayload_def)
  have dp: "?decode ''p'' = Inr ?v" and dq: "?decode ''q'' = Inr ?w" by simp_all
  from canonicalPayload_lossless [OF p dp wf(1)] q dq wf(2) show ?thesis unfolding Let_def by blast
qed

end
