(* ===== verification/MetricRates.thy ===== *)
theory MetricRates
  imports QueryBuild Complex_Main "HOL-Library.Product_Lexorder"
begin

text \<open>
  What the SQL of \<open>metrics rate\<close> computes (\<open>metricRates\<close> in
  \<^verbatim>\<open>internal/query/metrics.go\<close>): from the selected points, one subquery after the other,
  to the rate of every point or the reason why it has none. SQL's three truth values are
  \<open>bool option\<close>, NULL is \<open>None\<close>.
\<close>

section \<open>SQL expressions\<close>

definition sql2 :: "('a \<Rightarrow> 'b \<Rightarrow> 'c) \<Rightarrow> 'a option \<Rightarrow> 'b option \<Rightarrow> 'c option" where
  "sql2 f x y = (case (x, y) of (Some a, Some b) \<Rightarrow> Some (f a b) | _ \<Rightarrow> None)"

definition sql_and :: "bool option \<Rightarrow> bool option \<Rightarrow> bool option" where
  "sql_and x y =
     (if x = Some False \<or> y = Some False then Some False
      else if x = None \<or> y = None then None else Some True)"

definition sql_or :: "bool option \<Rightarrow> bool option \<Rightarrow> bool option" where
  "sql_or x y =
     (if x = Some True \<or> y = Some True then Some True
      else if x = None \<or> y = None then None else Some False)"

text \<open>\<open>CASE WHEN ... THEN ... END\<close>: the first condition that is true; NULL is not.\<close>

fun sql_case :: "(bool option \<times> 'a) list \<Rightarrow> 'a option" where
  "sql_case [] = None"
| "sql_case ((c, v) # rest) = (if c = Some True then Some v else sql_case rest)"

lemma sql_and_true [simp]: "sql_and x y = Some True \<longleftrightarrow> x = Some True \<and> y = Some True"
  by (auto simp: sql_and_def)

lemma sql_or_true [simp]: "sql_or x y = Some True \<longleftrightarrow> x = Some True \<or> y = Some True"
  by (auto simp: sql_or_def)

lemma sql2_Some [simp]:
  "sql2 f (Some a) y = map_option (f a) y" "sql2 f x (Some b) = map_option (\<lambda>a. f a b) x"
  by (simp_all add: sql2_def split: option.splits)

section \<open>Points and their series\<close>

text \<open>
  The columns of \<open>selected\<close> that the rates use. \<open>mp_identity\<close> holds the texts of
  \<open>seriesIdentity\<close> apart from type, temporality and monotonicity. A REAL column holds no NaN.
\<close>

record metric_point =
  mp_id :: int
  mp_time :: int
  mp_start :: int
  mp_identity :: "string list"
  mp_type :: string
  mp_temporality :: string
  mp_monotonic :: "int option"
  mp_flags :: int
  mp_int :: "int option"
  mp_double :: "real option"

definition series :: "metric_point \<Rightarrow> string list \<times> string \<times> string \<times> int option" where
  "series p = (mp_identity p, mp_type p, mp_temporality p, mp_monotonic p)"

text \<open>\<open>COALESCE(number_int,number_double)\<close>; integers and doubles compare by their exact value.\<close>

datatype sql_number = SqlInt int | SqlReal real

fun number :: "sql_number \<Rightarrow> real" where
  "number (SqlInt i) = real_of_int i"
| "number (SqlReal x) = x"

definition num_less :: "sql_number \<Rightarrow> sql_number \<Rightarrow> bool" where
  "num_less a b \<longleftrightarrow> number a < number b"

definition point_value :: "metric_point \<Rightarrow> sql_number option" where
  "point_value p = (case mp_int p of Some i \<Rightarrow> Some (SqlInt i) | None \<Rightarrow> map_option SqlReal (mp_double p))"

definition same_time :: "metric_point list \<Rightarrow> metric_point \<Rightarrow> int" where
  "same_time ps p = int (length (filter (\<lambda>q. series q = series p \<and> mp_time q = mp_time p) ps))"

text \<open>The window \<open>PARTITION BY\<close> the series \<open>ORDER BY time_unix_nano,id\<close>, and \<open>LAG\<close> over it.\<close>

definition point_order :: "metric_point \<Rightarrow> int \<times> int" where
  "point_order p = (mp_time p, mp_id p)"

definition series_window :: "metric_point list \<Rightarrow> metric_point \<Rightarrow> metric_point list" where
  "series_window ps p = sort_key point_order (filter (\<lambda>q. series q = series p) ps)"

fun with_lag :: "'a option \<Rightarrow> 'a list \<Rightarrow> ('a \<times> 'a option) list" where
  "with_lag prev [] = []"
| "with_lag prev (x # xs) = (x, prev) # with_lag (Some x) xs"

definition lag :: "metric_point list \<Rightarrow> metric_point \<Rightarrow> metric_point option" where
  "lag ps p = (case map_of (with_lag None (series_window ps p)) p of Some q \<Rightarrow> q | None \<Rightarrow> None)"

section \<open>The subqueries\<close>

record ordered_row =
  od_point :: metric_point
  od_value :: "sql_number option"
  od_same_time :: int
  od_previous_time :: "int option"
  od_previous_start :: "int option"
  od_previous_value :: "sql_number option"
  od_previous_flags :: "int option"
  od_previous_same_time :: "int option"

definition ordered :: "metric_point list \<Rightarrow> metric_point \<Rightarrow> ordered_row" where
  "ordered ps p =
     (let prev = lag ps p in
      \<lparr>od_point = p, od_value = point_value p, od_same_time = same_time ps p,
       od_previous_time = map_option mp_time prev, od_previous_start = map_option mp_start prev,
       od_previous_value = Option.bind prev point_value,
       od_previous_flags = map_option mp_flags prev,
       od_previous_same_time = map_option (same_time ps) prev\<rparr>)"

definition rate_reason :: "ordered_row \<Rightarrow> string option" where
  "rate_reason r =
     (let p = od_point r; time = Some (mp_time p); start = Some (mp_start p); val = od_value r;
          delta = Some (mp_temporality p = ''delta''); cumulative = Some (mp_temporality p = ''cumulative'')
      in sql_case
       [(sql_or (Some (mp_type p \<noteq> ''sum'')) (sql2 (\<noteq>) (mp_monotonic p) (Some 1)), ''not_monotonic_sum''),
        (Some (mp_temporality p \<notin> {''delta'', ''cumulative''}), ''unspecified_temporality''),
        (Some (odd (mp_flags p)), ''no_recorded_value''),
        (Some (val = None), ''missing_or_nonfinite_value''),
        (sql2 num_less val (Some (SqlInt 0)), ''negative_monotonic_sum''),
        (Some (mp_time p = 0 \<or> mp_start p = 0), ''missing_timestamp''),
        (Some (mp_start p > mp_time p), ''invalid_interval''),
        (Some (od_same_time r > 1), ''ambiguous_timestamp''),
        (Some (mp_start p = mp_time p), ''zero_duration''),
        (sql_and delta (sql2 (>) (od_previous_time r) start), ''overlapping_interval''),
        (sql_and cumulative (Some (od_previous_time r = None)), ''no_baseline''),
        (sql_and cumulative (sql2 (>) (od_previous_same_time r) (Some 1)), ''ambiguous_baseline''),
        (sql_and cumulative
           (sql_or (Some (od_previous_value r = None))
             (sql_or (sql2 num_less (od_previous_value r) (Some (SqlInt 0))) (map_option odd (od_previous_flags r)))),
         ''no_baseline''),
        (sql_and cumulative (sql2 (\<noteq>) (od_previous_start r) start), ''reset''),
        (sql_and cumulative (sql2 (<) (od_previous_time r) start), ''invalid_baseline''),
        (sql_and cumulative (sql2 num_less val (od_previous_value r)), ''counter_decreased'')])"

text \<open>
  SQLite's arithmetic: the difference of two values, exact on integers and rounded when one is a
  double, nanoseconds in seconds, and a quotient, which may be infinite.
\<close>

datatype quotient = Finite real | Infinite

record float_arith =
  fa_sub :: "sql_number \<Rightarrow> sql_number \<Rightarrow> sql_number"
  fa_seconds :: "int \<Rightarrow> real"
  fa_div :: "sql_number \<Rightarrow> real \<Rightarrow> quotient"

definition interval_start :: "ordered_row \<Rightarrow> int option" where
  "interval_start r =
     (if rate_reason r = None
      then if mp_temporality (od_point r) = ''delta'' then Some (mp_start (od_point r))
           else od_previous_time r
      else None)"

definition delta_value :: "float_arith \<Rightarrow> ordered_row \<Rightarrow> sql_number option" where
  "delta_value fa r =
     (if rate_reason r = None
      then if mp_temporality (od_point r) = ''delta'' then od_value r
           else sql2 (fa_sub fa) (od_value r) (od_previous_value r)
      else None)"

text \<open>A division by zero is NULL.\<close>

definition candidate_rate :: "float_arith \<Rightarrow> ordered_row \<Rightarrow> quotient option" where
  "candidate_rate fa r =
     (case (delta_value fa r, interval_start r) of
        (Some d, Some s) \<Rightarrow>
          if mp_time (od_point r) = s then None
          else Some (fa_div fa d (fa_seconds fa (mp_time (od_point r) - s)))
      | _ \<Rightarrow> None)"

record rate_row =
  rr_point :: metric_point
  rr_interval_start :: "int option"
  rr_delta :: "sql_number option"
  rr_rate :: "real option"
  rr_reason :: "string option"
  rr_gap :: "real option"

definition project_rate :: "float_arith \<Rightarrow> ordered_row \<Rightarrow> rate_row" where
  "project_rate fa r =
     (let p = od_point r in
      \<lparr>rr_point = p, rr_interval_start = interval_start r, rr_delta = delta_value fa r,
       rr_rate = (case candidate_rate fa r of Some (Finite x) \<Rightarrow> Some x | _ \<Rightarrow> None),
       rr_reason = (if candidate_rate fa r = Some Infinite then Some ''nonfinite_rate'' else rate_reason r),
       rr_gap = sql_case
         [(sql_and (Some (mp_temporality p = ''delta''))
             (sql_and (sql2 (>) (od_previous_time r) (Some 0)) (sql2 (>) (Some (mp_start p)) (od_previous_time r))),
           fa_seconds fa (mp_start p - (case od_previous_time r of Some t \<Rightarrow> t | None \<Rightarrow> 0)))]\<rparr>)"

text \<open>\<open>ORDER BY time_unix_nano DESC,id DESC\<close>; ids are distinct.\<close>

definition metric_rates :: "float_arith \<Rightarrow> metric_point list \<Rightarrow> rate_row list" where
  "metric_rates fa ps = map (\<lambda>p. project_rate fa (ordered ps p)) (rev (sort_key point_order ps))"

section \<open>The previous point\<close>

lemma map_of_with_lag:
  "distinct (us @ p # vs) \<Longrightarrow>
     map_of (with_lag prev (us @ p # vs)) p = Some (if us = [] then prev else Some (last us))"
  by (induction us arbitrary: prev) auto

lemma point_order_inj: "distinct (map mp_id ps) \<Longrightarrow> inj_on point_order (set ps)"
  by (auto simp: point_order_def distinct_map inj_on_def)

lemma window_split:
  assumes "distinct (map mp_id ps)" "p \<in> set ps"
  obtains us vs where "series_window ps p = us @ p # vs" "distinct (us @ p # vs)"
    "\<And>x. x \<in> set us \<Longrightarrow> point_order x \<le> point_order p"
    "\<And>x. x \<in> set vs \<Longrightarrow> point_order p \<le> point_order x" "sorted (map point_order us)"
proof -
  have "p \<in> set (series_window ps p)" using assms(2) by (simp add: series_window_def)
  then obtain us vs where w: "series_window ps p = us @ p # vs" by (meson split_list)
  have d: "distinct (us @ p # vs)"
    using assms(1) unfolding w [symmetric] by (simp add: series_window_def distinct_map)
  have "sorted (map point_order (us @ p # vs))" unfolding w [symmetric] by (simp add: series_window_def)
  then have "sorted (map point_order us)" "\<And>x. x \<in> set us \<Longrightarrow> point_order x \<le> point_order p"
    "\<And>x. x \<in> set vs \<Longrightarrow> point_order p \<le> point_order x"
    by (auto simp: sorted_append)
  with w d that show ?thesis by blast
qed

lemma in_window: "x \<in> set (series_window ps p) \<longleftrightarrow> x \<in> set ps \<and> series x = series p"
  by (auto simp: series_window_def)

text \<open>The lag is the greatest earlier point of the series, if there is one.\<close>

lemma lag_previous:
  assumes "distinct (map mp_id ps)" "p \<in> set ps"
  shows "case lag ps p of
     None \<Rightarrow> \<forall>x\<in>set ps. series x = series p \<longrightarrow> point_order p \<le> point_order x
   | Some q \<Rightarrow> q \<in> set ps \<and> series q = series p \<and> point_order q < point_order p \<and>
       (\<forall>x\<in>set ps. series x = series p \<and> point_order x < point_order p \<longrightarrow> point_order x \<le> point_order q)"
proof -
  from assms obtain us vs where w: "series_window ps p = us @ p # vs" "distinct (us @ p # vs)"
    and us: "\<And>x. x \<in> set us \<Longrightarrow> point_order x \<le> point_order p" "sorted (map point_order us)"
    and vs: "\<And>x. x \<in> set vs \<Longrightarrow> point_order p \<le> point_order x" by (rule window_split) blast
  have lag: "lag ps p = (if us = [] then None else Some (last us))"
    unfolding lag_def w(1) map_of_with_lag [OF w(2)] by simp
  have members: "x \<in> set us \<or> x = p \<or> x \<in> set vs" if "x \<in> set ps" "series x = series p" for x
    using in_window [of x ps p] that unfolding w(1) by auto
  show ?thesis
  proof (cases us rule: rev_cases)
    case Nil
    then show ?thesis using lag members vs by auto
  next
    case (snoc ls q)
    have q: "q \<in> set ps" "series q = series p" "q \<noteq> p"
      using in_window [of q ps p] w snoc by auto
    have "point_order q \<noteq> point_order p"
      using inj_onD [OF point_order_inj [OF assms(1)] _ q(1) assms(2)] q(3) by blast
    with us(1) [of q] snoc have less: "point_order q < point_order p" by simp
    have "point_order x \<le> point_order q"
      if "x \<in> set ps" "series x = series p" "point_order x < point_order p" for x
    proof -
      have "x \<in> set us" using members [OF that(1,2)] vs [of x] that(3) by auto
      with us(2) snoc show ?thesis by (auto simp: sorted_append)
    qed
    with q less lag snoc show ?thesis by simp
  qed
qed

section \<open>Every rate is justified\<close>

lemma sql_case_None: "sql_case cs = None \<longleftrightarrow> list_all (\<lambda>(c, v). c \<noteq> Some True) cs"
proof (induction cs)
  case (Cons cv cs)
  then show ?case by (cases cv) simp
qed simp

lemma ordered_simps [simp]:
  "od_point (ordered ps p) = p" "od_value (ordered ps p) = point_value p"
  "od_same_time (ordered ps p) = same_time ps p"
  "od_previous_time (ordered ps p) = map_option mp_time (lag ps p)"
  "od_previous_start (ordered ps p) = map_option mp_start (lag ps p)"
  "od_previous_value (ordered ps p) = Option.bind (lag ps p) point_value"
  "od_previous_flags (ordered ps p) = map_option mp_flags (lag ps p)"
  "od_previous_same_time (ordered ps p) = map_option (same_time ps) (lag ps p)"
  by (simp_all add: ordered_def Let_def)

text \<open>What a point without a reason satisfies.\<close>

lemma no_reason:
  assumes "rate_reason (ordered ps p) = None" "mp_type p = ''sum'' \<longrightarrow> mp_monotonic p \<noteq> None"
  shows "mp_type p = ''sum''" "mp_monotonic p = Some 1"
    "mp_temporality p = ''delta'' \<or> mp_temporality p = ''cumulative''"
    "even (mp_flags p)" "mp_start p < mp_time p" "same_time ps p \<le> 1"
    "\<exists>v. point_value p = Some v \<and> 0 \<le> number v"
    "mp_temporality p = ''delta'' \<Longrightarrow> lag ps p = Some q \<Longrightarrow> mp_time q \<le> mp_start p"
    "mp_temporality p = ''cumulative'' \<Longrightarrow> \<exists>q v0. lag ps p = Some q \<and> same_time ps q \<le> 1 \<and>
       point_value q = Some v0 \<and> 0 \<le> number v0 \<and> (\<forall>v. point_value p = Some v \<longrightarrow> number v0 \<le> number v) \<and> even (mp_flags q) \<and>
       mp_start q = mp_start p \<and> mp_start p \<le> mp_time q"
proof -
  note c = assms(1) [unfolded rate_reason_def Let_def sql_case_None ordered_simps list.pred_inject
      prod.case sql_and_true sql_or_true sql2_Some map_option_eq_Some option.inject, simplified]
  show "mp_type p = ''sum''" using c by blast
  show "mp_monotonic p = Some 1" using c assms(2) by blast
  show "mp_temporality p = ''delta'' \<or> mp_temporality p = ''cumulative''" using c by blast
  show "even (mp_flags p)" using c by blast
  show "mp_start p < mp_time p" using c by linarith
  show "same_time ps p \<le> 1" using c by linarith
  show "\<exists>v. point_value p = Some v \<and> 0 \<le> number v" using c by (auto simp: num_less_def not_less)
  show "mp_time q \<le> mp_start p" if d: "mp_temporality p = ''delta''" and q: "lag ps p = Some q"
  proof -
    from c d have "\<not> (mp_start p < z \<and> (\<exists>q. lag ps p = Some q \<and> mp_time q = z))" for z by blast
    from this [of "mp_time q"] q show ?thesis by simp
  qed
  show "mp_temporality p = ''cumulative'' \<Longrightarrow> \<exists>q v0. lag ps p = Some q \<and> same_time ps q \<le> 1 \<and>
       point_value q = Some v0 \<and> 0 \<le> number v0 \<and> (\<forall>v. point_value p = Some v \<longrightarrow> number v0 \<le> number v) \<and> even (mp_flags q) \<and>
       mp_start q = mp_start p \<and> mp_start p \<le> mp_time q"
  proof -
    assume cu: "mp_temporality p = ''cumulative''"
    then obtain q where q: "lag ps p = Some q" using c by auto
    with cu c obtain v0 where v0: "point_value q = Some v0" by auto
    from cu c q v0 show ?thesis by (auto simp: num_less_def not_less)
  qed
qed

lemma same_time_alone:
  assumes "same_time ps p \<le> 1" "p \<in> set ps" "x \<in> set ps" "series x = series p" "x \<noteq> p"
  shows "mp_time x \<noteq> mp_time p"
proof
  assume "mp_time x = mp_time p"
  let ?f = "filter (\<lambda>q. series q = series p \<and> mp_time q = mp_time p) ps"
  have "{x, p} \<subseteq> set ?f" using assms \<open>mp_time x = mp_time p\<close> by auto
  then have "card {x, p} \<le> length ?f" by (meson card_length card_mono finite_set le_trans)
  with assms(1,5) show False by (simp add: same_time_def)
qed

text \<open>No other point of the series lies in the interval of a rate.\<close>

lemma interval_alone:
  assumes "distinct (map mp_id ps)" "p \<in> set ps" "mp_type p = ''sum'' \<longrightarrow> mp_monotonic p \<noteq> None"
    "rate_reason (ordered ps p) = None" "interval_start (ordered ps p) = Some s"
    "x \<in> set ps" "series x = series p" "x \<noteq> p" "mp_time x \<le> mp_time p"
  shows "mp_time x \<le> s"
proof -
  note ok = no_reason [OF assms(4,3)]
  from same_time_alone [OF ok(6) assms(2,6,7,8)] assms(9) have "mp_time x < mp_time p" by simp
  then have "point_order x < point_order p" by (simp add: point_order_def)
  with lag_previous [OF assms(1,2)] assms(6,7) obtain q where
    q: "lag ps p = Some q" "point_order x \<le> point_order q"
    by (cases "lag ps p") (auto simp: not_less)
  then have "mp_time x \<le> mp_time q" by (auto simp: point_order_def)
  moreover have "mp_time q \<le> s"
    using assms(4,5) ok(3) ok(8) [OF _ q(1)] q(1) by (auto simp: interval_start_def split: if_splits)
  ultimately show ?thesis by simp
qed

text \<open>
  What a reported rate stands for: a valid point of a monotonic sum with a value, an interval
  that ends at the point, in which no other point of its series lies, and the increase over it.
  That is the value of a delta point, from its own start; for a cumulative point the difference
  to the point at the start of the interval, which has a value that is not greater and the same
  start time.
\<close>

definition justified :: "float_arith \<Rightarrow> metric_point list \<Rightarrow> rate_row \<Rightarrow> bool" where
  "justified fa ps r \<longleftrightarrow> (let p = rr_point r in
     \<exists>s v d x. rr_interval_start r = Some s \<and> s < mp_time p \<and> point_value p = Some v \<and> 0 \<le> number v \<and>
       rr_delta r = Some d \<and> rr_rate r = Some x \<and> fa_div fa d (fa_seconds fa (mp_time p - s)) = Finite x \<and>
       mp_type p = ''sum'' \<and> mp_monotonic p = Some 1 \<and> even (mp_flags p) \<and>
       (\<forall>y\<in>set ps. series y = series p \<and> y \<noteq> p \<and> mp_time y \<le> mp_time p \<longrightarrow> mp_time y \<le> s) \<and>
       (mp_temporality p = ''delta'' \<and> s = mp_start p \<and> d = v \<or>
        mp_temporality p = ''cumulative'' \<and>
          (\<exists>q\<in>set ps. \<exists>v0. series q = series p \<and> mp_time q = s \<and> mp_start q = mp_start p \<and>
             even (mp_flags q) \<and> point_value q = Some v0 \<and> 0 \<le> number v0 \<and> number v0 \<le> number v \<and> d = fa_sub fa v v0)))"

lemma candidate_without_reason:
  assumes "distinct (map mp_id ps)" "p \<in> set ps" "mp_type p = ''sum'' \<longrightarrow> mp_monotonic p \<noteq> None"
    "rate_reason (ordered ps p) = None"
  shows "\<exists>s v d. interval_start (ordered ps p) = Some s \<and> s < mp_time p \<and> point_value p = Some v \<and> 0 \<le> number v \<and>
    delta_value fa (ordered ps p) = Some d \<and>
    candidate_rate fa (ordered ps p) = Some (fa_div fa d (fa_seconds fa (mp_time p - s))) \<and>
    (mp_temporality p = ''delta'' \<and> s = mp_start p \<and> d = v \<or>
     mp_temporality p = ''cumulative'' \<and>
       (\<exists>q\<in>set ps. \<exists>v0. series q = series p \<and> mp_time q = s \<and> mp_start q = mp_start p \<and>
          even (mp_flags q) \<and> point_value q = Some v0 \<and> 0 \<le> number v0 \<and> number v0 \<le> number v \<and> d = fa_sub fa v v0))"
proof -
  note ok = no_reason [OF assms(4,3)]
  from ok(7) obtain v where v: "point_value p = Some v" "0 \<le> number v" by blast
  from ok(3) show ?thesis
  proof
    assume t: "mp_temporality p = ''delta''"
    with assms(4) v ok(5) show ?thesis
      by (simp add: interval_start_def delta_value_def candidate_rate_def)
  next
    assume t: "mp_temporality p = ''cumulative''"
    from ok(9) [OF t] v(1) obtain q v0 where q: "lag ps p = Some q" "point_value q = Some v0" "0 \<le> number v0"
      "number v0 \<le> number v" "even (mp_flags q)" "mp_start q = mp_start p" by auto
    from lag_previous [OF assms(1,2)] q(1) have
      q': "q \<in> set ps" "series q = series p" "point_order q < point_order p" by auto
    then have "mp_time q < mp_time p"
      using same_time_alone [OF ok(6) assms(2) q'(1,2)] by (fastforce simp: point_order_def)
    with assms(4) t v q q' show ?thesis
      by (auto simp: interval_start_def delta_value_def candidate_rate_def)
  qed
qed

lemma row_justified:
  assumes "distinct (map mp_id ps)" "p \<in> set ps" "mp_type p = ''sum'' \<longrightarrow> mp_monotonic p \<noteq> None"
    "rr_reason (project_rate fa (ordered ps p)) = None"
  shows "justified fa ps (project_rate fa (ordered ps p))"
proof -
  from assms(4) have none: "rate_reason (ordered ps p) = None" "candidate_rate fa (ordered ps p) \<noteq> Some Infinite"
    by (auto simp: project_rate_def Let_def split: if_splits)
  note ok = no_reason [OF none(1) assms(3)]
  from candidate_without_reason [OF assms(1-3) none(1), of fa] none(2) show ?thesis
    using ok(1,2,4) interval_alone [OF assms(1-3) none(1)]
    by (fastforce simp: justified_def project_rate_def Let_def split: quotient.splits)
qed

lemma rate_or_reason:
  assumes "distinct (map mp_id ps)" "p \<in> set ps" "mp_type p = ''sum'' \<longrightarrow> mp_monotonic p \<noteq> None"
  shows "rr_rate (project_rate fa (ordered ps p)) = None \<longleftrightarrow> rr_reason (project_rate fa (ordered ps p)) \<noteq> None"
proof (cases "rate_reason (ordered ps p)")
  case None
  from candidate_without_reason [OF assms None, of fa] None show ?thesis
    by (auto simp: project_rate_def Let_def split: quotient.splits)
next
  case (Some e)
  then show ?thesis by (simp add: project_rate_def candidate_rate_def delta_value_def Let_def)
qed

text \<open>
  C19. Every row of \<open>metrics rate\<close> has a rate or a reason, never both, and every rate is
  justified: it is never inferred from the first retained point, across a reset, or from an
  ambiguous or invalid interval. The intervals of the rates of one series do not overlap, so no
  increase is counted twice.
\<close>

theorem metric_rates_justified:
  assumes "distinct (map mp_id ps)" "\<forall>p\<in>set ps. mp_type p = ''sum'' \<longrightarrow> mp_monotonic p \<noteq> None"
    "r \<in> set (metric_rates fa ps)"
  shows "(rr_rate r = None \<longleftrightarrow> rr_reason r \<noteq> None) \<and> (rr_reason r = None \<longrightarrow> justified fa ps r) \<and>
    (\<forall>r'\<in>set (metric_rates fa ps). rr_reason r = None \<and> rr_reason r' = None \<and> r' \<noteq> r \<and>
       series (rr_point r') = series (rr_point r) \<longrightarrow>
       (\<exists>s s'. rr_interval_start r = Some s \<and> rr_interval_start r' = Some s' \<and>
          (mp_time (rr_point r') \<le> s \<or> mp_time (rr_point r) \<le> s')))"
proof -
  have rows: "\<exists>p\<in>set ps. r = project_rate fa (ordered ps p)" if "r \<in> set (metric_rates fa ps)" for r
    using that by (auto simp: metric_rates_def)
  have just: "rr_point r \<in> set ps \<and> justified fa ps r" if "r \<in> set (metric_rates fa ps)" "rr_reason r = None" for r
    using rows [OF that(1)] that(2) row_justified [OF assms(1), of _ fa] assms(2)
    by (auto simp: project_rate_def Let_def)
  have apart: "\<exists>s s'. rr_interval_start r = Some s \<and> rr_interval_start r' = Some s' \<and>
      (mp_time (rr_point r') \<le> s \<or> mp_time (rr_point r) \<le> s')"
    if "r' \<in> set (metric_rates fa ps)" "rr_reason r = None" "rr_reason r' = None" "r' \<noteq> r"
      "series (rr_point r') = series (rr_point r)" for r'
  proof -
    have "rr_point r' \<noteq> rr_point r"
      using rows [OF assms(3)] rows [OF that(1)] that(4) by (auto simp: project_rate_def Let_def)
    with just [OF assms(3) that(2)] just [OF that(1,3)] that(5) show ?thesis
      unfolding justified_def Let_def by (metis linear)
  qed
  from rows [OF assms(3)] assms(1,2) have "rr_rate r = None \<longleftrightarrow> rr_reason r \<noteq> None"
    using rate_or_reason by metis
  with just [OF assms(3)] apart show ?thesis by blast
qed

text \<open>Three readings of a counter, the last after a restart.\<close>

definition exact_arith :: float_arith where
  "exact_arith = \<lparr>fa_sub = (\<lambda>a b. SqlReal (number a - number b)), fa_seconds = (\<lambda>n. real_of_int n / 1000000000),
     fa_div = (\<lambda>d s. Finite (number d / s))\<rparr>"

definition reading :: "int \<Rightarrow> int \<Rightarrow> int \<Rightarrow> int \<Rightarrow> metric_point" where
  "reading i t st v = \<lparr>mp_id = i, mp_time = t, mp_start = st, mp_identity = [''svc'', ''requests''],
     mp_type = ''sum'', mp_temporality = ''cumulative'', mp_monotonic = Some 1, mp_flags = 0,
     mp_int = Some v, mp_double = None\<rparr>"

definition readings :: "metric_point list" where
  "readings = [reading 1 10 5 3, reading 2 20 5 7, reading 3 30 25 1]"

lemma reading_simps [simp]:
  "mp_id (reading i t st v) = i" "mp_time (reading i t st v) = t" "mp_start (reading i t st v) = st"
  "mp_type (reading i t st v) = ''sum''" "mp_temporality (reading i t st v) = ''cumulative''"
  "mp_monotonic (reading i t st v) = Some 1" "mp_flags (reading i t st v) = 0"
  "point_value (reading i t st v) = Some (SqlInt v)" "point_order (reading i t st v) = (t, i)"
  "series (reading i t st v) = ([''svc'', ''requests''], ''sum'', ''cumulative'', Some 1)"
  by (simp_all add: reading_def point_value_def point_order_def series_def)

lemma reading_eq [simp]: "reading i t st v = reading j u su w \<longleftrightarrow> i = j \<and> t = u \<and> st = su \<and> v = w"
  by (auto simp: reading_def)

lemma second_reading:
  "lag readings (reading 2 20 5 7) = Some (reading 1 10 5 3)"
  "same_time readings (reading 2 20 5 7) = 1" "same_time readings (reading 1 10 5 3) = 1"
  by (simp_all add: lag_def series_window_def same_time_def readings_def)

lemma second_reason: "rate_reason (ordered readings (reading 2 20 5 7)) = None"
  unfolding rate_reason_def Let_def ordered_simps second_reading
  by (simp add: second_reading sql_and_def sql_or_def num_less_def)

theorem metric_rates_justified_witness:
  "\<exists>r\<in>set (metric_rates exact_arith readings). rr_interval_start r = Some 10 \<and>
     justified exact_arith readings r \<and> rr_rate r \<noteq> None"
proof -
  let ?r = "project_rate exact_arith (ordered readings (reading 2 20 5 7))"
  have d: "distinct (map mp_id readings)" "\<forall>p\<in>set readings. mp_type p = ''sum'' \<longrightarrow> mp_monotonic p \<noteq> None"
    by (simp_all add: readings_def)
  have r: "?r \<in> set (metric_rates exact_arith readings)" by (simp add: metric_rates_def readings_def)
  have start: "interval_start (ordered readings (reading 2 20 5 7)) = Some 10"
    by (simp add: interval_start_def second_reason second_reading)
  then have "rr_interval_start ?r = Some 10" "rr_reason ?r = None"
    by (simp_all add: project_rate_def candidate_rate_def second_reason exact_arith_def Let_def split: option.splits)
  with metric_rates_justified [OF d r] r show ?thesis by blast
qed

end
