(* ===== verification/Spec2Isabelle.thy ===== *)
theory Spec2Isabelle
  imports StoreWitnesses Redaction QueryColumns QueryShape QueryReadProps StatusWitnesses ExportWitnesses LifecycleWitnesses CliWitnesses Collector Background Recovery Payload MetricRates
begin

text \<open>
  Verification of Logal, a local OpenTelemetry collector that keeps logs, spans and metric
  points in one SQLite database and answers questions about them on the command line.

  \<^bold>\<open>The program and its parts.\<close> OTLP requests enter through the receivers of the OpenTelemetry
  library, pass the gate of the status extension (\<^verbatim>\<open>internal/status\<close>), and reach the exporters
  (\<^verbatim>\<open>internal/exporter\<close>), which validate and redact them, make one canonical JSON payload with a
  SHA-256 fingerprint per item, and hand the records to the store (\<^verbatim>\<open>internal/store\<close>). The store
  owns the database file, serialises its writers, admits a write by free disk and file sizes,
  inserts a batch in one transaction, and runs maintenance (retention and eviction under disk
  pressure) in the background. The status extension serves \<^verbatim>\<open>/readyz\<close>, \<^verbatim>\<open>/status\<close> and \<^verbatim>\<open>/clear\<close> and
  writes an activity log. The command line (\<^verbatim>\<open>cmd/logal\<close>) builds SQL for its views or takes SQL
  from the user, reads through a read-only connection (\<^verbatim>\<open>internal/query\<close>), and prints JSON or a
  table; \<^verbatim>\<open>clear\<close> asks the running collector, \<^verbatim>\<open>reset-db\<close> removes the files of a stopped one.

  \<^bold>\<open>Which theory models what.\<close>

  \<^item> \<open>Logal_Prelude\<close>: Go errors as the datatype \<open>go_error\<close> with \<open>errors.Is\<close> and
    \<open>errors.As\<close>, \<open>result\<close> as a sum, the 64-bit wrap-around, shared list lemmas, the collection
    \<open>frame_simps\<close>. \<open>Tables\<close>: records, rows, and the effect of the SQL statements of the store; the
    interface \<open>signal_table\<close>. \<open>GoText\<close>, \<open>JsonText\<close>, \<open>Utf8Text\<close>: what the code uses of
    \<open>strings\<close>, \<open>strconv\<close>, \<open>unicode/utf8\<close> and \<open>encoding/json\<close>.
  \<^item> \<open>StoreCore\<close>: the record \<open>Store\<close> (fields as in the struct; \<open>db\<close> is the open connection with its
    committed rows, \<open>None\<close> for nil), \<open>admissionErrorLocked\<close>, snapshots, \<open>recordWriteError\<close>
    (\<^verbatim>\<open>store.go\<close>, \<^verbatim>\<open>maintenance.go\<close>). \<open>StoreInsert\<close>: \<open>InsertLogs\<close>, \<open>InsertSpans\<close>,
    \<open>InsertMetricPoints\<close> (\<^verbatim>\<open>store.go\<close>, \<^verbatim>\<open>metrics.go\<close>) through one frame \<open>run_insert\<close> and a loop body
    per signal; the interfaces \<open>batch_step\<close> and \<open>keyed_batch\<close> are what the frame needs of a body.
    \<open>StoreInsertProps\<close>: all or nothing, replay, span conflicts.
  \<^item> \<open>Maintenance\<close>, \<open>MaintenanceProps\<close>: \<open>Maintain\<close>, \<open>deletePressureBatch\<close> (\<^verbatim>\<open>maintenance.go\<close>).
    \<open>StoreClear\<close>: \<open>Clear\<close> (\<^verbatim>\<open>clear.go\<close>). \<open>StoreRuns\<close>: whole operations as a step relation and its
    invariants. \<open>Keeper\<close>: the abstract store of three maps, the law \<open>absorbing\<close> of the loop bodies,
    and the simulation. \<open>Recovery\<close>: from a storage failure to the maintenance that
    succeeds. \<open>Background\<close>: \<open>maintenanceLoop\<close> and \<open>Shutdown\<close> statement by statement.
    \<open>ContextMutex\<close>: the writer lock (\<^verbatim>\<open>mutex.go\<close>).
  \<^item> \<open>Ownership\<close>: the lock file, its checks and the ownership steps of several processes
    (\<^verbatim>\<open>ownership.go\<close>, \<^verbatim>\<open>reader.go\<close>), \<^verbatim>\<open>reset.go\<close>. \<open>Schema\<close>, \<open>SchemaProps\<close>: inspection, disposal and
    creation of the database, \<open>Start\<close>; \<open>SqliteUri\<close>: the names databases are opened under (\<^verbatim>\<open>schema.go\<close>, \<^verbatim>\<open>store.go\<close>).
  \<^item> \<open>Redaction\<close>: OTLP values, \<open>validateMap\<close>, \<open>redactMap\<close>. \<open>Tagging\<close>: \<open>taggedValue\<close> and its inverse.
    \<open>Canonical\<close>: \<open>canonicalPayload\<close>. \<open>JsonReader\<close>, \<open>Payload\<close>: a reference reader of JSON text and
    what a canonical payload keeps. \<open>Otlp\<close>: the walk over resources and scopes, \<open>exportError\<close>,
    configuration. \<open>ExportLogs\<close>, \<open>ExportMetrics\<close>: \<open>ConsumeLogs\<close>, \<open>ConsumeTraces\<close>,
    \<open>ConsumeMetrics\<close> (\<^verbatim>\<open>exporter.go\<close>, \<^verbatim>\<open>metrics.go\<close>). \<open>ExportProps\<close>, \<open>ExportOutcome\<close>, \<open>ExportRetry\<close>,
    \<open>ExportSchema\<close>: what they promise; the interface \<open>exporter\<close> is what an export relies on in the
    store, \<open>redelivery\<close> what a repeated one does.
  \<^item> \<open>SqlGuard\<close>: \<open>singleStatement\<close> and a reference lexer. \<open>QueryBuild\<close>, \<open>QueryBuildProps\<close>,
    \<open>QueryShape\<close>: the statements of the views. \<open>MetricRates\<close>: what the SQL of
    \<open>metrics rate\<close> computes. \<open>QueryColumns\<close>: \<open>OutputColumns\<close>. \<open>QueryRead\<close>,
    \<open>QueryReadProps\<close>: \<open>Read\<close>. \<open>Presentation\<close>: \<open>printHuman\<close>. \<open>CliQuery\<close>: \<open>run\<close> and \<open>queryAction\<close>;
    \<open>CliAdmin\<close>: \<open>clearAction\<close>, \<open>resetAction\<close>.
  \<^item> \<open>Status\<close>: \<open>acquire\<close> and \<open>release\<close> on the channel of permits, as functions and as interleaved
    steps. \<open>StatusHandlers\<close>: interceptors, handlers, activity log, start and shutdown of the server.
    \<open>Collector\<close>: all of the collector as one step relation.
  \<^item> The theories named \<open>...Witnesses\<close> apply the properties with hypotheses to concrete inputs.

  \<^bold>\<open>How code becomes a model.\<close> A call that can fail outside the program (SQLite, files, network,
  contexts) is a field of an environment record that says what it answers, in the order of the
  code; the definitions are total in it, so every property holds for every failure at every
  call. A transaction that is not committed leaves the tables as they were. Errors are values,
  every early return is a branch, a panic (a failed type assertion) is \<open>None\<close>. Fixed-width integers
  are words or \<open>wrap64\<close>. Operations under the writer lock are atomic on the store; what runs outside
  of it (the flags of \<open>Shutdown\<close>, the permits of the gate, the lock itself, the locks of
  processes) has a step per statement.

  \<^bold>\<open>What is shown.\<close> The properties carry their number in the text before them. In short: the
  running collector holds exactly the acknowledged telemetry, minus what maintenance and clears
  removed; a stored payload reads back as the document that was sent, up to the order of
  attributes; the store refines three finite maps and its counters account for every row; batches
  are all or nothing and delivery at least once is storage once; nothing sensitive influences
  what is stored; maintenance removes expired rows and then the oldest under pressure; a
  shutdown always returns and nothing is written after it; at most one process owns a database
  and a foreign one is never replaced; a file name cannot become a driver
  option, a statement of the user cannot leave its wrapper, a value
  of a filter cannot change the SQL; a read fits its byte budget and the pages
  cover all rows; a metric rate is reported only for an interval its points justify.

  \<^bold>\<open>Bounds and termination.\<close> No model of code uses fuel; the
  reference reader of JSON takes the length of its text, of which every step reads a byte. The retention loop ends because each repeated round
  deletes rows; the pressure loop has the 200 iterations of the code; the lexers, the JSON and the
  UTF-8 readers consume their input; \<open>canonicalize\<close> descends into its value. Limits (64 MiB per
  request, 10000 and 5000 items, 1 MiB strings, depth 16, 5000 rows per delete) are the constants of
  the code.

  \<^bold>\<open>Parameters.\<close> SQLite's answers and the rows of a query, \<open>net/http\<close> and the addresses it parses,
  \<open>net/url\<close>, pdata's JSON marshalers, the JSON decoder, SHA-256, the number format of floats, the
  Unicode lower case, \<open>lsof\<close> and the file system. Laws assumed of them stand as hypotheses in
  the properties that need them.

  \<^bold>\<open>Not modelled.\<close> \<open>runCollector\<close>, the factories and the flag declarations: they hand values to
  the OpenTelemetry and command-line libraries. The SQL text of the schema and of the indexes
  beyond its effect on the tables. Timing, tickers and the wall clock (times are arguments).
  Configuration files, scripts, tests and documentation.
\<close>

end
